theory Spec2Isabelle
  imports Main "HOL-Library.Word"
begin

unbundle bit_operations_syntax

section \<open>Digital IO of the functional tester: data model\<close>

text \<open>
  Shallow embedding of \<^verbatim>\<open>usbd_digital_io.c\<close>. The file's globals
  (\<^verbatim>\<open>digital_io\<close>, \<^verbatim>\<open>digital_io_new_state\<close>,
  \<^verbatim>\<open>digital_io_switch_buffer\<close>) are the fields of one state record that every
  function takes and returns. The calls into the GPIO layer (\<^verbatim>\<open>HAL_GPIO_Init\<close>,
  \<^verbatim>\<open>GPIO_Write_DIGITAL_IO\<close>) are recorded, in call order, in the field \<open>hw\<close>.

  C arrays are functions from the index; the loops of the source only use indices below the
  loop bound. Where the source indexes with a value it read from memory (the cursors of the
  switch buffer, an entry of the switch buffer used as port index) the model checks the
  range and returns the fault \<open>OutOfBounds\<close>, since C leaves such an access undefined.
\<close>

type_synonym u8 = "8 word"
type_synonym u32 = "32 word"

text \<open>
  Modelled from the spec: the macros of \<^verbatim>\<open>usbd_digital_io.h\<close>, which is not part of
  the sources. The spec fixes \<open>PORT_COUNT = 6\<close> and \<open>PINS_PER_PORT = 4\<close>; the comments of
  \<^verbatim>\<open>USBD_HID_Digital_IO_CreateReport\<close> (\<^verbatim>\<open>XX543210\<close>, \<^verbatim>\<open>4 pin / port\<close>) agree.
\<close>

definition DIGITAL_MAX_PORT_NUM :: nat where
  "DIGITAL_MAX_PORT_NUM = 6"

definition DIGITAL_MAX_PIN_NUM :: nat where
  "DIGITAL_MAX_PIN_NUM = 4"

text \<open>
  Modelled from the spec: the enumerators of \<^verbatim>\<open>usbd_digital_io.h\<close>. The source compares
  them with a masked command byte, so each is the value of its bit field in place:
  bit 0 is the active flag, bit 1 the mode (1 = Output), bits 2-3 the pull policy
  (00 = NoPull, 01 = PullDown, 10 = PullUp), and a pin at rest is Low.
\<close>

definition UNCHANGED :: u8 where "UNCHANGED = 0x00"
definition CHANGED :: u8 where "CHANGED = 0x01"
definition INPUT :: u8 where "INPUT = 0x00"
definition OUTPUT :: u8 where "OUTPUT = 0x02"
definition NOPULL :: u8 where "NOPULL = 0x00"
definition PULLDOWN :: u8 where "PULLDOWN = 0x04"
definition PULLUP :: u8 where "PULLUP = 0x08"
definition DIGITAL_PIN_LOW :: u8 where "DIGITAL_PIN_LOW = 0"

text \<open>
  Modelled from the spec: the constants of the vendor header \<^verbatim>\<open>stm32f4xx_hal_gpio.h\<close>,
  which is not part of the sources. The report encodes mode Input as 0 and Output as 1;
  of the pull codes only their being distinct is used.
\<close>

definition GPIO_MODE_INPUT :: u32 where "GPIO_MODE_INPUT = 0x00000000"
definition GPIO_MODE_OUTPUT_PP :: u32 where "GPIO_MODE_OUTPUT_PP = 0x00000001"
definition GPIO_NOPULL :: u32 where "GPIO_NOPULL = 0x00000000"
definition GPIO_PULLUP :: u32 where "GPIO_PULLUP = 0x00000001"
definition GPIO_PULLDOWN :: u32 where "GPIO_PULLDOWN = 0x00000002"

record GPIO_InitTypeDef =
  Pin :: u32
  Mode :: u32
  Pull :: u32

record HID_DIGITAL_IO_Port =
  gpio_settings :: GPIO_InitTypeDef
  pin_enabled_size :: u8
  changeIO :: u8
  changePIN :: u8
  pins :: "nat \<Rightarrow> u8"

record HID_DIGITAL_IO_TypeDef =
  port_enabled_size :: u8
  ports :: "nat \<Rightarrow> HID_DIGITAL_IO_Port"

record ORDERED_ARRAY =
  array :: "nat \<Rightarrow> u8"
  head_idx :: u8
  tail_idx :: u8

datatype hw_event =
  HAL_GPIO_Init nat GPIO_InitTypeDef
| GPIO_Write_DIGITAL_IO nat nat u8

record state =
  digital_io :: HID_DIGITAL_IO_TypeDef
  digital_io_new_state :: HID_DIGITAL_IO_TypeDef
  digital_io_switch_buffer :: ORDERED_ARRAY
  hw :: "hw_event list"

datatype fault = OutOfBounds

text \<open>
  The table \<^verbatim>\<open>gpio_digital_pin[port][pin]\<close> of \<^verbatim>\<open>gpio.h\<close> is not part of the
  sources: every function that reads it takes it as its first argument.
\<close>

type_synonym pin_table = "nat \<Rightarrow> nat \<Rightarrow> u32"

section \<open>Initialisation and reset\<close>

text \<open>
  The body that \<^verbatim>\<open>USBD_HID_Digital_IO_Init\<close> (lines 80-94) and the else branch of
  \<^verbatim>\<open>USBD_HID_Digital_IO_Set_Changes\<close> (lines 292-306) both run for one port: default
  settings, then the loop over the pins.
\<close>

definition default_pin :: "pin_table \<Rightarrow> nat \<Rightarrow> nat \<Rightarrow> HID_DIGITAL_IO_Port \<Rightarrow> HID_DIGITAL_IO_Port" where
  "default_pin tbl port_idx pin_idx p =
     p\<lparr>pins := (pins p)(pin_idx := DIGITAL_PIN_LOW),
       gpio_settings := (gpio_settings p)\<lparr>Pin := Pin (gpio_settings p) OR tbl port_idx pin_idx\<rparr>\<rparr>"

definition default_port :: "pin_table \<Rightarrow> nat \<Rightarrow> HID_DIGITAL_IO_Port \<Rightarrow> HID_DIGITAL_IO_Port" where
  "default_port tbl port_idx p =
     fold (default_pin tbl port_idx) [0..<DIGITAL_MAX_PIN_NUM]
       (p\<lparr>gpio_settings := \<lparr>Pin = 0, Mode = GPIO_MODE_INPUT, Pull = GPIO_PULLDOWN\<rparr>,
          pin_enabled_size := of_nat DIGITAL_MAX_PIN_NUM,
          changeIO := UNCHANGED,
          changePIN := UNCHANGED\<rparr>)"

definition Init_port :: "pin_table \<Rightarrow> nat \<Rightarrow> HID_DIGITAL_IO_TypeDef \<Rightarrow> HID_DIGITAL_IO_TypeDef" where
  "Init_port tbl port_idx inst =
     inst\<lparr>ports := (ports inst)(port_idx := default_port tbl port_idx (ports inst port_idx))\<rparr>"

definition USBD_HID_Digital_IO_Init :: "pin_table \<Rightarrow> HID_DIGITAL_IO_TypeDef \<Rightarrow> HID_DIGITAL_IO_TypeDef" where
  "USBD_HID_Digital_IO_Init tbl digital_io_instance =
     fold (Init_port tbl) [0..<DIGITAL_MAX_PORT_NUM]
       (digital_io_instance\<lparr>port_enabled_size := of_nat DIGITAL_MAX_PORT_NUM\<rparr>)"

text \<open>
  \<^verbatim>\<open>USBD_HID_Digital_IO_Reset_SwitchTrig\<close>, lines 108-121, on the switch buffer. The
  fill value \<^verbatim>\<open>PORT_UNUSED\<close> is a macro of the absent header and is a parameter here.
  The trigger and report flags the function also clears play no part in what follows.
\<close>

definition USBD_HID_Digital_IO_Reset_SwitchTrig :: "u8 \<Rightarrow> state \<Rightarrow> state" where
  "USBD_HID_Digital_IO_Reset_SwitchTrig PORT_UNUSED s =
     s\<lparr>digital_io_switch_buffer :=
         fold (\<lambda>port_idx b. b\<lparr>array := (array b)(port_idx := PORT_UNUSED)\<rparr>)
           [0..<DIGITAL_MAX_PORT_NUM]
           ((digital_io_switch_buffer s)\<lparr>head_idx := 0, tail_idx := of_nat (DIGITAL_MAX_PORT_NUM - 1)\<rparr>)\<rparr>"

section \<open>The state transition computation\<close>

text \<open>Lines 214-228: the switch over the masked pull bits.\<close>

definition decode_pull :: "u8 \<Rightarrow> u32" where
  "decode_pull temp_pull =
     (if temp_pull = NOPULL then GPIO_NOPULL
      else if temp_pull = PULLDOWN then GPIO_PULLDOWN
      else if temp_pull = PULLUP then GPIO_PULLUP
      else GPIO_NOPULL)"

text \<open>
  Lines 239-240 and 244-245: the two pushes into the switch buffer. The cursor is read from
  memory, so a cursor outside the array is a fault.
\<close>

definition push_tail :: "nat \<Rightarrow> ORDERED_ARRAY \<Rightarrow> fault + ORDERED_ARRAY" where
  "push_tail port_idx b =
     (if unat (tail_idx b) < DIGITAL_MAX_PORT_NUM
      then Inr (b\<lparr>array := (array b)(unat (tail_idx b) := of_nat port_idx), tail_idx := tail_idx b - 1\<rparr>)
      else Inl OutOfBounds)"

definition push_head :: "nat \<Rightarrow> ORDERED_ARRAY \<Rightarrow> fault + ORDERED_ARRAY" where
  "push_head port_idx b =
     (if unat (head_idx b) < DIGITAL_MAX_PORT_NUM
      then Inr (b\<lparr>array := (array b)(unat (head_idx b) := of_nat port_idx), head_idx := head_idx b + 1\<rparr>)
      else Inl OutOfBounds)"

text \<open>
  Lines 230-251: the \<^verbatim>\<open>_changeIO\<close> flag of the candidate port \<open>p\<close> against the live port
  \<open>lp\<close>, and the push into the tail (new mode Output) or the head (otherwise).
\<close>

definition update_changeIO ::
  "nat \<Rightarrow> HID_DIGITAL_IO_Port \<Rightarrow> HID_DIGITAL_IO_Port \<Rightarrow> ORDERED_ARRAY \<Rightarrow> fault + (HID_DIGITAL_IO_Port \<times> ORDERED_ARRAY)" where
  "update_changeIO port_idx lp p b =
     (if Mode (gpio_settings p) \<noteq> Mode (gpio_settings lp) \<or> Pull (gpio_settings p) \<noteq> Pull (gpio_settings lp)
      then
        (case (if Mode (gpio_settings p) = GPIO_MODE_OUTPUT_PP then push_tail port_idx b else push_head port_idx b) of
           Inl e \<Rightarrow> Inl e
         | Inr b' \<Rightarrow> Inr (p\<lparr>changeIO := CHANGED\<rparr>, b'))
      else Inr (p\<lparr>changeIO := UNCHANGED\<rparr>, b))"

text \<open>Lines 263-280: the body of the loop over the pins of an Output port.\<close>

definition set_pin :: "u8 \<Rightarrow> HID_DIGITAL_IO_Port \<Rightarrow> nat \<Rightarrow> HID_DIGITAL_IO_Port \<Rightarrow> HID_DIGITAL_IO_Port" where
  "set_pin temp_pins lp pin_idx p =
     (let p1 = p\<lparr>pins := (pins p)(pin_idx := drop_bit pin_idx temp_pins AND 0x01)\<rparr>
      in if (pins p1 pin_idx \<noteq> pins lp pin_idx \<and> changeIO p1 = UNCHANGED) \<or> changeIO p1 = CHANGED
         then p1\<lparr>changePIN := CHANGED\<rparr>
         else p1\<lparr>changePIN := UNCHANGED\<rparr>)"

text \<open>
  Lines 204-307: the body of the loop over the ports, for the command byte \<open>byte\<close> of port
  \<open>port_idx\<close>. It reads the live port \<open>lp\<close>, and writes the candidate port \<open>p\<close> and the
  switch buffer \<open>b\<close>.
\<close>

definition Set_Changes_port ::
  "pin_table \<Rightarrow> u8 \<Rightarrow> nat \<Rightarrow> HID_DIGITAL_IO_Port \<Rightarrow> HID_DIGITAL_IO_Port \<Rightarrow> ORDERED_ARRAY
     \<Rightarrow> fault + (HID_DIGITAL_IO_Port \<times> ORDERED_ARRAY)" where
  "Set_Changes_port tbl byte port_idx lp p b =
     (let temp_change = byte AND 0x01 in
      if temp_change = CHANGED then
        (let temp_mode = byte AND 0x02;
             p1 = p\<lparr>gpio_settings := (gpio_settings p)
                     \<lparr>Mode := (if temp_mode = OUTPUT then GPIO_MODE_OUTPUT_PP else GPIO_MODE_INPUT)\<rparr>\<rparr>;
             temp_pull = byte AND 0x0C;
             p2 = p1\<lparr>gpio_settings := (gpio_settings p1)\<lparr>Pull := decode_pull temp_pull\<rparr>\<rparr>
         in case update_changeIO port_idx lp p2 b of
              Inl e \<Rightarrow> Inl e
            | Inr (p3, b') \<Rightarrow>
                if temp_mode = OUTPUT then
                  (let temp_pins = drop_bit 4 (byte AND (0x10 OR 0x20 OR 0x40 OR 0x80))
                   in Inr (fold (set_pin temp_pins lp) [0..<DIGITAL_MAX_PIN_NUM] p3, b'))
                else Inr (p3\<lparr>changePIN := UNCHANGED\<rparr>, b'))
      else Inr (default_port tbl port_idx p, b))"

text \<open>The loop body on the state: port \<open>port_idx\<close> of the candidate and the switch buffer.\<close>

definition Set_Changes_body :: "pin_table \<Rightarrow> (nat \<Rightarrow> u8) \<Rightarrow> nat \<Rightarrow> state \<Rightarrow> fault + state" where
  "Set_Changes_body tbl output_buff port_idx s =
     (case Set_Changes_port tbl (output_buff port_idx) port_idx
             (ports (digital_io s) port_idx) (ports (digital_io_new_state s) port_idx)
             (digital_io_switch_buffer s) of
        Inl e \<Rightarrow> Inl e
      | Inr (p, b) \<Rightarrow>
          Inr (s\<lparr>digital_io_new_state :=
                   (digital_io_new_state s)\<lparr>ports := (ports (digital_io_new_state s))(port_idx := p)\<rparr>,
                 digital_io_switch_buffer := b\<rparr>))"

text \<open>A \<^verbatim>\<open>for\<close> loop over the given indices that stops at the first fault.\<close>

fun for_each :: "(nat \<Rightarrow> 's \<Rightarrow> fault + 's) \<Rightarrow> nat list \<Rightarrow> 's \<Rightarrow> fault + 's" where
  "for_each body [] s = Inr s"
| "for_each body (i # is) s = (case body i s of Inl e \<Rightarrow> Inl e | Inr s' \<Rightarrow> for_each body is s')"

text \<open>
  \<^verbatim>\<open>USBD_HID_Digital_IO_Set_Changes\<close>. The argument is a pointer without a length: the
  model takes the memory behind it, \<open>output_buff i\<close> being the byte at offset \<open>i\<close>, and
  the loop reads offsets \<open>0\<close> to \<open>DIGITAL_MAX_PORT_NUM - 1\<close>. The function returns
  \<^verbatim>\<open>void\<close>; the only result is the new state.
\<close>

definition USBD_HID_Digital_IO_Set_Changes :: "pin_table \<Rightarrow> (nat \<Rightarrow> u8) \<Rightarrow> state \<Rightarrow> fault + state" where
  "USBD_HID_Digital_IO_Set_Changes tbl output_buff s =
     for_each (Set_Changes_body tbl output_buff) [0..<DIGITAL_MAX_PORT_NUM] s"

section \<open>The commit\<close>

text \<open>
  \<^verbatim>\<open>USBD_HID_Digital_IO_GPIO_Setup\<close>: the slot \<open>idx\<close> of the switch buffer names the
  port, whose live settings go to \<^verbatim>\<open>HAL_GPIO_Init\<close>. The port handle
  \<^verbatim>\<open>gpio_digital_port[port][0]\<close> comes from an absent table; the event records the port index.
\<close>

definition USBD_HID_Digital_IO_GPIO_Setup :: "u8 \<Rightarrow> state \<Rightarrow> fault + state" where
  "USBD_HID_Digital_IO_GPIO_Setup idx s =
     (if unat idx < DIGITAL_MAX_PORT_NUM then
        (let port = unat (array (digital_io_switch_buffer s) (unat idx)) in
         if port < DIGITAL_MAX_PORT_NUM
         then Inr (s\<lparr>hw := hw s @ [HAL_GPIO_Init port (gpio_settings (ports (digital_io s) port))]\<rparr>)
         else Inl OutOfBounds)
      else Inl OutOfBounds)"

text \<open>Lines 342-347: the first \<^verbatim>\<open>while\<close> loop, over the head of the switch buffer.\<close>

function drain_head :: "state \<Rightarrow> fault + state" where
  "drain_head s =
     (if head_idx (digital_io_switch_buffer s) \<noteq> 0 then
        (let s1 = s\<lparr>digital_io_switch_buffer :=
                      (digital_io_switch_buffer s)\<lparr>head_idx := head_idx (digital_io_switch_buffer s) - 1\<rparr>\<rparr>
         in case USBD_HID_Digital_IO_GPIO_Setup (head_idx (digital_io_switch_buffer s1)) s1 of
              Inl e \<Rightarrow> Inl e
            | Inr s2 \<Rightarrow> drain_head s2)
      else Inr s)"
  by pat_completeness auto
termination
proof (relation "measure (\<lambda>s. unat (head_idx (digital_io_switch_buffer s)))")
  show "wf (measure (\<lambda>s. unat (head_idx (digital_io_switch_buffer s))))"
    by simp
next
  fix s s1 s2
  assume nz: "head_idx (digital_io_switch_buffer s) \<noteq> 0"
    and s1: "s1 = s\<lparr>digital_io_switch_buffer :=
                      (digital_io_switch_buffer s)\<lparr>head_idx := head_idx (digital_io_switch_buffer s) - 1\<rparr>\<rparr>"
    and s2: "USBD_HID_Digital_IO_GPIO_Setup (head_idx (digital_io_switch_buffer s1)) s1 = Inr s2"
  have "digital_io_switch_buffer s2 = digital_io_switch_buffer s1"
    using s2 by (auto simp: USBD_HID_Digital_IO_GPIO_Setup_def Let_def split: if_splits)
  moreover have "unat (head_idx (digital_io_switch_buffer s) - 1) < unat (head_idx (digital_io_switch_buffer s))"
    using nz by (simp add: unat_minus_one unat_gt_0)
  ultimately show "(s2, s) \<in> measure (\<lambda>s. unat (head_idx (digital_io_switch_buffer s)))"
    using s1 by simp
qed

text \<open>Lines 350-354: the second \<^verbatim>\<open>while\<close> loop, over the tail of the switch buffer.\<close>

function drain_tail :: "state \<Rightarrow> fault + state" where
  "drain_tail s =
     (if tail_idx (digital_io_switch_buffer s) \<noteq> of_nat (DIGITAL_MAX_PORT_NUM - 1) then
        (let s1 = s\<lparr>digital_io_switch_buffer :=
                      (digital_io_switch_buffer s)\<lparr>tail_idx := tail_idx (digital_io_switch_buffer s) + 1\<rparr>\<rparr>
         in case USBD_HID_Digital_IO_GPIO_Setup (tail_idx (digital_io_switch_buffer s1)) s1 of
              Inl e \<Rightarrow> Inl e
            | Inr s2 \<Rightarrow> drain_tail s2)
      else Inr s)"
  by pat_completeness auto
termination
proof (relation "measure (\<lambda>s. unat (of_nat (DIGITAL_MAX_PORT_NUM - 1) - tail_idx (digital_io_switch_buffer s)))")
  show "wf (measure (\<lambda>s. unat (of_nat (DIGITAL_MAX_PORT_NUM - 1) - tail_idx (digital_io_switch_buffer s))))"
    by simp
next
  fix s s1 s2
  assume nz: "tail_idx (digital_io_switch_buffer s) \<noteq> of_nat (DIGITAL_MAX_PORT_NUM - 1)"
    and s1: "s1 = s\<lparr>digital_io_switch_buffer :=
                      (digital_io_switch_buffer s)\<lparr>tail_idx := tail_idx (digital_io_switch_buffer s) + 1\<rparr>\<rparr>"
    and s2: "USBD_HID_Digital_IO_GPIO_Setup (tail_idx (digital_io_switch_buffer s1)) s1 = Inr s2"
  let ?d = "of_nat (DIGITAL_MAX_PORT_NUM - 1) - tail_idx (digital_io_switch_buffer s) :: u8"
  have "digital_io_switch_buffer s2 = digital_io_switch_buffer s1"
    using s2 by (auto simp: USBD_HID_Digital_IO_GPIO_Setup_def Let_def split: if_splits)
  moreover have "?d \<noteq> 0"
    using nz by simp
  then have "unat (?d - 1) < unat ?d"
    by (simp add: unat_minus_one unat_gt_0)
  ultimately show "(s2, s) \<in> measure (\<lambda>s. unat (of_nat (DIGITAL_MAX_PORT_NUM - 1) - tail_idx (digital_io_switch_buffer s)))"
    using s1 by (simp add: diff_diff_eq [symmetric])
qed

text \<open>Lines 359-368: the body of the third loop, the pin writes of one port and the reset of its flags.\<close>

definition write_port :: "nat \<Rightarrow> state \<Rightarrow> state" where
  "write_port port_idx s =
     (let s1 = (if changePIN (ports (digital_io s) port_idx) = CHANGED
                then s\<lparr>hw := hw s @ map (\<lambda>pin_idx. GPIO_Write_DIGITAL_IO port_idx pin_idx
                                             (pins (ports (digital_io s) port_idx) pin_idx))
                                     [0..<DIGITAL_MAX_PIN_NUM]\<rparr>
                else s)
      in s1\<lparr>digital_io := (digital_io s1)\<lparr>ports := (ports (digital_io s1))
              (port_idx := (ports (digital_io s1) port_idx)\<lparr>changePIN := UNCHANGED, changeIO := UNCHANGED\<rparr>)\<rparr>\<rparr>)"

text \<open>\<^verbatim>\<open>USBD_HID_Digital_IO_SwitchPorts\<close>: the copy, the two drains, the pin writes.\<close>

definition USBD_HID_Digital_IO_SwitchPorts :: "state \<Rightarrow> fault + state" where
  "USBD_HID_Digital_IO_SwitchPorts s =
     (case drain_head (s\<lparr>digital_io := digital_io_new_state s\<rparr>) of
        Inl e \<Rightarrow> Inl e
      | Inr s1 \<Rightarrow>
          (case drain_tail s1 of
             Inl e \<Rightarrow> Inl e
           | Inr s2 \<Rightarrow> Inr (fold write_port [0..<DIGITAL_MAX_PORT_NUM] s2)))"

text \<open>
  One cycle as the callers run it: the transition computation on the received command, then
  the commit. (The callers are not part of the sources; the spec gives this order.)
\<close>

definition decode_and_commit :: "pin_table \<Rightarrow> (nat \<Rightarrow> u8) \<Rightarrow> state \<Rightarrow> fault + state" where
  "decode_and_commit tbl output_buff s =
     (case USBD_HID_Digital_IO_Set_Changes tbl output_buff s of
        Inl e \<Rightarrow> Inl e
      | Inr s1 \<Rightarrow> USBD_HID_Digital_IO_SwitchPorts s1)"

text \<open>A run of the device: one cycle for each command received, in order.\<close>

fun run_cycles :: "pin_table \<Rightarrow> (nat \<Rightarrow> u8) list \<Rightarrow> state \<Rightarrow> fault + state" where
  "run_cycles tbl [] s = Inr s"
| "run_cycles tbl (output_buff # rest) s =
     (case decode_and_commit tbl output_buff s of
        Inl e \<Rightarrow> Inl e
      | Inr s' \<Rightarrow> run_cycles tbl rest s')"

section \<open>The report\<close>

text \<open>
  \<^verbatim>\<open>report[k] += x\<close> on a \<^verbatim>\<open>uint8_t\<close>: the sum is taken in 32 bits and truncated.
\<close>

definition add_to_report :: "nat \<Rightarrow> u32 \<Rightarrow> u8 list \<Rightarrow> u8 list" where
  "add_to_report k x report = report[k := ucast (ucast (report ! k) + x :: u32)]"

text \<open>
  Lines 142-164: the body of the loop over the ports; it carries the report and the local
  \<^verbatim>\<open>report_num\<close> (the local \<^verbatim>\<open>offset\<close> is set afresh on every pass).
\<close>

definition CreateReport_port :: "HID_DIGITAL_IO_TypeDef \<Rightarrow> nat \<Rightarrow> u8 list \<times> nat \<Rightarrow> u8 list \<times> nat" where
  "CreateReport_port live port_idx rn =
     (let report = add_to_report 0 (push_bit port_idx (Mode (gpio_settings (ports live port_idx)))) (fst rn);
          report_num = (if port_idx mod 2 = 0 then snd rn + 1 else snd rn);
          offset = (if port_idx mod 2 = 0 then 0 else 4 :: nat)
      in (fold (\<lambda>pin_idx. add_to_report report_num
                  (push_bit (pin_idx + offset) (ucast (pins (ports live port_idx) pin_idx))))
            [0..<DIGITAL_MAX_PIN_NUM] report,
          report_num))"

definition USBD_HID_Digital_IO_CreateReport :: "state \<Rightarrow> u8 list" where
  "USBD_HID_Digital_IO_CreateReport s =
     fst (fold (CreateReport_port (digital_io s)) [0..<DIGITAL_MAX_PORT_NUM] ([0, 0, 0, 0], 0))"

section \<open>Reading the switch buffer\<close>

text \<open>
  The two ranges of the switch buffer as the spec's data model describes them: the slots
  \<open>[0, head_idx)\<close> hold the ports queued for the first drain, the slots
  \<open>(tail_idx, DIGITAL_MAX_PORT_NUM - 1]\<close> the ports queued for the second. The cursors are
  \<^verbatim>\<open>uint8_t\<close>: a tail cursor that stepped below 0 is 255, and the slot after it is 0.
\<close>

definition head_ports :: "ORDERED_ARRAY \<Rightarrow> nat list" where
  "head_ports b = map (\<lambda>i. unat (array b i)) [0..<unat (head_idx b)]"

definition tail_ports :: "ORDERED_ARRAY \<Rightarrow> nat list" where
  "tail_ports b = map (\<lambda>i. unat (array b i)) [unat (tail_idx b + 1)..<DIGITAL_MAX_PORT_NUM]"

text \<open>The empty switch buffer, as \<^verbatim>\<open>USBD_HID_Digital_IO_Reset_SwitchTrig\<close> and both drains leave it.\<close>

definition switch_buffer_empty :: "ORDERED_ARRAY \<Rightarrow> bool" where
  "switch_buffer_empty b = (head_idx b = 0 \<and> tail_idx b = of_nat (DIGITAL_MAX_PORT_NUM - 1))"

text \<open>
  A switch buffer the drains can walk without leaving the arrays: both cursors are inside
  the buffer (the tail cursor possibly wrapped to 255) and every queued slot names a port.
\<close>

definition switch_buffer_in_range :: "ORDERED_ARRAY \<Rightarrow> bool" where
  "switch_buffer_in_range b =
     (unat (head_idx b) \<le> DIGITAL_MAX_PORT_NUM \<and> unat (tail_idx b + 1) \<le> DIGITAL_MAX_PORT_NUM \<and>
      list_all (\<lambda>p. p < DIGITAL_MAX_PORT_NUM) (head_ports b) \<and>
      list_all (\<lambda>p. p < DIGITAL_MAX_PORT_NUM) (tail_ports b))"

text \<open>The call of \<^verbatim>\<open>HAL_GPIO_Init\<close> that \<^verbatim>\<open>USBD_HID_Digital_IO_GPIO_Setup\<close> makes for port \<open>p\<close>.\<close>

definition setup_call :: "HID_DIGITAL_IO_TypeDef \<Rightarrow> nat \<Rightarrow> hw_event" where
  "setup_call live p = HAL_GPIO_Init p (gpio_settings (ports live p))"

text \<open>
  A Digital State as the spec's data model types it: every port's mode is Input or Output
  and every pin value is Low (0) or High (1). The C fields are wider
  (\<^verbatim>\<open>uint32_t\<close> and \<^verbatim>\<open>uint8_t\<close>).
\<close>

definition valid_digital_io :: "HID_DIGITAL_IO_TypeDef \<Rightarrow> bool" where
  "valid_digital_io d =
     list_all (\<lambda>i. (Mode (gpio_settings (ports d i)) = GPIO_MODE_INPUT \<or>
                    Mode (gpio_settings (ports d i)) = GPIO_MODE_OUTPUT_PP) \<and>
                   list_all (\<lambda>j. pins (ports d i) j = DIGITAL_PIN_LOW \<or> pins (ports d i) j = 1)
                     [0..<DIGITAL_MAX_PIN_NUM])
       [0..<DIGITAL_MAX_PORT_NUM]"

text \<open>
  The order of the port set-ups in a trace of GPIO calls: once a port has been set up with
  mode Output, no later call sets a port up with mode Input.
\<close>

fun setup_with_mode :: "u32 \<Rightarrow> hw_event \<Rightarrow> bool" where
  "setup_with_mode m (HAL_GPIO_Init p g) = (Mode g = m)"
| "setup_with_mode m (GPIO_Write_DIGITAL_IO p k v) = False"

fun inputs_before_outputs :: "hw_event list \<Rightarrow> bool" where
  "inputs_before_outputs [] = True"
| "inputs_before_outputs (e # es) =
     ((setup_with_mode GPIO_MODE_OUTPUT_PP e \<longrightarrow> \<not> list_ex (setup_with_mode GPIO_MODE_INPUT) es) \<and>
      inputs_before_outputs es)"

section \<open>Concrete inputs\<close>

text \<open>
  A pin table for the worked examples (pin \<open>k\<close> of every port has the identifier
  \<open>2 ^ k\<close>), the state after start-up (both instances initialised from zeroed memory,
  the switch buffer reset, no call made yet), and the memory behind a command pointer:
  the bytes the host delivered, followed by whatever the memory held before.
\<close>

definition example_pin_table :: pin_table where
  "example_pin_table port_idx pin_idx = push_bit pin_idx 1"

definition zeroed :: HID_DIGITAL_IO_TypeDef where
  "zeroed = \<lparr>port_enabled_size = 0,
              ports = (\<lambda>_. \<lparr>gpio_settings = \<lparr>Pin = 0, Mode = 0, Pull = 0\<rparr>, pin_enabled_size = 0,
                             changeIO = 0, changePIN = 0, pins = (\<lambda>_. 0)\<rparr>)\<rparr>"

definition power_on :: state where
  "power_on =
     USBD_HID_Digital_IO_Reset_SwitchTrig 0xFF
       \<lparr>digital_io = USBD_HID_Digital_IO_Init example_pin_table zeroed,
        digital_io_new_state = USBD_HID_Digital_IO_Init example_pin_table zeroed,
        digital_io_switch_buffer = \<lparr>array = (\<lambda>_. 0), head_idx = 0, tail_idx = 0\<rparr>,
        hw = []\<rparr>"

text \<open>
  The start state, except that pin 0 of candidate port 0 still holds High, as an earlier
  Output command for that port leaves it: the Input branch of the transition computation
  does not write the candidate pins, and the read path refreshes the live pins only.
\<close>

definition stale_candidate :: state where
  "stale_candidate =
     power_on\<lparr>digital_io_new_state :=
       (digital_io_new_state power_on)\<lparr>ports := (ports (digital_io_new_state power_on))
          (0 := (ports (digital_io_new_state power_on) 0)
                  \<lparr>pins := (pins (ports (digital_io_new_state power_on) 0))(0 := 1)\<rparr>)\<rparr>\<rparr>"

definition received :: "u8 list \<Rightarrow> (nat \<Rightarrow> u8) \<Rightarrow> nat \<Rightarrow> u8" where
  "received bytes old i = (if i < length bytes then bytes ! i else old i)"

section \<open>Auxiliary facts: constants, masks and the pass for one port\<close>

declare drain_head.simps [simp del] drain_tail.simps [simp del]

lemma GPIO_Setup_switch_buffer:
  "USBD_HID_Digital_IO_GPIO_Setup idx s = Inr s' \<Longrightarrow> digital_io_switch_buffer s' = digital_io_switch_buffer s"
  by (auto simp: USBD_HID_Digital_IO_GPIO_Setup_def Let_def split: if_splits)

lemma upt_pins: "[0..<DIGITAL_MAX_PIN_NUM] = [0, 1, 2, 3]"
  unfolding DIGITAL_MAX_PIN_NUM_def by code_simp

lemma upt_ports: "[0..<DIGITAL_MAX_PORT_NUM] = [0, 1, 2, 3, 4, 5]"
  unfolding DIGITAL_MAX_PORT_NUM_def by code_simp

lemma lt4_cases: "j < (4::nat) \<Longrightarrow> j = 0 \<or> j = 1 \<or> j = 2 \<or> j = 3"
  by arith

lemma default_port_fields:
  "gpio_settings (default_port tbl i p) =
     \<lparr>Pin = 0 OR tbl i 0 OR tbl i 1 OR tbl i 2 OR tbl i 3, Mode = GPIO_MODE_INPUT, Pull = GPIO_PULLDOWN\<rparr>"
  "pin_enabled_size (default_port tbl i p) = of_nat DIGITAL_MAX_PIN_NUM"
  "changeIO (default_port tbl i p) = UNCHANGED"
  "changePIN (default_port tbl i p) = UNCHANGED"
  "pins (default_port tbl i p) = (pins p)(0 := DIGITAL_PIN_LOW, 1 := DIGITAL_PIN_LOW, 2 := DIGITAL_PIN_LOW, 3 := DIGITAL_PIN_LOW)"
  by (simp_all add: default_port_def default_pin_def upt_pins or.assoc)

lemma set_pin_fields:
  "gpio_settings (set_pin tp lp j p) = gpio_settings p"
  "pin_enabled_size (set_pin tp lp j p) = pin_enabled_size p"
  "changeIO (set_pin tp lp j p) = changeIO p"
  "pins (set_pin tp lp j p) = (pins p)(j := drop_bit j tp AND 1)"
  "changePIN (set_pin tp lp j p) =
     (if (drop_bit j tp AND 1 \<noteq> pins lp j \<and> changeIO p = UNCHANGED) \<or> changeIO p = CHANGED
      then CHANGED else UNCHANGED)"
  by (simp_all add: set_pin_def Let_def)

lemma set_pins_fields:
  "gpio_settings (fold (set_pin tp lp) [0..<DIGITAL_MAX_PIN_NUM] p) = gpio_settings p"
  "pin_enabled_size (fold (set_pin tp lp) [0..<DIGITAL_MAX_PIN_NUM] p) = pin_enabled_size p"
  "changeIO (fold (set_pin tp lp) [0..<DIGITAL_MAX_PIN_NUM] p) = changeIO p"
  "pins (fold (set_pin tp lp) [0..<DIGITAL_MAX_PIN_NUM] p) =
     (pins p)(0 := drop_bit 0 tp AND 1, 1 := drop_bit 1 tp AND 1, 2 := drop_bit 2 tp AND 1, 3 := drop_bit 3 tp AND 1)"
  "changePIN (fold (set_pin tp lp) [0..<DIGITAL_MAX_PIN_NUM] p) =
     (if (drop_bit 3 tp AND 1 \<noteq> pins lp 3 \<and> changeIO p = UNCHANGED) \<or> changeIO p = CHANGED
      then CHANGED else UNCHANGED)"
  by (simp_all add: upt_pins set_pin_fields del: drop_bit_0)

lemma u8_bit_cases: "bit (w::u8) n \<Longrightarrow> n \<in> {0, 1, 2, 3, 4, 5, 6, 7}"
proof -
  assume "bit w n"
  then have "n < 8" by (auto dest: bit_imp_le_length)
  then show ?thesis by auto
qed

lemma bit_0x0C: "bit (0x0C::u8) n = (n = 2 \<or> n = 3)"
proof
  assume "bit (0x0C::u8) n"
  from u8_bit_cases [OF this] this show "n = 2 \<or> n = 3"
    by (elim insertE emptyE) (simp_all add: bit_0)
next
  assume "n = 2 \<or> n = 3"
  then show "bit (0x0C::u8) n" by auto
qed

lemma bit_0xF0: "bit (0xF0::u8) n = (4 \<le> n \<and> n < 8)"
proof
  assume "bit (0xF0::u8) n"
  from u8_bit_cases [OF this] this show "4 \<le> n \<and> n < 8"
    by (elim insertE emptyE) (simp_all add: bit_0)
next
  assume "4 \<le> n \<and> n < 8"
  then have "n \<in> {4, 5, 6, 7}" by auto
  then show "bit (0xF0::u8) n" by auto
qed

lemma active_bit: "(byte AND 0x01 = CHANGED) = bit (byte::u8) 0"
  by (simp add: CHANGED_def and_one_eq bit_0 mod_2_eq_odd)

lemma mode_bit: "(byte AND 0x02 = OUTPUT) = bit (byte::u8) 1"
proof -
  have "byte AND 2 = push_bit 1 (of_bool (bit byte 1))"
    by (rule bit_eqI) (auto simp: bit_simps)
  then show ?thesis by (auto simp: OUTPUT_def)
qed

lemma pull_bits:
  "byte AND 0x0C = push_bit 2 (of_bool (bit (byte::u8) 2)) OR push_bit 3 (of_bool (bit byte 3))"
  apply (rule bit_eqI)
  apply (simp only: bit_and_iff bit_0x0C)
  apply (auto simp: bit_simps)
  done

lemma decode_pull_bits:
  "decode_pull (byte AND 0x0C) =
     (if bit byte 2 \<and> \<not> bit byte 3 then GPIO_PULLDOWN
      else if \<not> bit byte 2 \<and> bit byte 3 then GPIO_PULLUP
      else GPIO_NOPULL)"
  by (auto simp: decode_pull_def pull_bits NOPULL_def PULLDOWN_def PULLUP_def)

lemma pin_bit:
  assumes "pin_idx < 4"
  shows "drop_bit pin_idx (drop_bit 4 (byte AND (0x10 OR 0x20 OR 0x40 OR 0x80))) AND 0x01
           = of_bool (bit (byte::u8) (4 + pin_idx))"
proof -
  have m: "(0x10 OR 0x20 OR 0x40 OR 0x80) = (0xF0::u8)" by simp
  show ?thesis
    unfolding m
    apply (rule bit_eqI)
    apply (simp only: bit_and_iff bit_drop_bit_eq o_def bit_0xF0 bit_1_iff bit_of_bool_iff)
    using assms apply (auto simp: ac_simps)
    done
qed

lemma flags_distinct: "CHANGED \<noteq> UNCHANGED" "UNCHANGED \<noteq> CHANGED"
  by (simp_all add: CHANGED_def UNCHANGED_def)

lemma modes_distinct: "GPIO_MODE_OUTPUT_PP \<noteq> GPIO_MODE_INPUT" "GPIO_MODE_INPUT \<noteq> GPIO_MODE_OUTPUT_PP"
  by (simp_all add: GPIO_MODE_OUTPUT_PP_def GPIO_MODE_INPUT_def)

lemma Set_Changes_port_inactive:
  "\<not> bit byte 0 \<Longrightarrow> Set_Changes_port tbl byte i lp p b = Inr (default_port tbl i p, b)"
  by (simp add: Set_Changes_port_def active_bit)

lemma update_changeIO_fields:
  assumes "update_changeIO i lp p b = Inr (p', b')"
  shows "gpio_settings p' = gpio_settings p"
    and "pin_enabled_size p' = pin_enabled_size p"
    and "pins p' = pins p"
    and "changePIN p' = changePIN p"
    and "changeIO p' = (if Mode (gpio_settings p) \<noteq> Mode (gpio_settings lp) \<or> Pull (gpio_settings p) \<noteq> Pull (gpio_settings lp)
                        then CHANGED else UNCHANGED)"
  using assms by (auto simp: update_changeIO_def split: if_splits sum.splits)

lemma update_changeIO_buffer:
  assumes "update_changeIO i lp p b = Inr (p', b')"
  shows "(if changeIO p' = CHANGED
          then (if Mode (gpio_settings p') = GPIO_MODE_OUTPUT_PP then push_tail i b else push_head i b)
          else Inr b) = Inr b'"
  using assms by (auto simp: update_changeIO_def flags_distinct split: if_splits sum.splits)

lemma set_pins_decoded:
  fixes byte :: u8
  defines "tp \<equiv> drop_bit 4 (byte AND (0x10 OR 0x20 OR 0x40 OR 0x80))"
  shows "pins (fold (set_pin tp lp) [0..<DIGITAL_MAX_PIN_NUM] p) =
           (pins p)(0 := of_bool (bit byte 4), 1 := of_bool (bit byte 5),
                    2 := of_bool (bit byte 6), 3 := of_bool (bit byte 7))"
    and "changePIN (fold (set_pin tp lp) [0..<DIGITAL_MAX_PIN_NUM] p) =
           (if (of_bool (bit byte 7) \<noteq> pins lp 3 \<and> changeIO p = UNCHANGED) \<or> changeIO p = CHANGED
            then CHANGED else UNCHANGED)"
proof -
  have b: "drop_bit 0 tp AND 1 = of_bool (bit byte 4)" "drop_bit 1 tp AND 1 = of_bool (bit byte 5)"
    "drop_bit 2 tp AND 1 = of_bool (bit byte 6)" "drop_bit 3 tp AND 1 = of_bool (bit byte 7)"
    using pin_bit [of 0 byte] pin_bit [of 1 byte] pin_bit [of 2 byte] pin_bit [of 3 byte]
    unfolding tp_def by simp_all
  show "pins (fold (set_pin tp lp) [0..<DIGITAL_MAX_PIN_NUM] p) =
           (pins p)(0 := of_bool (bit byte 4), 1 := of_bool (bit byte 5),
                    2 := of_bool (bit byte 6), 3 := of_bool (bit byte 7))"
    unfolding set_pins_fields b ..
  show "changePIN (fold (set_pin tp lp) [0..<DIGITAL_MAX_PIN_NUM] p) =
           (if (of_bool (bit byte 7) \<noteq> pins lp 3 \<and> changeIO p = UNCHANGED) \<or> changeIO p = CHANGED
            then CHANGED else UNCHANGED)"
    unfolding set_pins_fields b ..
qed

lemma Set_Changes_port_active:
  assumes act: "bit byte 0" and res: "Set_Changes_port tbl byte i lp p b = Inr (p', b')"
  shows "Mode (gpio_settings p') = (if bit byte 1 then GPIO_MODE_OUTPUT_PP else GPIO_MODE_INPUT)"
    and "Pull (gpio_settings p') = decode_pull (byte AND 0x0C)"
    and "Pin (gpio_settings p') = Pin (gpio_settings p)"
    and "pin_enabled_size p' = pin_enabled_size p"
    and "changeIO p' = (if Mode (gpio_settings p') \<noteq> Mode (gpio_settings lp) \<or> Pull (gpio_settings p') \<noteq> Pull (gpio_settings lp)
                        then CHANGED else UNCHANGED)"
    and "changePIN p' = (if bit byte 1 \<and> (changeIO p' = CHANGED \<or> pins p' 3 \<noteq> pins lp 3) then CHANGED else UNCHANGED)"
    and "pins p' = (if bit byte 1
                    then (pins p)(0 := of_bool (bit byte 4), 1 := of_bool (bit byte 5),
                                  2 := of_bool (bit byte 6), 3 := of_bool (bit byte 7))
                    else pins p)"
    and "(if changeIO p' = CHANGED
          then (if bit byte 1 then push_tail i b else push_head i b)
          else Inr b) = Inr b'"
proof -
  define p2 where "p2 = p\<lparr>gpio_settings := (gpio_settings p)
       \<lparr>Mode := (if bit byte 1 then GPIO_MODE_OUTPUT_PP else GPIO_MODE_INPUT),
        Pull := decode_pull (byte AND 0x0C)\<rparr>\<rparr>"
  define tp where "tp = drop_bit 4 (byte AND (0x10 OR 0x20 OR 0x40 OR 0x80))"
  from act res obtain p3 where
    u: "update_changeIO i lp p2 b = Inr (p3, b')" and
    p': "p' = (if bit byte 1 then fold (set_pin tp lp) [0..<DIGITAL_MAX_PIN_NUM] p3
               else p3\<lparr>changePIN := UNCHANGED\<rparr>)"
    by (auto simp: Set_Changes_port_def active_bit mode_bit Let_def p2_def tp_def
             split: sum.splits if_splits)
  note f = update_changeIO_fields [OF u]
  note d = set_pins_decoded [where byte=byte and lp=lp and p=p3, folded tp_def]
  have g: "gpio_settings p' = gpio_settings p2"
    by (simp add: p' f set_pins_fields)
  show "Mode (gpio_settings p') = (if bit byte 1 then GPIO_MODE_OUTPUT_PP else GPIO_MODE_INPUT)"
    and "Pull (gpio_settings p') = decode_pull (byte AND 0x0C)"
    and "Pin (gpio_settings p') = Pin (gpio_settings p)"
    by (simp_all add: g p2_def)
  show "pin_enabled_size p' = pin_enabled_size p"
    by (simp add: p' f set_pins_fields p2_def)
  show c: "changeIO p' = (if Mode (gpio_settings p') \<noteq> Mode (gpio_settings lp) \<or> Pull (gpio_settings p') \<noteq> Pull (gpio_settings lp)
                        then CHANGED else UNCHANGED)"
    by (simp add: g) (simp add: p' f set_pins_fields)
  have c3: "changeIO p' = changeIO p3"
    by (simp add: p' set_pins_fields)
  show ps: "pins p' = (if bit byte 1
                    then (pins p)(0 := of_bool (bit byte 4), 1 := of_bool (bit byte 5),
                                  2 := of_bool (bit byte 6), 3 := of_bool (bit byte 7))
                    else pins p)"
    by (simp add: p' d f) (simp add: p2_def)
  have "changeIO p3 = CHANGED \<or> changeIO p3 = UNCHANGED"
    by (simp add: f)
  then show "changePIN p' = (if bit byte 1 \<and> (changeIO p' = CHANGED \<or> pins p' 3 \<noteq> pins lp 3) then CHANGED else UNCHANGED)"
    unfolding c3 ps by (auto simp: p' d flags_distinct)
  from update_changeIO_buffer [OF u]
  show "(if changeIO p' = CHANGED
          then (if bit byte 1 then push_tail i b else push_head i b)
          else Inr b) = Inr b'"
    unfolding c3 by (auto simp: f p2_def modes_distinct flags_distinct split: if_splits)
qed

lemma Set_Changes_body_Inr:
  assumes "Set_Changes_body tbl buf i s = Inr s'"
  shows "digital_io s' = digital_io s"
    and "hw s' = hw s"
    and "port_enabled_size (digital_io_new_state s') = port_enabled_size (digital_io_new_state s)"
    and "j \<noteq> i \<Longrightarrow> ports (digital_io_new_state s') j = ports (digital_io_new_state s) j"
    and "Set_Changes_port tbl (buf i) i (ports (digital_io s) i) (ports (digital_io_new_state s) i)
           (digital_io_switch_buffer s) = Inr (ports (digital_io_new_state s') i, digital_io_switch_buffer s')"
  using assms by (auto simp: Set_Changes_body_def split: sum.splits prod.splits)

lemma for_each_Set_Changes_frame:
  assumes "for_each (Set_Changes_body tbl buf) is s = Inr s'"
  shows "digital_io s' = digital_io s \<and> hw s' = hw s
         \<and> port_enabled_size (digital_io_new_state s') = port_enabled_size (digital_io_new_state s)
         \<and> (\<forall>j. j \<notin> set is \<longrightarrow> ports (digital_io_new_state s') j = ports (digital_io_new_state s) j)"
  using assms
proof (induction "is" arbitrary: s)
  case Nil
  then show ?case by simp
next
  case (Cons i "is")
  from Cons.prems obtain s1 where
    b: "Set_Changes_body tbl buf i s = Inr s1" and r: "for_each (Set_Changes_body tbl buf) is s1 = Inr s'"
    by (auto split: sum.splits)
  from Cons.IH [OF r] Set_Changes_body_Inr(1-4) [OF b] show ?case
    by auto
qed

lemma for_each_Set_Changes_port:
  assumes "for_each (Set_Changes_body tbl buf) is s = Inr s'" and "distinct is" and "i \<in> set is"
  shows "\<exists>b b'. Set_Changes_port tbl (buf i) i (ports (digital_io s) i) (ports (digital_io_new_state s) i) b
                  = Inr (ports (digital_io_new_state s') i, b')"
  using assms
proof (induction "is" arbitrary: s)
  case Nil
  then show ?case by simp
next
  case (Cons k "is")
  from Cons.prems(1) obtain s1 where
    b: "Set_Changes_body tbl buf k s = Inr s1" and r: "for_each (Set_Changes_body tbl buf) is s1 = Inr s'"
    by (auto split: sum.splits)
  show ?case
  proof (cases "i = k")
    case True
    with Cons.prems(2) have "k \<notin> set is" by simp
    with for_each_Set_Changes_frame [OF r]
    have "ports (digital_io_new_state s') k = ports (digital_io_new_state s1) k" by simp
    with Set_Changes_body_Inr(5) [OF b] True show ?thesis by auto
  next
    case False
    with Cons.prems have "distinct is" "i \<in> set is" by auto
    from Cons.IH [OF r this] Set_Changes_body_Inr(1) [OF b] Set_Changes_body_Inr(4) [OF b, of i] False
    show ?thesis by auto
  qed
qed

lemma unat_port_idx: "i < DIGITAL_MAX_PORT_NUM \<Longrightarrow> unat (of_nat i :: u8) = i"
  by (simp add: DIGITAL_MAX_PORT_NUM_def unat_of_nat)

lemma push_head_ok:
  assumes "unat (head_idx b) < unat (tail_idx b + 1)" and "unat (tail_idx b + 1) \<le> DIGITAL_MAX_PORT_NUM"
    and "i < DIGITAL_MAX_PORT_NUM"
  shows "\<exists>b'. push_head i b = Inr b' \<and> head_ports b' = head_ports b @ [i] \<and> tail_ports b' = tail_ports b
              \<and> unat (head_idx b') = unat (head_idx b) + 1 \<and> tail_idx b' = tail_idx b"
proof -
  have h: "unat (head_idx b) < DIGITAL_MAX_PORT_NUM"
    using assms by simp
  then have s: "unat (head_idx b + 1) = unat (head_idx b) + 1"
    by (simp add: DIGITAL_MAX_PORT_NUM_def unat_word_ariths)
  show ?thesis
    using assms h s
    by (simp add: push_head_def head_ports_def tail_ports_def unat_port_idx)
qed

lemma push_tail_ok:
  assumes "unat (head_idx b) < unat (tail_idx b + 1)" and "unat (tail_idx b + 1) \<le> DIGITAL_MAX_PORT_NUM"
    and "i < DIGITAL_MAX_PORT_NUM"
  shows "\<exists>b'. push_tail i b = Inr b' \<and> head_ports b' = head_ports b \<and> tail_ports b' = i # tail_ports b
              \<and> head_idx b' = head_idx b \<and> unat (tail_idx b' + 1) = unat (tail_idx b + 1) - 1"
proof -
  define k where "k = unat (tail_idx b)"
  define b' where "b' = b\<lparr>array := (array b)(k := of_nat i), tail_idx := tail_idx b - 1\<rparr>"
  have "tail_idx b + 1 \<noteq> 0"
    using assms(1) by auto
  from unat_minus_one [OF this] have T: "unat (tail_idx b + 1) = Suc k"
    using assms(1) by (simp add: k_def)
  with assms have k: "k < DIGITAL_MAX_PORT_NUM" "unat (head_idx b) \<le> k"
    by auto
  then have push: "push_tail i b = Inr b'"
    by (simp add: push_tail_def b'_def k_def)
  have "head_ports b' = head_ports b"
    using k by (simp add: head_ports_def b'_def)
  moreover have "tail_ports b' = map (\<lambda>j. unat (array b' j)) (k # [Suc k..<DIGITAL_MAX_PORT_NUM])"
    using k by (simp add: tail_ports_def b'_def k_def upt_conv_Cons)
  then have "tail_ports b' = i # tail_ports b"
    using assms(3) by (simp add: tail_ports_def T b'_def unat_port_idx)
  moreover have "unat (tail_idx b' + 1) = unat (tail_idx b + 1) - 1"
    by (simp add: b'_def T k_def)
  moreover have "head_idx b' = head_idx b"
    by (simp add: b'_def)
  ultimately show ?thesis
    using push by blast
qed

lemma Set_Changes_port_total:
  assumes "unat (head_idx b) < unat (tail_idx b + 1)" and "unat (tail_idx b + 1) \<le> DIGITAL_MAX_PORT_NUM"
    and "i < DIGITAL_MAX_PORT_NUM"
  shows "\<exists>p' b'. Set_Changes_port tbl byte i lp p b = Inr (p', b')"
proof -
  from push_head_ok [OF assms] obtain bh where "push_head i b = Inr bh" by blast
  moreover from push_tail_ok [OF assms] obtain bt where "push_tail i b = Inr bt" by blast
  ultimately show ?thesis
    by (simp add: Set_Changes_port_def update_changeIO_def Let_def)
qed

lemma Set_Changes_port_buffer:
  assumes "unat (head_idx b) < unat (tail_idx b + 1)" and "unat (tail_idx b + 1) \<le> DIGITAL_MAX_PORT_NUM"
    and "i < DIGITAL_MAX_PORT_NUM"
  shows "\<exists>p' b'. Set_Changes_port tbl byte i lp p b = Inr (p', b') \<and>
           (if changeIO p' = CHANGED
            then (if Mode (gpio_settings p') = GPIO_MODE_OUTPUT_PP
                  then head_ports b' = head_ports b \<and> tail_ports b' = i # tail_ports b
                       \<and> head_idx b' = head_idx b \<and> unat (tail_idx b' + 1) = unat (tail_idx b + 1) - 1
                  else Mode (gpio_settings p') = GPIO_MODE_INPUT
                       \<and> head_ports b' = head_ports b @ [i] \<and> tail_ports b' = tail_ports b
                       \<and> unat (head_idx b') = unat (head_idx b) + 1 \<and> tail_idx b' = tail_idx b)
            else b' = b)"
proof -
  from Set_Changes_port_total [OF assms] obtain p' b' where
    r: "Set_Changes_port tbl byte i lp p b = Inr (p', b')" by blast
  show ?thesis
  proof (cases "bit byte 0")
    case False
    with r show ?thesis
      by (auto simp: Set_Changes_port_inactive default_port_fields flags_distinct)
  next
    case True
    note a = Set_Changes_port_active [OF True r]
    have m: "(Mode (gpio_settings p') = GPIO_MODE_OUTPUT_PP) = bit byte 1"
      by (simp add: a(1) modes_distinct)
    from push_head_ok [OF assms] push_tail_ok [OF assms] a(8) r show ?thesis
      by (auto simp: m a(1) modes_distinct split: if_splits)
  qed
qed

lemma for_each_Set_Changes_buffer:
  assumes "unat (head_idx (digital_io_switch_buffer s)) + length is \<le> unat (tail_idx (digital_io_switch_buffer s) + 1)"
    and "unat (tail_idx (digital_io_switch_buffer s) + 1) \<le> DIGITAL_MAX_PORT_NUM"
    and "\<forall>i\<in>set is. i < DIGITAL_MAX_PORT_NUM"
    and "distinct is"
  shows "\<exists>s'. for_each (Set_Changes_body tbl buf) is s = Inr s' \<and>
           head_ports (digital_io_switch_buffer s') =
             head_ports (digital_io_switch_buffer s) @
             filter (\<lambda>i. changeIO (ports (digital_io_new_state s') i) = CHANGED \<and>
                          Mode (gpio_settings (ports (digital_io_new_state s') i)) = GPIO_MODE_INPUT) is \<and>
           tail_ports (digital_io_switch_buffer s') =
             rev (filter (\<lambda>i. changeIO (ports (digital_io_new_state s') i) = CHANGED \<and>
                               Mode (gpio_settings (ports (digital_io_new_state s') i)) = GPIO_MODE_OUTPUT_PP) is) @
             tail_ports (digital_io_switch_buffer s) \<and>
           unat (head_idx (digital_io_switch_buffer s')) \<le> unat (tail_idx (digital_io_switch_buffer s') + 1) \<and>
           unat (tail_idx (digital_io_switch_buffer s') + 1) \<le> DIGITAL_MAX_PORT_NUM"
  using assms
proof (induction "is" arbitrary: s)
  case Nil
  then show ?case by simp
next
  case (Cons i "is")
  let ?b = "digital_io_switch_buffer s"
  have pre: "unat (head_idx ?b) < unat (tail_idx ?b + 1)" "unat (tail_idx ?b + 1) \<le> DIGITAL_MAX_PORT_NUM"
    "i < DIGITAL_MAX_PORT_NUM"
    using Cons.prems by auto
  from Set_Changes_port_buffer [OF pre, of tbl "buf i" "ports (digital_io s) i" "ports (digital_io_new_state s) i"]
  obtain p' b' where
    r: "Set_Changes_port tbl (buf i) i (ports (digital_io s) i) (ports (digital_io_new_state s) i) ?b = Inr (p', b')"
    and e: "if changeIO p' = CHANGED
            then (if Mode (gpio_settings p') = GPIO_MODE_OUTPUT_PP
                  then head_ports b' = head_ports ?b \<and> tail_ports b' = i # tail_ports ?b
                       \<and> head_idx b' = head_idx ?b \<and> unat (tail_idx b' + 1) = unat (tail_idx ?b + 1) - 1
                  else Mode (gpio_settings p') = GPIO_MODE_INPUT
                       \<and> head_ports b' = head_ports ?b @ [i] \<and> tail_ports b' = tail_ports ?b
                       \<and> unat (head_idx b') = unat (head_idx ?b) + 1 \<and> tail_idx b' = tail_idx ?b)
            else b' = ?b"
    by blast
  define s1 where "s1 = s\<lparr>digital_io_new_state :=
       (digital_io_new_state s)\<lparr>ports := (ports (digital_io_new_state s))(i := p')\<rparr>,
     digital_io_switch_buffer := b'\<rparr>"
  have b: "Set_Changes_body tbl buf i s = Inr s1"
    by (simp add: Set_Changes_body_def r s1_def)
  have s1: "digital_io_switch_buffer s1 = b'" "ports (digital_io_new_state s1) i = p'"
    by (simp_all add: s1_def)
  have pre1: "unat (head_idx (digital_io_switch_buffer s1)) + length is \<le> unat (tail_idx (digital_io_switch_buffer s1) + 1)"
    "unat (tail_idx (digital_io_switch_buffer s1) + 1) \<le> DIGITAL_MAX_PORT_NUM"
    using e Cons.prems(1,2) unfolding s1 by (auto split: if_splits)
  have rest: "\<forall>i\<in>set is. i < DIGITAL_MAX_PORT_NUM" "distinct is" "i \<notin> set is"
    using Cons.prems by auto
  from Cons.IH [OF pre1 rest(1,2)] obtain s' where
    f: "for_each (Set_Changes_body tbl buf) is s1 = Inr s'"
    and hp: "head_ports (digital_io_switch_buffer s') =
             head_ports b' @
             filter (\<lambda>i. changeIO (ports (digital_io_new_state s') i) = CHANGED \<and>
                          Mode (gpio_settings (ports (digital_io_new_state s') i)) = GPIO_MODE_INPUT) is"
    and tp: "tail_ports (digital_io_switch_buffer s') =
             rev (filter (\<lambda>i. changeIO (ports (digital_io_new_state s') i) = CHANGED \<and>
                               Mode (gpio_settings (ports (digital_io_new_state s') i)) = GPIO_MODE_OUTPUT_PP) is) @
             tail_ports b'"
    and bd: "unat (head_idx (digital_io_switch_buffer s')) \<le> unat (tail_idx (digital_io_switch_buffer s') + 1)"
            "unat (tail_idx (digital_io_switch_buffer s') + 1) \<le> DIGITAL_MAX_PORT_NUM"
    unfolding s1 by blast
  from for_each_Set_Changes_frame [OF f] rest(3) s1(2)
  have pi: "ports (digital_io_new_state s') i = p'" by simp
  have "for_each (Set_Changes_body tbl buf) (i # is) s = Inr s'"
    by (simp add: b f)
  moreover have "head_ports (digital_io_switch_buffer s') =
             head_ports ?b @
             filter (\<lambda>i. changeIO (ports (digital_io_new_state s') i) = CHANGED \<and>
                          Mode (gpio_settings (ports (digital_io_new_state s') i)) = GPIO_MODE_INPUT) (i # is)"
    using e by (simp add: hp pi modes_distinct split: if_splits)
  moreover have "tail_ports (digital_io_switch_buffer s') =
             rev (filter (\<lambda>i. changeIO (ports (digital_io_new_state s') i) = CHANGED \<and>
                               Mode (gpio_settings (ports (digital_io_new_state s') i)) = GPIO_MODE_OUTPUT_PP) (i # is)) @
             tail_ports ?b"
    using e by (simp add: tp pi modes_distinct split: if_splits)
  ultimately show ?case
    using bd by blast
qed

lemma empty_buffer_ranges:
  assumes "switch_buffer_empty b"
  shows "head_ports b = []" and "tail_ports b = []"
    and "unat (head_idx b) = 0" and "unat (tail_idx b + 1) = DIGITAL_MAX_PORT_NUM"
  using assms
  by (simp_all add: switch_buffer_empty_def head_ports_def tail_ports_def DIGITAL_MAX_PORT_NUM_def)

lemma Set_Changes_from_empty:
  assumes "switch_buffer_empty (digital_io_switch_buffer s)"
  shows "\<exists>s'. USBD_HID_Digital_IO_Set_Changes tbl buf s = Inr s' \<and>
           head_ports (digital_io_switch_buffer s') =
             filter (\<lambda>i. changeIO (ports (digital_io_new_state s') i) = CHANGED \<and>
                          Mode (gpio_settings (ports (digital_io_new_state s') i)) = GPIO_MODE_INPUT)
               [0..<DIGITAL_MAX_PORT_NUM] \<and>
           tail_ports (digital_io_switch_buffer s') =
             rev (filter (\<lambda>i. changeIO (ports (digital_io_new_state s') i) = CHANGED \<and>
                               Mode (gpio_settings (ports (digital_io_new_state s') i)) = GPIO_MODE_OUTPUT_PP)
               [0..<DIGITAL_MAX_PORT_NUM]) \<and>
           unat (head_idx (digital_io_switch_buffer s')) \<le> unat (tail_idx (digital_io_switch_buffer s') + 1) \<and>
           unat (tail_idx (digital_io_switch_buffer s') + 1) \<le> DIGITAL_MAX_PORT_NUM"
proof -
  note e = empty_buffer_ranges [OF assms]
  have "unat (head_idx (digital_io_switch_buffer s)) + length [0..<DIGITAL_MAX_PORT_NUM]
          \<le> unat (tail_idx (digital_io_switch_buffer s) + 1)"
    and "unat (tail_idx (digital_io_switch_buffer s) + 1) \<le> DIGITAL_MAX_PORT_NUM"
    and "\<forall>i\<in>set [0..<DIGITAL_MAX_PORT_NUM]. i < DIGITAL_MAX_PORT_NUM"
    and "distinct [0..<DIGITAL_MAX_PORT_NUM]"
    by (simp_all add: e)
  from for_each_Set_Changes_buffer [OF this, of tbl buf] show ?thesis
    by (simp add: USBD_HID_Digital_IO_Set_Changes_def e)
qed

lemma drain_head_result:
  assumes "unat (head_idx (digital_io_switch_buffer s)) = n"
    and "n \<le> DIGITAL_MAX_PORT_NUM"
    and "\<forall>p\<in>set (head_ports (digital_io_switch_buffer s)). p < DIGITAL_MAX_PORT_NUM"
  shows "drain_head s =
           Inr (s\<lparr>digital_io_switch_buffer := (digital_io_switch_buffer s)\<lparr>head_idx := 0\<rparr>,
                  hw := hw s @ map (setup_call (digital_io s)) (rev (head_ports (digital_io_switch_buffer s)))\<rparr>)"
  using assms
proof (induction n arbitrary: s)
  case 0
  then have "head_idx (digital_io_switch_buffer s) = 0"
    by (simp add: unat_eq_0)
  then show ?case
    by (subst drain_head.simps) (simp add: head_ports_def)
next
  case (Suc n)
  let ?b = "digital_io_switch_buffer s"
  define s1 where "s1 = s\<lparr>digital_io_switch_buffer := ?b\<lparr>head_idx := head_idx ?b - 1\<rparr>\<rparr>"
  have nz: "head_idx ?b \<noteq> 0"
    using Suc.prems(1) by auto
  then have n: "unat (head_idx ?b - 1) = n"
    using Suc.prems(1) by (simp add: unat_minus_one)
  have hp: "head_ports ?b = map (\<lambda>i. unat (array ?b i)) [0..<n] @ [unat (array ?b n)]"
    by (simp add: head_ports_def Suc.prems(1))
  with Suc.prems have port: "unat (array ?b n) < DIGITAL_MAX_PORT_NUM" and lt: "n < DIGITAL_MAX_PORT_NUM"
    by auto
  define s2 where "s2 = s1\<lparr>hw := hw s1 @ [setup_call (digital_io s1) (unat (array ?b n))]\<rparr>"
  have g: "USBD_HID_Digital_IO_GPIO_Setup (head_idx (digital_io_switch_buffer s1)) s1 = Inr s2"
    using port lt by (simp add: USBD_HID_Digital_IO_GPIO_Setup_def s1_def s2_def n setup_call_def Let_def)
  have step: "drain_head s = drain_head s2"
    using nz g by (subst drain_head.simps) (simp add: s1_def [symmetric])
  have b2: "digital_io_switch_buffer s2 = ?b\<lparr>head_idx := head_idx ?b - 1\<rparr>"
    by (simp add: s2_def s1_def)
  have hp2: "head_ports (digital_io_switch_buffer s2) = map (\<lambda>i. unat (array ?b i)) [0..<n]"
    by (simp add: b2 head_ports_def n)
  have "drain_head s2 =
           Inr (s2\<lparr>digital_io_switch_buffer := (digital_io_switch_buffer s2)\<lparr>head_idx := 0\<rparr>,
                  hw := hw s2 @ map (setup_call (digital_io s2)) (rev (head_ports (digital_io_switch_buffer s2)))\<rparr>)"
  proof (rule Suc.IH)
    show "unat (head_idx (digital_io_switch_buffer s2)) = n" by (simp add: b2 n)
    show "n \<le> DIGITAL_MAX_PORT_NUM" using lt by simp
    show "\<forall>p\<in>set (head_ports (digital_io_switch_buffer s2)). p < DIGITAL_MAX_PORT_NUM"
      using Suc.prems(3) by (simp add: hp2 hp)
  qed
  then show ?case
    unfolding step hp2 by (simp add: s2_def s1_def hp)
qed

lemma unat_succ_small: "unat (w::u8) < DIGITAL_MAX_PORT_NUM \<Longrightarrow> unat (w + 1) = Suc (unat w)"
  by (simp add: DIGITAL_MAX_PORT_NUM_def unat_word_ariths)

lemma drain_tail_result:
  assumes "DIGITAL_MAX_PORT_NUM - unat (tail_idx (digital_io_switch_buffer s) + 1) = n"
    and "unat (tail_idx (digital_io_switch_buffer s) + 1) \<le> DIGITAL_MAX_PORT_NUM"
    and "\<forall>p\<in>set (tail_ports (digital_io_switch_buffer s)). p < DIGITAL_MAX_PORT_NUM"
  shows "drain_tail s =
           Inr (s\<lparr>digital_io_switch_buffer :=
                    (digital_io_switch_buffer s)\<lparr>tail_idx := of_nat (DIGITAL_MAX_PORT_NUM - 1)\<rparr>,
                  hw := hw s @ map (setup_call (digital_io s)) (tail_ports (digital_io_switch_buffer s))\<rparr>)"
  using assms
proof (induction n arbitrary: s)
  case 0
  let ?b = "digital_io_switch_buffer s"
  from 0 have "unat (tail_idx ?b + 1) = DIGITAL_MAX_PORT_NUM" by simp
  then have "unat (tail_idx ?b + 1) = unat (6::u8)"
    by (simp add: DIGITAL_MAX_PORT_NUM_def)
  then have "tail_idx ?b + 1 = 6"
    by (simp only: word_unat_eq_iff)
  then have t: "tail_idx ?b = of_nat (DIGITAL_MAX_PORT_NUM - 1)"
    by (simp add: DIGITAL_MAX_PORT_NUM_def add_eq_0_iff eq_diff_eq [symmetric])
  then show ?case
    by (subst drain_tail.simps) (simp add: tail_ports_def DIGITAL_MAX_PORT_NUM_def)
next
  case (Suc n)
  let ?b = "digital_io_switch_buffer s"
  define T where "T = unat (tail_idx ?b + 1)"
  define s1 where "s1 = s\<lparr>digital_io_switch_buffer := ?b\<lparr>tail_idx := tail_idx ?b + 1\<rparr>\<rparr>"
  have lt: "T < DIGITAL_MAX_PORT_NUM"
    using Suc.prems(1) by (simp add: T_def)
  have nz: "tail_idx ?b \<noteq> of_nat (DIGITAL_MAX_PORT_NUM - 1)"
    using lt by (auto simp: T_def DIGITAL_MAX_PORT_NUM_def)
  have T2: "unat (tail_idx ?b + 1 + 1) = Suc T"
    using lt unat_succ_small [of "tail_idx ?b + 1"] by (simp add: T_def)
  then have T2': "unat (2 + tail_idx ?b) = Suc T"
    by (simp add: ac_simps)
  have tp: "tail_ports ?b = unat (array ?b T) # map (\<lambda>i. unat (array ?b i)) [Suc T..<DIGITAL_MAX_PORT_NUM]"
    using lt by (simp add: tail_ports_def T_def [symmetric] upt_conv_Cons)
  with Suc.prems(3) have port: "unat (array ?b T) < DIGITAL_MAX_PORT_NUM"
    by simp
  define s2 where "s2 = s1\<lparr>hw := hw s1 @ [setup_call (digital_io s1) (unat (array ?b T))]\<rparr>"
  have g: "USBD_HID_Digital_IO_GPIO_Setup (tail_idx (digital_io_switch_buffer s1)) s1 = Inr s2"
    using port lt by (simp add: USBD_HID_Digital_IO_GPIO_Setup_def s1_def s2_def T_def [symmetric] setup_call_def Let_def)
  have step: "drain_tail s = drain_tail s2"
    using nz g by (subst drain_tail.simps) (simp add: s1_def [symmetric])
  have b2: "digital_io_switch_buffer s2 = ?b\<lparr>tail_idx := tail_idx ?b + 1\<rparr>"
    by (simp add: s2_def s1_def)
  have tp2: "tail_ports (digital_io_switch_buffer s2) = map (\<lambda>i. unat (array ?b i)) [Suc T..<DIGITAL_MAX_PORT_NUM]"
    by (simp add: b2 tail_ports_def T2')
  have "drain_tail s2 =
           Inr (s2\<lparr>digital_io_switch_buffer :=
                    (digital_io_switch_buffer s2)\<lparr>tail_idx := of_nat (DIGITAL_MAX_PORT_NUM - 1)\<rparr>,
                  hw := hw s2 @ map (setup_call (digital_io s2)) (tail_ports (digital_io_switch_buffer s2))\<rparr>)"
  proof (rule Suc.IH)
    show "DIGITAL_MAX_PORT_NUM - unat (tail_idx (digital_io_switch_buffer s2) + 1) = n"
      using Suc.prems(1) by (simp add: b2 T2' T_def)
    show "unat (tail_idx (digital_io_switch_buffer s2) + 1) \<le> DIGITAL_MAX_PORT_NUM"
      using lt by (simp add: b2 T2')
    show "\<forall>p\<in>set (tail_ports (digital_io_switch_buffer s2)). p < DIGITAL_MAX_PORT_NUM"
      using Suc.prems(3) by (simp add: tp2 tp)
  qed
  then show ?case
    unfolding step tp2 by (simp add: s2_def s1_def tp)
qed

lemma fold_write_port:
  shows "digital_io_switch_buffer (fold write_port is s) = digital_io_switch_buffer s"
    and "digital_io_new_state (fold write_port is s) = digital_io_new_state s"
    and "port_enabled_size (digital_io (fold write_port is s)) = port_enabled_size (digital_io s)"
    and "ports (digital_io (fold write_port is s)) i =
           (if i \<in> set is then (ports (digital_io s) i)\<lparr>changePIN := UNCHANGED, changeIO := UNCHANGED\<rparr>
            else ports (digital_io s) i)"
    and "distinct is \<Longrightarrow> hw (fold write_port is s) =
           hw s @ concat (map (\<lambda>i. if changePIN (ports (digital_io s) i) = CHANGED
                                     then map (\<lambda>pin_idx. GPIO_Write_DIGITAL_IO i pin_idx (pins (ports (digital_io s) i) pin_idx))
                                            [0..<DIGITAL_MAX_PIN_NUM]
                                     else []) is)"
proof (induction "is" arbitrary: s)
  case Nil
  {
    case 1 show ?case by simp
  next
    case 2 show ?case by simp
  next
    case 3 show ?case by simp
  next
    case 4 show ?case by simp
  next
    case 5 show ?case by simp
  }
next
  case (Cons k "is")
  {
    case 1 show ?case by (simp add: Cons.IH(1)) (simp add: write_port_def Let_def)
  next
    case 2 show ?case by (simp add: Cons.IH(2)) (simp add: write_port_def Let_def)
  next
    case 3 show ?case by (simp add: Cons.IH(3)) (simp add: write_port_def Let_def)
  next
    case 4 show ?case by (simp add: Cons.IH(4)) (simp add: write_port_def Let_def)
  next
    case 5
    then have d: "distinct is" "k \<notin> set is" by auto
    have eq: "\<And>i. i \<in> set is \<Longrightarrow> ports (digital_io (write_port k s)) i = ports (digital_io s) i"
      using d(2) by (auto simp: write_port_def Let_def)
    have m: "map (\<lambda>i. if changePIN (ports (digital_io (write_port k s)) i) = CHANGED
                                     then map (\<lambda>pin_idx. GPIO_Write_DIGITAL_IO i pin_idx (pins (ports (digital_io (write_port k s)) i) pin_idx))
                                            [0..<DIGITAL_MAX_PIN_NUM]
                                     else []) is
           = map (\<lambda>i. if changePIN (ports (digital_io s) i) = CHANGED
                                     then map (\<lambda>pin_idx. GPIO_Write_DIGITAL_IO i pin_idx (pins (ports (digital_io s) i) pin_idx))
                                            [0..<DIGITAL_MAX_PIN_NUM]
                                     else []) is"
      by (rule map_cong [OF refl]) (simp only: eq)
    have h: "hw (write_port k s) = hw s @ (if changePIN (ports (digital_io s) k) = CHANGED
                                     then map (\<lambda>pin_idx. GPIO_Write_DIGITAL_IO k pin_idx (pins (ports (digital_io s) k) pin_idx))
                                            [0..<DIGITAL_MAX_PIN_NUM]
                                     else [])"
      by (simp add: write_port_def Let_def)
    have "hw (fold write_port (k # is) s) = hw (fold write_port is (write_port k s))"
      by simp
    also note Cons.IH(5) [OF d(1)]
    finally show ?case
      unfolding m h by simp
  }
qed

lemma SwitchPorts_result:
  assumes "unat (head_idx (digital_io_switch_buffer s)) \<le> DIGITAL_MAX_PORT_NUM"
    and "unat (tail_idx (digital_io_switch_buffer s) + 1) \<le> DIGITAL_MAX_PORT_NUM"
    and "\<forall>p\<in>set (head_ports (digital_io_switch_buffer s)). p < DIGITAL_MAX_PORT_NUM"
    and "\<forall>p\<in>set (tail_ports (digital_io_switch_buffer s)). p < DIGITAL_MAX_PORT_NUM"
  shows "USBD_HID_Digital_IO_SwitchPorts s =
           Inr (fold write_port [0..<DIGITAL_MAX_PORT_NUM]
                  (s\<lparr>digital_io := digital_io_new_state s,
                     digital_io_switch_buffer :=
                       (digital_io_switch_buffer s)\<lparr>head_idx := 0, tail_idx := of_nat (DIGITAL_MAX_PORT_NUM - 1)\<rparr>,
                     hw := hw s @ map (setup_call (digital_io_new_state s)) (rev (head_ports (digital_io_switch_buffer s)))
                                @ map (setup_call (digital_io_new_state s)) (tail_ports (digital_io_switch_buffer s))\<rparr>))"
proof -
  let ?b = "digital_io_switch_buffer s"
  define s0 where "s0 = s\<lparr>digital_io := digital_io_new_state s\<rparr>"
  define s1 where "s1 = s0\<lparr>digital_io_switch_buffer := ?b\<lparr>head_idx := 0\<rparr>,
                  hw := hw s @ map (setup_call (digital_io_new_state s)) (rev (head_ports ?b))\<rparr>"
  have "drain_head s0 = Inr (s0\<lparr>digital_io_switch_buffer := (digital_io_switch_buffer s0)\<lparr>head_idx := 0\<rparr>,
                  hw := hw s0 @ map (setup_call (digital_io s0)) (rev (head_ports (digital_io_switch_buffer s0)))\<rparr>)"
    by (rule drain_head_result [OF refl]) (use assms in \<open>simp_all add: s0_def\<close>)
  then have h: "drain_head s0 = Inr s1"
    by (simp add: s0_def s1_def)
  have t1: "tail_ports (digital_io_switch_buffer s1) = tail_ports ?b"
    "tail_idx (digital_io_switch_buffer s1) = tail_idx ?b"
    by (simp_all add: s1_def tail_ports_def)
  have "drain_tail s1 = Inr (s1\<lparr>digital_io_switch_buffer :=
                    (digital_io_switch_buffer s1)\<lparr>tail_idx := of_nat (DIGITAL_MAX_PORT_NUM - 1)\<rparr>,
                  hw := hw s1 @ map (setup_call (digital_io s1)) (tail_ports (digital_io_switch_buffer s1))\<rparr>)"
    by (rule drain_tail_result [OF refl]) (use assms in \<open>simp_all add: t1\<close>)
  then have t: "drain_tail s1 = Inr (s\<lparr>digital_io := digital_io_new_state s,
                     digital_io_switch_buffer := ?b\<lparr>head_idx := 0, tail_idx := of_nat (DIGITAL_MAX_PORT_NUM - 1)\<rparr>,
                     hw := hw s @ map (setup_call (digital_io_new_state s)) (rev (head_ports ?b))
                                @ map (setup_call (digital_io_new_state s)) (tail_ports ?b)\<rparr>)"
    unfolding t1 by (simp add: s1_def s0_def)
  show ?thesis
    unfolding USBD_HID_Digital_IO_SwitchPorts_def s0_def [symmetric] h by (simp add: t) (simp add: s0_def)
qed

lemma Set_Changes_frame:
  assumes "USBD_HID_Digital_IO_Set_Changes tbl buf s = Inr s'"
  shows "digital_io s' = digital_io s" and "hw s' = hw s"
    and "port_enabled_size (digital_io_new_state s') = port_enabled_size (digital_io_new_state s)"
    and "DIGITAL_MAX_PORT_NUM \<le> j \<Longrightarrow> ports (digital_io_new_state s') j = ports (digital_io_new_state s) j"
  using for_each_Set_Changes_frame [OF assms [unfolded USBD_HID_Digital_IO_Set_Changes_def]]
  by simp_all

lemma Set_Changes_port_of:
  assumes "USBD_HID_Digital_IO_Set_Changes tbl buf s = Inr s'" and "i < DIGITAL_MAX_PORT_NUM"
  shows "\<exists>b b'. Set_Changes_port tbl (buf i) i (ports (digital_io s) i) (ports (digital_io_new_state s) i) b
                  = Inr (ports (digital_io_new_state s') i, b')"
  using for_each_Set_Changes_port [OF assms(1) [unfolded USBD_HID_Digital_IO_Set_Changes_def], of i] assms(2)
  by simp

lemma SwitchPorts_after_Set_Changes:
  assumes "head_ports (digital_io_switch_buffer s) = filter P [0..<DIGITAL_MAX_PORT_NUM]"
    and "tail_ports (digital_io_switch_buffer s) = rev (filter Q [0..<DIGITAL_MAX_PORT_NUM])"
    and "unat (head_idx (digital_io_switch_buffer s)) \<le> unat (tail_idx (digital_io_switch_buffer s) + 1)"
    and "unat (tail_idx (digital_io_switch_buffer s) + 1) \<le> DIGITAL_MAX_PORT_NUM"
  shows "\<exists>s'. USBD_HID_Digital_IO_SwitchPorts s = Inr s' \<and>
           hw s' = hw s @ map (setup_call (digital_io_new_state s)) (rev (head_ports (digital_io_switch_buffer s)))
                        @ map (setup_call (digital_io_new_state s)) (tail_ports (digital_io_switch_buffer s))
                        @ concat (map (\<lambda>i. if changePIN (ports (digital_io_new_state s) i) = CHANGED
                                     then map (\<lambda>pin_idx. GPIO_Write_DIGITAL_IO i pin_idx (pins (ports (digital_io_new_state s) i) pin_idx))
                                            [0..<DIGITAL_MAX_PIN_NUM]
                                     else []) [0..<DIGITAL_MAX_PORT_NUM]) \<and>
           digital_io_new_state s' = digital_io_new_state s \<and>
           switch_buffer_empty (digital_io_switch_buffer s') \<and>
           array (digital_io_switch_buffer s') = array (digital_io_switch_buffer s) \<and>
           port_enabled_size (digital_io s') = port_enabled_size (digital_io_new_state s) \<and>
           (\<forall>i. ports (digital_io s') i =
                 (if i < DIGITAL_MAX_PORT_NUM
                  then (ports (digital_io_new_state s) i)\<lparr>changePIN := UNCHANGED, changeIO := UNCHANGED\<rparr>
                  else ports (digital_io_new_state s) i))"
proof -
  have "unat (head_idx (digital_io_switch_buffer s)) \<le> DIGITAL_MAX_PORT_NUM"
    and "unat (tail_idx (digital_io_switch_buffer s) + 1) \<le> DIGITAL_MAX_PORT_NUM"
    and "\<forall>p\<in>set (head_ports (digital_io_switch_buffer s)). p < DIGITAL_MAX_PORT_NUM"
    and "\<forall>p\<in>set (tail_ports (digital_io_switch_buffer s)). p < DIGITAL_MAX_PORT_NUM"
    using assms by auto
  note r = SwitchPorts_result [OF this]
  show ?thesis
    unfolding r by (simp add: fold_write_port switch_buffer_empty_def cong: if_cong)
qed

lemma Reset_SwitchTrig_fields:
  "switch_buffer_empty (digital_io_switch_buffer (USBD_HID_Digital_IO_Reset_SwitchTrig u s))"
  "digital_io (USBD_HID_Digital_IO_Reset_SwitchTrig u s) = digital_io s"
  "digital_io_new_state (USBD_HID_Digital_IO_Reset_SwitchTrig u s) = digital_io_new_state s"
  "hw (USBD_HID_Digital_IO_Reset_SwitchTrig u s) = hw s"
  by (simp_all add: USBD_HID_Digital_IO_Reset_SwitchTrig_def switch_buffer_empty_def upt_ports)

lemma Init_ports:
  "ports (USBD_HID_Digital_IO_Init tbl inst) i =
     (if i < DIGITAL_MAX_PORT_NUM then default_port tbl i (ports inst i) else ports inst i)"
proof -
  have "distinct is \<Longrightarrow> ports (fold (Init_port tbl) is x) i =
          (if i \<in> set is then default_port tbl i (ports x i) else ports x i)" for "is" x
    by (induction "is" arbitrary: x) (auto simp: Init_port_def)
  from this [of "[0..<DIGITAL_MAX_PORT_NUM]"] show ?thesis
    by (simp add: USBD_HID_Digital_IO_Init_def)
qed

lemma power_on_fields:
  "switch_buffer_empty (digital_io_switch_buffer power_on)"
  "hw power_on = []"
  "digital_io_new_state power_on = digital_io power_on"
  "i < DIGITAL_MAX_PORT_NUM \<Longrightarrow> ports (digital_io power_on) i = default_port example_pin_table i (ports zeroed i)"
  by (simp_all add: power_on_def Reset_SwitchTrig_fields Init_ports)

section \<open>Properties of the specification\<close>

text \<open>
  C8. The decoding of the pull bits never fails and covers every byte value: started on an
  empty switch buffer, the transition computation returns for every command buffer, and for
  every active port (bit 0 set) the candidate pull is NoPull for bits 3-2 = 00, PullDown for
  01, PullUp for 10, and NoPull again for the reserved pattern 11.
\<close>

theorem pull_bits_decoding_total:
  assumes "switch_buffer_empty (digital_io_switch_buffer s)"
  shows "\<exists>s'. USBD_HID_Digital_IO_Set_Changes tbl output_buff s = Inr s' \<and>
           (\<forall>port_idx<DIGITAL_MAX_PORT_NUM. bit (output_buff port_idx) 0 \<longrightarrow>
              (\<not> bit (output_buff port_idx) 3 \<and> \<not> bit (output_buff port_idx) 2 \<longrightarrow>
                 Pull (gpio_settings (ports (digital_io_new_state s') port_idx)) = GPIO_NOPULL) \<and>
              (\<not> bit (output_buff port_idx) 3 \<and> bit (output_buff port_idx) 2 \<longrightarrow>
                 Pull (gpio_settings (ports (digital_io_new_state s') port_idx)) = GPIO_PULLDOWN) \<and>
              (bit (output_buff port_idx) 3 \<and> \<not> bit (output_buff port_idx) 2 \<longrightarrow>
                 Pull (gpio_settings (ports (digital_io_new_state s') port_idx)) = GPIO_PULLUP) \<and>
              (bit (output_buff port_idx) 3 \<and> bit (output_buff port_idx) 2 \<longrightarrow>
                 Pull (gpio_settings (ports (digital_io_new_state s') port_idx)) = GPIO_NOPULL))"
proof -
  from Set_Changes_from_empty [OF assms, of tbl output_buff] obtain s' where
    r: "USBD_HID_Digital_IO_Set_Changes tbl output_buff s = Inr s'" by blast
  have "Pull (gpio_settings (ports (digital_io_new_state s') i)) = decode_pull (output_buff i AND 0x0C)"
    if "i < DIGITAL_MAX_PORT_NUM" and "bit (output_buff i) 0" for i
  proof -
    from Set_Changes_port_of [OF r that(1)] obtain b b' where
      "Set_Changes_port tbl (output_buff i) i (ports (digital_io s) i) (ports (digital_io_new_state s) i) b
         = Inr (ports (digital_io_new_state s') i, b')" by blast
    from Set_Changes_port_active(2) [OF that(2) this] show ?thesis .
  qed
  then show ?thesis
    using r by (simp add: decode_pull_bits)
qed

theorem pull_bits_decoding_total_witness:
  "\<exists>s'. USBD_HID_Digital_IO_Set_Changes example_pin_table
           (received [0x03, 0x07, 0x0B, 0x0F, 0x00, 0x00] (\<lambda>_. 0)) power_on = Inr s' \<and>
         Pull (gpio_settings (ports (digital_io_new_state s') 0)) = GPIO_NOPULL \<and>
         Pull (gpio_settings (ports (digital_io_new_state s') 1)) = GPIO_PULLDOWN \<and>
         Pull (gpio_settings (ports (digital_io_new_state s') 2)) = GPIO_PULLUP \<and>
         Pull (gpio_settings (ports (digital_io_new_state s') 3)) = GPIO_NOPULL"
proof -
  from pull_bits_decoding_total [OF power_on_fields(1), of example_pin_table "received [0x03, 0x07, 0x0B, 0x0F, 0x00, 0x00] (\<lambda>_. 0)"]
  obtain s' where r: "USBD_HID_Digital_IO_Set_Changes example_pin_table
           (received [0x03, 0x07, 0x0B, 0x0F, 0x00, 0x00] (\<lambda>_. 0)) power_on = Inr s'"
    and a: "\<And>port_idx. port_idx < DIGITAL_MAX_PORT_NUM \<Longrightarrow>
              bit (received [0x03, 0x07, 0x0B, 0x0F, 0x00, 0x00] (\<lambda>_. 0) port_idx :: u8) 0 \<Longrightarrow>
              (\<not> bit (received [0x03, 0x07, 0x0B, 0x0F, 0x00, 0x00] (\<lambda>_. 0) port_idx :: u8) 3 \<and> \<not> bit (received [0x03, 0x07, 0x0B, 0x0F, 0x00, 0x00] (\<lambda>_. 0) port_idx :: u8) 2 \<longrightarrow>
                 Pull (gpio_settings (ports (digital_io_new_state s') port_idx)) = GPIO_NOPULL) \<and>
              (\<not> bit (received [0x03, 0x07, 0x0B, 0x0F, 0x00, 0x00] (\<lambda>_. 0) port_idx :: u8) 3 \<and> bit (received [0x03, 0x07, 0x0B, 0x0F, 0x00, 0x00] (\<lambda>_. 0) port_idx :: u8) 2 \<longrightarrow>
                 Pull (gpio_settings (ports (digital_io_new_state s') port_idx)) = GPIO_PULLDOWN) \<and>
              (bit (received [0x03, 0x07, 0x0B, 0x0F, 0x00, 0x00] (\<lambda>_. 0) port_idx :: u8) 3 \<and> \<not> bit (received [0x03, 0x07, 0x0B, 0x0F, 0x00, 0x00] (\<lambda>_. 0) port_idx :: u8) 2 \<longrightarrow>
                 Pull (gpio_settings (ports (digital_io_new_state s') port_idx)) = GPIO_PULLUP) \<and>
              (bit (received [0x03, 0x07, 0x0B, 0x0F, 0x00, 0x00] (\<lambda>_. 0) port_idx :: u8) 3 \<and> bit (received [0x03, 0x07, 0x0B, 0x0F, 0x00, 0x00] (\<lambda>_. 0) port_idx :: u8) 2 \<longrightarrow>
                 Pull (gpio_settings (ports (digital_io_new_state s') port_idx)) = GPIO_NOPULL)"
    by blast
  from a [of 0] a [of 1] a [of 2] a [of 3] r show ?thesis
    by (simp add: received_def DIGITAL_MAX_PORT_NUM_def bit_0)
qed

text \<open>
  C7. For a port whose command byte has bit 0 clear, the candidate port after the transition
  computation is the default configuration: mode Input, pull PullDown, every pin Low, the
  pin mask the union of the port's four pin identifiers, both change flags unchanged (false).
  The port is in neither range of the switch buffer, and the pass of the loop for that port
  leaves the switch buffer as it found it, from any state.
\<close>

theorem inactive_port_gets_default:
  assumes "switch_buffer_empty (digital_io_switch_buffer s)"
    and "port_idx < DIGITAL_MAX_PORT_NUM"
    and "\<not> bit (output_buff port_idx) 0"
  shows "\<exists>s'. USBD_HID_Digital_IO_Set_Changes tbl output_buff s = Inr s' \<and>
           Mode (gpio_settings (ports (digital_io_new_state s') port_idx)) = GPIO_MODE_INPUT \<and>
           Pull (gpio_settings (ports (digital_io_new_state s') port_idx)) = GPIO_PULLDOWN \<and>
           (\<forall>pin_idx<DIGITAL_MAX_PIN_NUM. pins (ports (digital_io_new_state s') port_idx) pin_idx = DIGITAL_PIN_LOW) \<and>
           Pin (gpio_settings (ports (digital_io_new_state s') port_idx)) =
             tbl port_idx 0 OR tbl port_idx 1 OR tbl port_idx 2 OR tbl port_idx 3 \<and>
           changeIO (ports (digital_io_new_state s') port_idx) = UNCHANGED \<and>
           changePIN (ports (digital_io_new_state s') port_idx) = UNCHANGED \<and>
           port_idx \<notin> set (head_ports (digital_io_switch_buffer s')) \<and>
           port_idx \<notin> set (tail_ports (digital_io_switch_buffer s')) \<and>
           (\<forall>s0. \<exists>s1. Set_Changes_body tbl output_buff port_idx s0 = Inr s1 \<and>
                        digital_io_switch_buffer s1 = digital_io_switch_buffer s0)"
proof -
  from Set_Changes_from_empty [OF assms(1), of tbl output_buff] obtain s' where
    r: "USBD_HID_Digital_IO_Set_Changes tbl output_buff s = Inr s'"
    and h: "head_ports (digital_io_switch_buffer s') =
             filter (\<lambda>i. changeIO (ports (digital_io_new_state s') i) = CHANGED \<and>
                          Mode (gpio_settings (ports (digital_io_new_state s') i)) = GPIO_MODE_INPUT)
               [0..<DIGITAL_MAX_PORT_NUM]"
    and t: "tail_ports (digital_io_switch_buffer s') =
             rev (filter (\<lambda>i. changeIO (ports (digital_io_new_state s') i) = CHANGED \<and>
                               Mode (gpio_settings (ports (digital_io_new_state s') i)) = GPIO_MODE_OUTPUT_PP)
               [0..<DIGITAL_MAX_PORT_NUM])"
    by blast
  from Set_Changes_port_of [OF r assms(2)] obtain b b' where
    "Set_Changes_port tbl (output_buff port_idx) port_idx (ports (digital_io s) port_idx)
       (ports (digital_io_new_state s) port_idx) b = Inr (ports (digital_io_new_state s') port_idx, b')"
    by blast
  then have p: "ports (digital_io_new_state s') port_idx =
                  default_port tbl port_idx (ports (digital_io_new_state s) port_idx)"
    by (simp add: Set_Changes_port_inactive [OF assms(3)])
  have low: "pins (ports (digital_io_new_state s') port_idx) pin_idx = DIGITAL_PIN_LOW"
    if "pin_idx < DIGITAL_MAX_PIN_NUM" for pin_idx
    using lt4_cases [of pin_idx] that by (auto simp: p default_port_fields DIGITAL_MAX_PIN_NUM_def)
  have step: "\<exists>s1. Set_Changes_body tbl output_buff port_idx s0 = Inr s1 \<and>
                   digital_io_switch_buffer s1 = digital_io_switch_buffer s0" for s0
    by (simp add: Set_Changes_body_def Set_Changes_port_inactive [OF assms(3)])
  show ?thesis
    using r low step by (simp add: h t) (simp add: p default_port_fields flags_distinct)
qed

lemma cycle_from_empty:
  assumes "switch_buffer_empty (digital_io_switch_buffer s)"
  shows "\<exists>s1 s2. USBD_HID_Digital_IO_Set_Changes tbl buf s = Inr s1 \<and>
           USBD_HID_Digital_IO_SwitchPorts s1 = Inr s2 \<and>
           head_ports (digital_io_switch_buffer s1) =
             filter (\<lambda>i. changeIO (ports (digital_io_new_state s1) i) = CHANGED \<and>
                          Mode (gpio_settings (ports (digital_io_new_state s1) i)) = GPIO_MODE_INPUT)
               [0..<DIGITAL_MAX_PORT_NUM] \<and>
           tail_ports (digital_io_switch_buffer s1) =
             rev (filter (\<lambda>i. changeIO (ports (digital_io_new_state s1) i) = CHANGED \<and>
                               Mode (gpio_settings (ports (digital_io_new_state s1) i)) = GPIO_MODE_OUTPUT_PP)
               [0..<DIGITAL_MAX_PORT_NUM]) \<and>
           hw s2 = hw s @ map (setup_call (digital_io_new_state s1)) (rev (head_ports (digital_io_switch_buffer s1)))
                        @ map (setup_call (digital_io_new_state s1)) (tail_ports (digital_io_switch_buffer s1))
                        @ concat (map (\<lambda>i. if changePIN (ports (digital_io_new_state s1) i) = CHANGED
                                     then map (\<lambda>pin_idx. GPIO_Write_DIGITAL_IO i pin_idx (pins (ports (digital_io_new_state s1) i) pin_idx))
                                            [0..<DIGITAL_MAX_PIN_NUM]
                                     else []) [0..<DIGITAL_MAX_PORT_NUM]) \<and>
           digital_io_new_state s2 = digital_io_new_state s1 \<and>
           switch_buffer_empty (digital_io_switch_buffer s2) \<and>
           port_enabled_size (digital_io s2) = port_enabled_size (digital_io_new_state s1) \<and>
           (\<forall>i. ports (digital_io s2) i =
                 (if i < DIGITAL_MAX_PORT_NUM
                  then (ports (digital_io_new_state s1) i)\<lparr>changePIN := UNCHANGED, changeIO := UNCHANGED\<rparr>
                  else ports (digital_io_new_state s1) i))"
proof -
  from Set_Changes_from_empty [OF assms, of tbl buf] obtain s1 where
    r: "USBD_HID_Digital_IO_Set_Changes tbl buf s = Inr s1"
    and h: "head_ports (digital_io_switch_buffer s1) =
             filter (\<lambda>i. changeIO (ports (digital_io_new_state s1) i) = CHANGED \<and>
                          Mode (gpio_settings (ports (digital_io_new_state s1) i)) = GPIO_MODE_INPUT)
               [0..<DIGITAL_MAX_PORT_NUM]"
    and t: "tail_ports (digital_io_switch_buffer s1) =
             rev (filter (\<lambda>i. changeIO (ports (digital_io_new_state s1) i) = CHANGED \<and>
                               Mode (gpio_settings (ports (digital_io_new_state s1) i)) = GPIO_MODE_OUTPUT_PP)
               [0..<DIGITAL_MAX_PORT_NUM])"
    and b: "unat (head_idx (digital_io_switch_buffer s1)) \<le> unat (tail_idx (digital_io_switch_buffer s1) + 1)"
           "unat (tail_idx (digital_io_switch_buffer s1) + 1) \<le> DIGITAL_MAX_PORT_NUM"
    by blast
  from SwitchPorts_after_Set_Changes [OF h t b] obtain s2 where
    "USBD_HID_Digital_IO_SwitchPorts s1 = Inr s2 \<and>
           hw s2 = hw s1 @ map (setup_call (digital_io_new_state s1)) (rev (head_ports (digital_io_switch_buffer s1)))
                        @ map (setup_call (digital_io_new_state s1)) (tail_ports (digital_io_switch_buffer s1))
                        @ concat (map (\<lambda>i. if changePIN (ports (digital_io_new_state s1) i) = CHANGED
                                     then map (\<lambda>pin_idx. GPIO_Write_DIGITAL_IO i pin_idx (pins (ports (digital_io_new_state s1) i) pin_idx))
                                            [0..<DIGITAL_MAX_PIN_NUM]
                                     else []) [0..<DIGITAL_MAX_PORT_NUM]) \<and>
           digital_io_new_state s2 = digital_io_new_state s1 \<and>
           switch_buffer_empty (digital_io_switch_buffer s2) \<and>
           array (digital_io_switch_buffer s2) = array (digital_io_switch_buffer s1) \<and>
           port_enabled_size (digital_io s2) = port_enabled_size (digital_io_new_state s1) \<and>
           (\<forall>i. ports (digital_io s2) i =
                 (if i < DIGITAL_MAX_PORT_NUM
                  then (ports (digital_io_new_state s1) i)\<lparr>changePIN := UNCHANGED, changeIO := UNCHANGED\<rparr>
                  else ports (digital_io_new_state s1) i))"
    by blast
  with r h t Set_Changes_frame(2) [OF r] show ?thesis
    by (intro exI [of _ s1] exI [of _ s2]) simp
qed

text \<open>
  C10. For a port whose command byte has bit 0 set, the transition computation leaves the
  \<^verbatim>\<open>Pin\<close> mask of the candidate port as it was before the call, and every
  \<^verbatim>\<open>HAL_GPIO_Init\<close> call the following commit makes for that port carries that
  earlier mask.
\<close>

theorem active_port_keeps_pin_mask:
  assumes "switch_buffer_empty (digital_io_switch_buffer s)"
    and "port_idx < DIGITAL_MAX_PORT_NUM"
    and "bit (output_buff port_idx) 0"
  shows "\<exists>s1 s2. USBD_HID_Digital_IO_Set_Changes tbl output_buff s = Inr s1 \<and>
           Pin (gpio_settings (ports (digital_io_new_state s1) port_idx)) =
             Pin (gpio_settings (ports (digital_io_new_state s) port_idx)) \<and>
           USBD_HID_Digital_IO_SwitchPorts s1 = Inr s2 \<and>
           (\<forall>g. HAL_GPIO_Init port_idx g \<in> set (drop (length (hw s)) (hw s2)) \<longrightarrow>
                Pin g = Pin (gpio_settings (ports (digital_io_new_state s) port_idx)))"
proof -
  from cycle_from_empty [OF assms(1), of tbl output_buff] obtain s1 s2 where
    r: "USBD_HID_Digital_IO_Set_Changes tbl output_buff s = Inr s1"
    and c: "USBD_HID_Digital_IO_SwitchPorts s1 = Inr s2"
    and h: "hw s2 = hw s @ map (setup_call (digital_io_new_state s1)) (rev (head_ports (digital_io_switch_buffer s1)))
                        @ map (setup_call (digital_io_new_state s1)) (tail_ports (digital_io_switch_buffer s1))
                        @ concat (map (\<lambda>i. if changePIN (ports (digital_io_new_state s1) i) = CHANGED
                                     then map (\<lambda>pin_idx. GPIO_Write_DIGITAL_IO i pin_idx (pins (ports (digital_io_new_state s1) i) pin_idx))
                                            [0..<DIGITAL_MAX_PIN_NUM]
                                     else []) [0..<DIGITAL_MAX_PORT_NUM])"
    by blast
  from Set_Changes_port_of [OF r assms(2)] obtain b b' where
    "Set_Changes_port tbl (output_buff port_idx) port_idx (ports (digital_io s) port_idx)
       (ports (digital_io_new_state s) port_idx) b = Inr (ports (digital_io_new_state s1) port_idx, b')"
    by blast
  from Set_Changes_port_active(3) [OF assms(3) this]
  have p: "Pin (gpio_settings (ports (digital_io_new_state s1) port_idx)) =
             Pin (gpio_settings (ports (digital_io_new_state s) port_idx))" .
  have "Pin g = Pin (gpio_settings (ports (digital_io_new_state s) port_idx))"
    if "HAL_GPIO_Init port_idx g \<in> set (drop (length (hw s)) (hw s2))" for g
    using that unfolding h by (auto simp: setup_call_def p split: if_splits)
  with r c p show ?thesis by blast
qed

lemma power_on_port:
  assumes "i < DIGITAL_MAX_PORT_NUM"
  shows "gpio_settings (ports (digital_io power_on) i) = \<lparr>Pin = 0x0F, Mode = GPIO_MODE_INPUT, Pull = GPIO_PULLDOWN\<rparr>"
    and "changeIO (ports (digital_io power_on) i) = UNCHANGED"
    and "changePIN (ports (digital_io power_on) i) = UNCHANGED"
    and "pins (ports (digital_io power_on) i) = (\<lambda>_. 0)"
  using assms
  by (auto simp: power_on_fields default_port_fields example_pin_table_def zeroed_def DIGITAL_PIN_LOW_def)

theorem active_port_keeps_pin_mask_witness:
  "\<exists>s1 s2. USBD_HID_Digital_IO_Set_Changes example_pin_table
              (received [0x03, 0x00, 0x00, 0x00, 0x00, 0x00] (\<lambda>_. 0)) power_on = Inr s1 \<and>
           Pin (gpio_settings (ports (digital_io_new_state s1) 0)) = 0x0F \<and>
           USBD_HID_Digital_IO_SwitchPorts s1 = Inr s2 \<and>
           (\<forall>g. HAL_GPIO_Init 0 g \<in> set (hw s2) \<longrightarrow> Pin g = 0x0F)"
proof -
  have "(0::nat) < DIGITAL_MAX_PORT_NUM"
    and "bit (received [0x03, 0x00, 0x00, 0x00, 0x00, 0x00] (\<lambda>_. 0) 0 :: u8) 0"
    by (simp_all add: DIGITAL_MAX_PORT_NUM_def received_def bit_0)
  from active_port_keeps_pin_mask
         [where s = power_on and port_idx = 0 and tbl = example_pin_table
            and output_buff = "received [0x03, 0x00, 0x00, 0x00, 0x00, 0x00] (\<lambda>_. 0)",
          OF power_on_fields(1) this]
  show ?thesis
    using power_on_port(1) [of 0]
    by (simp add: power_on_fields DIGITAL_MAX_PORT_NUM_def)
qed

lemma decode_and_commit_Inr:
  "(decode_and_commit tbl buf s = Inr s2) =
     (\<exists>s1. USBD_HID_Digital_IO_Set_Changes tbl buf s = Inr s1 \<and> USBD_HID_Digital_IO_SwitchPorts s1 = Inr s2)"
  by (auto simp: decode_and_commit_def split: sum.splits)

lemma decode_and_commit_from_empty:
  assumes "switch_buffer_empty (digital_io_switch_buffer s)"
  shows "\<exists>s1 s2. USBD_HID_Digital_IO_Set_Changes tbl buf s = Inr s1 \<and>
           decode_and_commit tbl buf s = Inr s2 \<and>
           switch_buffer_empty (digital_io_switch_buffer s2) \<and>
           digital_io_new_state s2 = digital_io_new_state s1 \<and>
           (\<forall>i. ports (digital_io s2) i =
                 (if i < DIGITAL_MAX_PORT_NUM
                  then (ports (digital_io_new_state s1) i)\<lparr>changePIN := UNCHANGED, changeIO := UNCHANGED\<rparr>
                  else ports (digital_io_new_state s1) i))"
proof -
  from cycle_from_empty [OF assms, of tbl buf] obtain s1 s2 where
    "USBD_HID_Digital_IO_Set_Changes tbl buf s = Inr s1" "USBD_HID_Digital_IO_SwitchPorts s1 = Inr s2"
    "switch_buffer_empty (digital_io_switch_buffer s2)"
    "digital_io_new_state s2 = digital_io_new_state s1"
    "\<forall>i. ports (digital_io s2) i =
                 (if i < DIGITAL_MAX_PORT_NUM
                  then (ports (digital_io_new_state s1) i)\<lparr>changePIN := UNCHANGED, changeIO := UNCHANGED\<rparr>
                  else ports (digital_io_new_state s1) i)"
    by blast
  then show ?thesis
    by (intro exI [of _ s1] exI [of _ s2]) (simp add: decode_and_commit_def)
qed

text \<open>
  Every cycle of a run that starts on an empty switch buffer starts on an empty switch
  buffer itself, and the run returns: the source does not reset the buffer at the start of
  the transition computation, the drains of the previous commit have emptied it.
\<close>

lemma run_cycles_from_empty:
  assumes "switch_buffer_empty (digital_io_switch_buffer s)"
  shows "\<exists>s'. run_cycles tbl bufs s = Inr s' \<and> switch_buffer_empty (digital_io_switch_buffer s')"
  using assms
proof (induction bufs arbitrary: s)
  case Nil
  then show ?case by simp
next
  case (Cons buf bufs)
  from decode_and_commit_from_empty [OF Cons.prems, of tbl buf] obtain s2 where
    c: "decode_and_commit tbl buf s = Inr s2" and e: "switch_buffer_empty (digital_io_switch_buffer s2)"
    by blast
  from Cons.IH [OF e] c show ?case by simp
qed

text \<open>
  C2, evaluated where the code leaves it. From the start state the command \<open>0x03\<close> for
  port 0 (active, Output, NoPull, pins 0000) is decoded and committed; then the command
  \<open>0x13\<close> (the same settings, pin 0 High) is decoded. Mode and pull did not change, pin 0
  differs from the live value, and yet \<^verbatim>\<open>_changePIN\<close> ends unchanged: every pass of
  the loop over the pins overwrites the flag, so only the last pin decides it.
\<close>

theorem changePIN_follows_last_pin_only:
  "\<exists>s2 s3. decode_and_commit example_pin_table
              (received [0x03, 0x00, 0x00, 0x00, 0x00, 0x00] (\<lambda>_. 0)) power_on = Inr s2 \<and>
           USBD_HID_Digital_IO_Set_Changes example_pin_table
              (received [0x13, 0x00, 0x00, 0x00, 0x00, 0x00] (\<lambda>_. 0)) s2 = Inr s3 \<and>
           Mode (gpio_settings (ports (digital_io_new_state s3) 0)) = GPIO_MODE_OUTPUT_PP \<and>
           changeIO (ports (digital_io_new_state s3) 0) = UNCHANGED \<and>
           pins (ports (digital_io s2) 0) 0 = 0 \<and>
           pins (ports (digital_io_new_state s3) 0) 0 = 1 \<and>
           changePIN (ports (digital_io_new_state s3) 0) = UNCHANGED"
proof -
  let ?b1 = "received [0x03, 0x00, 0x00, 0x00, 0x00, 0x00] (\<lambda>_. 0) :: nat \<Rightarrow> u8"
  let ?b2 = "received [0x13, 0x00, 0x00, 0x00, 0x00, 0x00] (\<lambda>_. 0) :: nat \<Rightarrow> u8"
  have z: "(0::nat) < DIGITAL_MAX_PORT_NUM" by (simp add: DIGITAL_MAX_PORT_NUM_def)
  have b1: "?b1 0 = 0x03" and b2: "?b2 0 = 0x13" by (simp_all add: received_def)
  from decode_and_commit_from_empty [OF power_on_fields(1), of example_pin_table ?b1]
  obtain s1 s2 where
    r1: "USBD_HID_Digital_IO_Set_Changes example_pin_table ?b1 power_on = Inr s1"
    and c: "decode_and_commit example_pin_table ?b1 power_on = Inr s2"
    and e2: "switch_buffer_empty (digital_io_switch_buffer s2)"
    and n2: "digital_io_new_state s2 = digital_io_new_state s1"
    and l2: "\<forall>i. ports (digital_io s2) i =
                 (if i < DIGITAL_MAX_PORT_NUM
                  then (ports (digital_io_new_state s1) i)\<lparr>changePIN := UNCHANGED, changeIO := UNCHANGED\<rparr>
                  else ports (digital_io_new_state s1) i)"
    by blast
  from Set_Changes_port_of [OF r1 z] obtain b b' where
    "Set_Changes_port example_pin_table (?b1 0) 0 (ports (digital_io power_on) 0)
       (ports (digital_io_new_state power_on) 0) b = Inr (ports (digital_io_new_state s1) 0, b')"
    by blast
  then have p1: "Set_Changes_port example_pin_table 0x03 0 (ports (digital_io power_on) 0)
       (ports (digital_io_new_state power_on) 0) b = Inr (ports (digital_io_new_state s1) 0, b')"
    by (simp only: b1)
  have a1: "bit (0x03::u8) 0" "bit (0x03::u8) 1" "\<not> bit (0x03::u8) 4" "\<not> bit (0x03::u8) 5"
    "\<not> bit (0x03::u8) 6" "\<not> bit (0x03::u8) 7" "decode_pull (0x03 AND 0x0C) = GPIO_NOPULL"
    by (simp_all add: bit_0 decode_pull_def NOPULL_def)
  note f1 = Set_Changes_port_active [OF a1(1) p1]
  have m1: "Mode (gpio_settings (ports (digital_io_new_state s1) 0)) = GPIO_MODE_OUTPUT_PP"
    and u1: "Pull (gpio_settings (ports (digital_io_new_state s1) 0)) = GPIO_NOPULL"
    and q1: "pins (ports (digital_io_new_state s1) 0) 0 = 0" "pins (ports (digital_io_new_state s1) 0) 3 = 0"
    using f1(1,2,7) a1 by simp_all
  have live: "ports (digital_io s2) 0 = (ports (digital_io_new_state s1) 0)\<lparr>changePIN := UNCHANGED, changeIO := UNCHANGED\<rparr>"
    using l2 z by simp
  from Set_Changes_from_empty [OF e2, of example_pin_table ?b2] obtain s3 where
    r3: "USBD_HID_Digital_IO_Set_Changes example_pin_table ?b2 s2 = Inr s3" by blast
  from Set_Changes_port_of [OF r3 z] obtain c c' where
    "Set_Changes_port example_pin_table (?b2 0) 0 (ports (digital_io s2) 0)
       (ports (digital_io_new_state s2) 0) c = Inr (ports (digital_io_new_state s3) 0, c')"
    by blast
  then have p3: "Set_Changes_port example_pin_table 0x13 0 (ports (digital_io s2) 0)
       (ports (digital_io_new_state s2) 0) c = Inr (ports (digital_io_new_state s3) 0, c')"
    by (simp only: b2)
  have a3: "bit (0x13::u8) 0" "bit (0x13::u8) 1" "bit (0x13::u8) 4" "\<not> bit (0x13::u8) 5"
    "\<not> bit (0x13::u8) 6" "\<not> bit (0x13::u8) 7" "decode_pull (0x13 AND 0x0C) = GPIO_NOPULL"
    by (simp_all add: bit_0 decode_pull_def NOPULL_def)
  note f3 = Set_Changes_port_active [OF a3(1) p3]
  have m3: "Mode (gpio_settings (ports (digital_io_new_state s3) 0)) = GPIO_MODE_OUTPUT_PP"
    and u3: "Pull (gpio_settings (ports (digital_io_new_state s3) 0)) = GPIO_NOPULL"
    and q3: "pins (ports (digital_io_new_state s3) 0) 0 = 1" "pins (ports (digital_io_new_state s3) 0) 3 = 0"
    using f3(1,2,7) a3 by simp_all
  have io3: "changeIO (ports (digital_io_new_state s3) 0) = UNCHANGED"
    using f3(5) by (simp add: m3 u3 live m1 u1)
  have pin3: "changePIN (ports (digital_io_new_state s3) 0) = UNCHANGED"
    using f3(6) by (simp add: io3 q3 live q1 flags_distinct)
  show ?thesis
    using c r3 m3 io3 q3(1) pin3 by (simp add: live q1)
qed

lemma GPIO_Setup_frame:
  assumes "USBD_HID_Digital_IO_GPIO_Setup idx s = Inr s'"
  shows "digital_io s' = digital_io s" and "digital_io_new_state s' = digital_io_new_state s"
    and "digital_io_switch_buffer s' = digital_io_switch_buffer s"
  using assms by (auto simp: USBD_HID_Digital_IO_GPIO_Setup_def Let_def split: if_splits)

lemma drain_head_Inr:
  "drain_head s = Inr s' \<Longrightarrow>
     head_idx (digital_io_switch_buffer s') = 0 \<and>
     tail_idx (digital_io_switch_buffer s') = tail_idx (digital_io_switch_buffer s) \<and>
     digital_io s' = digital_io s \<and> digital_io_new_state s' = digital_io_new_state s"
proof (induction s rule: drain_head.induct)
  case (1 s)
  show ?case
  proof (cases "head_idx (digital_io_switch_buffer s) = 0")
    case True
    with "1.prems" show ?thesis
      by (subst (asm) drain_head.simps) simp
  next
    case False
    define s1 where "s1 = s\<lparr>digital_io_switch_buffer :=
        (digital_io_switch_buffer s)\<lparr>head_idx := head_idx (digital_io_switch_buffer s) - 1\<rparr>\<rparr>"
    from "1.prems" False obtain s2 where
      g: "USBD_HID_Digital_IO_GPIO_Setup (head_idx (digital_io_switch_buffer s1)) s1 = Inr s2"
      and d: "drain_head s2 = Inr s'"
      by (subst (asm) drain_head.simps) (auto simp: s1_def Let_def split: sum.splits)
    from "1.IH" [OF False s1_def g d] GPIO_Setup_frame [OF g] show ?thesis
      by (simp add: s1_def)
  qed
qed

lemma drain_tail_Inr:
  "drain_tail s = Inr s' \<Longrightarrow>
     tail_idx (digital_io_switch_buffer s') = of_nat (DIGITAL_MAX_PORT_NUM - 1) \<and>
     head_idx (digital_io_switch_buffer s') = head_idx (digital_io_switch_buffer s) \<and>
     digital_io s' = digital_io s \<and> digital_io_new_state s' = digital_io_new_state s"
proof (induction s rule: drain_tail.induct)
  case (1 s)
  show ?case
  proof (cases "tail_idx (digital_io_switch_buffer s) = of_nat (DIGITAL_MAX_PORT_NUM - 1)")
    case True
    with "1.prems" show ?thesis
      by (subst (asm) drain_tail.simps) simp
  next
    case False
    define s1 where "s1 = s\<lparr>digital_io_switch_buffer :=
        (digital_io_switch_buffer s)\<lparr>tail_idx := tail_idx (digital_io_switch_buffer s) + 1\<rparr>\<rparr>"
    from "1.prems" False obtain s2 where
      g: "USBD_HID_Digital_IO_GPIO_Setup (tail_idx (digital_io_switch_buffer s1)) s1 = Inr s2"
      and d: "drain_tail s2 = Inr s'"
      by (subst (asm) drain_tail.simps) (auto simp: s1_def Let_def split: sum.splits)
    from "1.IH" [OF False s1_def g d] GPIO_Setup_frame [OF g] show ?thesis
      by (simp add: s1_def)
  qed
qed

lemma SwitchPorts_Inr:
  assumes "USBD_HID_Digital_IO_SwitchPorts s = Inr s'"
  shows "head_idx (digital_io_switch_buffer s') = 0"
    and "tail_idx (digital_io_switch_buffer s') = of_nat (DIGITAL_MAX_PORT_NUM - 1)"
    and "digital_io_new_state s' = digital_io_new_state s"
    and "ports (digital_io s') i =
           (if i < DIGITAL_MAX_PORT_NUM
            then (ports (digital_io_new_state s) i)\<lparr>changePIN := UNCHANGED, changeIO := UNCHANGED\<rparr>
            else ports (digital_io_new_state s) i)"
proof -
  from assms obtain s1 s2 where
    h: "drain_head (s\<lparr>digital_io := digital_io_new_state s\<rparr>) = Inr s1"
    and t: "drain_tail s1 = Inr s2"
    and w: "s' = fold write_port [0..<DIGITAL_MAX_PORT_NUM] s2"
    by (auto simp: USBD_HID_Digital_IO_SwitchPorts_def split: sum.splits)
  note a = drain_head_Inr [OF h] drain_tail_Inr [OF t]
  show "head_idx (digital_io_switch_buffer s') = 0"
    and "tail_idx (digital_io_switch_buffer s') = of_nat (DIGITAL_MAX_PORT_NUM - 1)"
    and "digital_io_new_state s' = digital_io_new_state s"
    and "ports (digital_io s') i =
           (if i < DIGITAL_MAX_PORT_NUM
            then (ports (digital_io_new_state s) i)\<lparr>changePIN := UNCHANGED, changeIO := UNCHANGED\<rparr>
            else ports (digital_io_new_state s) i)"
    using a by (simp_all add: w fold_write_port)
qed

lemma SwitchPorts_in_range:
  assumes "switch_buffer_in_range (digital_io_switch_buffer s)"
  shows "\<exists>s'. USBD_HID_Digital_IO_SwitchPorts s = Inr s'"
proof -
  from assms have "unat (head_idx (digital_io_switch_buffer s)) \<le> DIGITAL_MAX_PORT_NUM"
    and "unat (tail_idx (digital_io_switch_buffer s) + 1) \<le> DIGITAL_MAX_PORT_NUM"
    and "\<forall>p\<in>set (head_ports (digital_io_switch_buffer s)). p < DIGITAL_MAX_PORT_NUM"
    and "\<forall>p\<in>set (tail_ports (digital_io_switch_buffer s)). p < DIGITAL_MAX_PORT_NUM"
    by (simp_all add: switch_buffer_in_range_def list_all_iff)
  from SwitchPorts_result [OF this] show ?thesis by blast
qed

text \<open>
  C9. The commit returns on every switch buffer that stays inside its arrays (every buffer
  the transition computation fills from empty is one), and whenever it returns, from
  whatever live state, candidate state and switch buffer it started, both change flags of
  every live port are unchanged (false), the head cursor is 0 and the tail cursor is
  \<open>DIGITAL_MAX_PORT_NUM - 1\<close>.
\<close>

theorem commit_clears_flags_and_buffer:
  "(switch_buffer_in_range (digital_io_switch_buffer s) \<longrightarrow>
      (\<exists>s'. USBD_HID_Digital_IO_SwitchPorts s = Inr s')) \<and>
   (\<forall>s'. USBD_HID_Digital_IO_SwitchPorts s = Inr s' \<longrightarrow>
      (\<forall>port_idx<DIGITAL_MAX_PORT_NUM.
         changePIN (ports (digital_io s') port_idx) = UNCHANGED \<and>
         changeIO (ports (digital_io s') port_idx) = UNCHANGED) \<and>
      head_idx (digital_io_switch_buffer s') = 0 \<and>
      tail_idx (digital_io_switch_buffer s') = of_nat (DIGITAL_MAX_PORT_NUM - 1))"
  using SwitchPorts_in_range [of s] SwitchPorts_Inr [of s]
  by auto

lemma Set_Changes_inactive_port:
  assumes "USBD_HID_Digital_IO_Set_Changes tbl buf s = Inr s'" and "i < DIGITAL_MAX_PORT_NUM"
    and "\<not> bit (buf i) 0"
  shows "ports (digital_io_new_state s') i = default_port tbl i (ports (digital_io_new_state s) i)"
proof -
  from Set_Changes_port_of [OF assms(1,2)] obtain b b' where
    "Set_Changes_port tbl (buf i) i (ports (digital_io s) i) (ports (digital_io_new_state s) i) b
       = Inr (ports (digital_io_new_state s') i, b')" by blast
  then show ?thesis
    by (simp add: Set_Changes_port_inactive [OF assms(3)])
qed

lemma Set_Changes_in_range:
  assumes "switch_buffer_empty (digital_io_switch_buffer s)"
    and "USBD_HID_Digital_IO_Set_Changes tbl buf s = Inr s'"
  shows "switch_buffer_in_range (digital_io_switch_buffer s')"
proof -
  from Set_Changes_from_empty [OF assms(1), of tbl buf] assms(2) show ?thesis
    by (auto simp: switch_buffer_in_range_def list_all_iff)
qed

lemma first_command:
  "\<exists>s1. USBD_HID_Digital_IO_Set_Changes example_pin_table
           (received [0x03, 0x00, 0x00, 0x00, 0x00, 0x00] (\<lambda>_. 0)) power_on = Inr s1 \<and>
         gpio_settings (ports (digital_io_new_state s1) 0) =
           \<lparr>Pin = 0x0F, Mode = GPIO_MODE_OUTPUT_PP, Pull = GPIO_NOPULL\<rparr> \<and>
         changeIO (ports (digital_io_new_state s1) 0) = CHANGED \<and>
         changePIN (ports (digital_io_new_state s1) 0) = CHANGED \<and>
         pins (ports (digital_io_new_state s1) 0) = (\<lambda>_. 0) \<and>
         head_ports (digital_io_switch_buffer s1) = [] \<and>
         tail_ports (digital_io_switch_buffer s1) = [0] \<and>
         switch_buffer_in_range (digital_io_switch_buffer s1)"
proof -
  let ?b1 = "received [0x03, 0x00, 0x00, 0x00, 0x00, 0x00] (\<lambda>_. 0) :: nat \<Rightarrow> u8"
  have z: "(0::nat) < DIGITAL_MAX_PORT_NUM" by (simp add: DIGITAL_MAX_PORT_NUM_def)
  have b1: "?b1 0 = 0x03" by (simp add: received_def)
  from Set_Changes_from_empty [OF power_on_fields(1), of example_pin_table ?b1]
  obtain s1 where
    r1: "USBD_HID_Digital_IO_Set_Changes example_pin_table ?b1 power_on = Inr s1"
    and h: "head_ports (digital_io_switch_buffer s1) =
             filter (\<lambda>i. changeIO (ports (digital_io_new_state s1) i) = CHANGED \<and>
                          Mode (gpio_settings (ports (digital_io_new_state s1) i)) = GPIO_MODE_INPUT)
               [0..<DIGITAL_MAX_PORT_NUM]"
    and t: "tail_ports (digital_io_switch_buffer s1) =
             rev (filter (\<lambda>i. changeIO (ports (digital_io_new_state s1) i) = CHANGED \<and>
                               Mode (gpio_settings (ports (digital_io_new_state s1) i)) = GPIO_MODE_OUTPUT_PP)
               [0..<DIGITAL_MAX_PORT_NUM])"
    by blast
  from Set_Changes_port_of [OF r1 z] obtain b b' where
    "Set_Changes_port example_pin_table (?b1 0) 0 (ports (digital_io power_on) 0)
       (ports (digital_io_new_state power_on) 0) b = Inr (ports (digital_io_new_state s1) 0, b')"
    by blast
  then have p1: "Set_Changes_port example_pin_table 0x03 0 (ports (digital_io power_on) 0)
       (ports (digital_io power_on) 0) b = Inr (ports (digital_io_new_state s1) 0, b')"
    by (simp only: b1 power_on_fields(3))
  have a1: "bit (0x03::u8) 0" "bit (0x03::u8) 1" "\<not> bit (0x03::u8) 4" "\<not> bit (0x03::u8) 5"
    "\<not> bit (0x03::u8) 6" "\<not> bit (0x03::u8) 7" "decode_pull (0x03 AND 0x0C) = GPIO_NOPULL"
    by (simp_all add: bit_0 decode_pull_def NOPULL_def)
  note f1 = Set_Changes_port_active [OF a1(1) p1]
  note po = power_on_port [OF z]
  have g: "gpio_settings (ports (digital_io_new_state s1) 0) =
           \<lparr>Pin = 0x0F, Mode = GPIO_MODE_OUTPUT_PP, Pull = GPIO_NOPULL\<rparr>"
    using f1(1,2,3) a1 by (intro GPIO_InitTypeDef.equality) (simp_all add: po)
  have io: "changeIO (ports (digital_io_new_state s1) 0) = CHANGED"
    using f1(5) by (simp add: g po modes_distinct)
  have pin: "changePIN (ports (digital_io_new_state s1) 0) = CHANGED"
    using f1(6) a1 by (simp add: io)
  have ps: "pins (ports (digital_io_new_state s1) 0) = (\<lambda>_. 0)"
    using f1(7) a1 by (auto simp: po)
  have rest: "changeIO (ports (digital_io_new_state s1) i) = UNCHANGED"
    if "i \<in> {1, 2, 3, 4, 5}" for i
  proof -
    from that have "i < DIGITAL_MAX_PORT_NUM" "\<not> bit (?b1 i) 0"
      by (auto simp: DIGITAL_MAX_PORT_NUM_def received_def)
    from Set_Changes_inactive_port [OF r1 this] show ?thesis
      by (simp add: default_port_fields)
  qed
  have hp: "head_ports (digital_io_switch_buffer s1) = []"
    unfolding h upt_ports using rest by (simp add: g modes_distinct flags_distinct)
  have tp: "tail_ports (digital_io_switch_buffer s1) = [0]"
    unfolding t upt_ports using rest by (simp add: g io flags_distinct)
  from r1 g io pin ps hp tp Set_Changes_in_range [OF power_on_fields(1) r1] show ?thesis
    by blast
qed

theorem commit_clears_flags_and_buffer_witness:
  "\<exists>s1 s'. USBD_HID_Digital_IO_Set_Changes example_pin_table
              (received [0x03, 0x00, 0x00, 0x00, 0x00, 0x00] (\<lambda>_. 0)) power_on = Inr s1 \<and>
           changeIO (ports (digital_io_new_state s1) 0) = CHANGED \<and>
           changePIN (ports (digital_io_new_state s1) 0) = CHANGED \<and>
           tail_ports (digital_io_switch_buffer s1) = [0] \<and>
           USBD_HID_Digital_IO_SwitchPorts s1 = Inr s' \<and>
           changePIN (ports (digital_io s') 0) = UNCHANGED \<and>
           changeIO (ports (digital_io s') 0) = UNCHANGED \<and>
           head_idx (digital_io_switch_buffer s') = 0 \<and>
           tail_idx (digital_io_switch_buffer s') = 5"
proof -
  from first_command obtain s1 where
    r: "USBD_HID_Digital_IO_Set_Changes example_pin_table
              (received [0x03, 0x00, 0x00, 0x00, 0x00, 0x00] (\<lambda>_. 0)) power_on = Inr s1"
    and f: "changeIO (ports (digital_io_new_state s1) 0) = CHANGED"
           "changePIN (ports (digital_io_new_state s1) 0) = CHANGED"
           "tail_ports (digital_io_switch_buffer s1) = [0]"
    and i: "switch_buffer_in_range (digital_io_switch_buffer s1)"
    by blast
  from commit_clears_flags_and_buffer [of s1] i obtain s' where
    c: "USBD_HID_Digital_IO_SwitchPorts s1 = Inr s'"
    by blast
  from commit_clears_flags_and_buffer [of s1] c
  have "changePIN (ports (digital_io s') 0) = UNCHANGED \<and>
        changeIO (ports (digital_io s') 0) = UNCHANGED \<and>
        head_idx (digital_io_switch_buffer s') = 0 \<and>
        tail_idx (digital_io_switch_buffer s') = 5"
    by (simp add: DIGITAL_MAX_PORT_NUM_def)
  with r f c show ?thesis by blast
qed

lemma ucast_down_add: "(ucast (a + b :: u32) :: u8) = ucast a + ucast b"
proof -
  have d: "is_down (ucast :: u32 \<Rightarrow> u8)" by (simp add: is_down)
  have e: "(word_of_int (uint w) :: u8) = ucast w" for w :: u32
    by (rule ucast_eq [symmetric])
  have "a + b = word_of_int (uint a + uint b)" by simp
  then have "(ucast (a + b) :: u8) = ucast (word_of_int (uint a + uint b) :: u32)"
    by (rule arg_cong)
  also have "\<dots> = word_of_int (uint a + uint b)"
    by (rule ucast_down_wi [OF d])
  also have "\<dots> = ucast a + ucast b"
    by (simp only: of_int_add e)
  finally show ?thesis .
qed

lemma add_to_report_eq: "add_to_report k x report = report[k := report ! k + ucast x]"
proof -
  have "(ucast (ucast (report ! k) :: u32) :: u8) = report ! k"
    by (rule bit_word_eqI) (simp add: bit_simps)
  then show ?thesis
    by (simp add: add_to_report_def ucast_down_add)
qed


lemma ucast_down_mult: "(ucast (a * b :: u32) :: u8) = ucast a * ucast b"
proof -
  have d: "is_down (ucast :: u32 \<Rightarrow> u8)" by (simp add: is_down)
  have e: "(word_of_int (uint w) :: u8) = ucast w" for w :: u32
    by (rule ucast_eq [symmetric])
  have "a * b = word_of_int (uint a * uint b)" by simp
  then have "(ucast (a * b) :: u8) = ucast (word_of_int (uint a * uint b) :: u32)"
    by (rule arg_cong)
  also have "\<dots> = word_of_int (uint a * uint b)"
    by (rule ucast_down_wi [OF d])
  also have "\<dots> = ucast a * ucast b"
    by (simp only: of_int_mult e)
  finally show ?thesis .
qed

lemma ucast_up_down: "(ucast (ucast (x :: u8) :: u32) :: u8) = x"
  by (rule bit_word_eqI) (simp add: bit_simps)

lemma CreateReport_closed_form:
  "USBD_HID_Digital_IO_CreateReport s =
     [ucast (Mode (gpio_settings (ports (digital_io s) 0))) +
      2 * ucast (Mode (gpio_settings (ports (digital_io s) 1))) +
      4 * ucast (Mode (gpio_settings (ports (digital_io s) 2))) +
      8 * ucast (Mode (gpio_settings (ports (digital_io s) 3))) +
      16 * ucast (Mode (gpio_settings (ports (digital_io s) 4))) +
      32 * ucast (Mode (gpio_settings (ports (digital_io s) 5))),
      pins (ports (digital_io s) 0) 0 + 2 * pins (ports (digital_io s) 0) 1 +
      4 * pins (ports (digital_io s) 0) 2 + 8 * pins (ports (digital_io s) 0) 3 +
      16 * pins (ports (digital_io s) 1) 0 + 32 * pins (ports (digital_io s) 1) 1 +
      64 * pins (ports (digital_io s) 1) 2 + 128 * pins (ports (digital_io s) 1) 3,
      pins (ports (digital_io s) 2) 0 + 2 * pins (ports (digital_io s) 2) 1 +
      4 * pins (ports (digital_io s) 2) 2 + 8 * pins (ports (digital_io s) 2) 3 +
      16 * pins (ports (digital_io s) 3) 0 + 32 * pins (ports (digital_io s) 3) 1 +
      64 * pins (ports (digital_io s) 3) 2 + 128 * pins (ports (digital_io s) 3) 3,
      pins (ports (digital_io s) 4) 0 + 2 * pins (ports (digital_io s) 4) 1 +
      4 * pins (ports (digital_io s) 4) 2 + 8 * pins (ports (digital_io s) 4) 3 +
      16 * pins (ports (digital_io s) 5) 0 + 32 * pins (ports (digital_io s) 5) 1 +
      64 * pins (ports (digital_io s) 5) 2 + 128 * pins (ports (digital_io s) 5) 3]"
  unfolding USBD_HID_Digital_IO_CreateReport_def upt_ports
  by (simp add: CreateReport_port_def upt_pins add_to_report_eq push_bit_eq_mult
        ucast_down_add ucast_down_mult ucast_up_down ucast_down_no is_down)

lemma bits_of_byte:
  "bit (of_bool q0 + 2 * of_bool q1 + 4 * of_bool q2 + 8 * of_bool q3 +
        16 * of_bool q4 + 32 * of_bool q5 + 64 * of_bool q6 + 128 * of_bool q7 :: u8) n
     = (n < 8 \<and> [q0, q1, q2, q3, q4, q5, q6, q7] ! n)"
proof -
  have "(of_bool q0 + 2 * of_bool q1 + 4 * of_bool q2 + 8 * of_bool q3 +
        16 * of_bool q4 + 32 * of_bool q5 + 64 * of_bool q6 + 128 * of_bool q7 :: u8)
        = horner_sum of_bool 2 [q0, q1, q2, q3, q4, q5, q6, q7]"
    by simp
  then show ?thesis
  proof (simp only: bit_horner_sum_bit_word_iff)
    have "min LENGTH(8) (length [q0, q1, q2, q3, q4, q5, q6, q7]) = 8"
      by simp
    then show "(n < min LENGTH(8) (length [q0, q1, q2, q3, q4, q5, q6, q7]) \<and>
                  [q0, q1, q2, q3, q4, q5, q6, q7] ! n) =
               (n < 8 \<and> [q0, q1, q2, q3, q4, q5, q6, q7] ! n)"
      by (simp only:)
  qed
qed

lemma valid_digital_io_fields:
  assumes "valid_digital_io d" and "i < DIGITAL_MAX_PORT_NUM"
  shows "ucast (Mode (gpio_settings (ports d i))) =
           (of_bool (Mode (gpio_settings (ports d i)) = GPIO_MODE_OUTPUT_PP) :: u8)"
    and "j < DIGITAL_MAX_PIN_NUM \<Longrightarrow> pins (ports d i) j = of_bool (pins (ports d i) j = 1)"
proof -
  from assms have m: "Mode (gpio_settings (ports d i)) = GPIO_MODE_INPUT \<or>
                      Mode (gpio_settings (ports d i)) = GPIO_MODE_OUTPUT_PP"
    and p: "\<And>j. j < DIGITAL_MAX_PIN_NUM \<Longrightarrow> pins (ports d i) j = DIGITAL_PIN_LOW \<or> pins (ports d i) j = 1"
    by (auto simp: valid_digital_io_def list_all_iff)
  from m show "ucast (Mode (gpio_settings (ports d i))) =
           (of_bool (Mode (gpio_settings (ports d i)) = GPIO_MODE_OUTPUT_PP) :: u8)"
    by (auto simp: GPIO_MODE_INPUT_def GPIO_MODE_OUTPUT_PP_def)
  show "pins (ports d i) j = of_bool (pins (ports d i) j = 1)" if "j < DIGITAL_MAX_PIN_NUM"
    using p [OF that] by (auto simp: DIGITAL_PIN_LOW_def)
qed

lemma lt6_cases: "i < (6::nat) \<Longrightarrow> i = 0 \<or> i = 1 \<or> i = 2 \<or> i = 3 \<or> i = 4 \<or> i = 5"
  by arith

lemma report_mode_byte:
  assumes "valid_digital_io (digital_io s)"
  shows "bit (USBD_HID_Digital_IO_CreateReport s ! 0) i =
           (i < DIGITAL_MAX_PORT_NUM \<and> Mode (gpio_settings (ports (digital_io s) i)) = GPIO_MODE_OUTPUT_PP)"
proof -
  define q where "q i = (Mode (gpio_settings (ports (digital_io s) i)) = GPIO_MODE_OUTPUT_PP)" for i
  have m: "ucast (Mode (gpio_settings (ports (digital_io s) i))) = (of_bool (q i) :: u8)"
    if "i < 6" for i
    using valid_digital_io_fields(1) [OF assms, of i] that by (simp add: q_def DIGITAL_MAX_PORT_NUM_def)
  have "USBD_HID_Digital_IO_CreateReport s ! 0 =
          of_bool (q 0) + 2 * of_bool (q 1) + 4 * of_bool (q 2) + 8 * of_bool (q 3) +
          16 * of_bool (q 4) + 32 * of_bool (q 5) + 64 * of_bool False + 128 * of_bool False"
    unfolding CreateReport_closed_form using m [of 0] m [of 1] m [of 2] m [of 3] m [of 4] m [of 5]
    by simp
  then have b: "bit (USBD_HID_Digital_IO_CreateReport s ! 0) i =
           (i < 8 \<and> [q 0, q 1, q 2, q 3, q 4, q 5, False, False] ! i)"
    by (simp only: bits_of_byte)
  show ?thesis
  proof (cases "i < 6")
    case True
    from lt6_cases [OF this] show ?thesis
      unfolding b by (auto simp: DIGITAL_MAX_PORT_NUM_def q_def)
  next
    case False
    then have "i < 8 \<Longrightarrow> i = 6 \<or> i = 7" by arith
    with False show ?thesis
      unfolding b by (auto simp: DIGITAL_MAX_PORT_NUM_def)
  qed
qed

lemma report_pin_byte:
  assumes "valid_digital_io (digital_io s)" and "k < 3"
  shows "bit (USBD_HID_Digital_IO_CreateReport s ! (1 + k)) n =
           (n < 8 \<and> [pins (ports (digital_io s) (2 * k)) 0 = 1, pins (ports (digital_io s) (2 * k)) 1 = 1,
                       pins (ports (digital_io s) (2 * k)) 2 = 1, pins (ports (digital_io s) (2 * k)) 3 = 1,
                       pins (ports (digital_io s) (2 * k + 1)) 0 = 1, pins (ports (digital_io s) (2 * k + 1)) 1 = 1,
                       pins (ports (digital_io s) (2 * k + 1)) 2 = 1, pins (ports (digital_io s) (2 * k + 1)) 3 = 1] ! n)"
proof -
  define q where "q i j = (pins (ports (digital_io s) i) j = 1)" for i j
  have p: "pins (ports (digital_io s) i) j = of_bool (q i j)" if "i < 6" "j < 4" for i j
    using valid_digital_io_fields(2) [OF assms(1), of i j] that
    by (simp add: q_def DIGITAL_MAX_PORT_NUM_def DIGITAL_MAX_PIN_NUM_def)
  have e1: "USBD_HID_Digital_IO_CreateReport s ! 1 =
      of_bool (q 0 0) + 2 * of_bool (q 0 1) + 4 * of_bool (q 0 2) + 8 * of_bool (q 0 3) +
      16 * of_bool (q 1 0) + 32 * of_bool (q 1 1) + 64 * of_bool (q 1 2) + 128 * of_bool (q 1 3)"
    unfolding CreateReport_closed_form
    using p [of 0 0] p [of 0 1] p [of 0 2] p [of 0 3] p [of 1 0] p [of 1 1] p [of 1 2] p [of 1 3]
    by simp
  have e2: "USBD_HID_Digital_IO_CreateReport s ! 2 =
      of_bool (q 2 0) + 2 * of_bool (q 2 1) + 4 * of_bool (q 2 2) + 8 * of_bool (q 2 3) +
      16 * of_bool (q 3 0) + 32 * of_bool (q 3 1) + 64 * of_bool (q 3 2) + 128 * of_bool (q 3 3)"
    unfolding CreateReport_closed_form
    using p [of 2 0] p [of 2 1] p [of 2 2] p [of 2 3] p [of 3 0] p [of 3 1] p [of 3 2] p [of 3 3]
    by simp
  have e3: "USBD_HID_Digital_IO_CreateReport s ! 3 =
      of_bool (q 4 0) + 2 * of_bool (q 4 1) + 4 * of_bool (q 4 2) + 8 * of_bool (q 4 3) +
      16 * of_bool (q 5 0) + 32 * of_bool (q 5 1) + 64 * of_bool (q 5 2) + 128 * of_bool (q 5 3)"
    unfolding CreateReport_closed_form
    using p [of 4 0] p [of 4 1] p [of 4 2] p [of 4 3] p [of 5 0] p [of 5 1] p [of 5 2] p [of 5 3]
    by simp
  have b: "bit (USBD_HID_Digital_IO_CreateReport s ! 1) n =
             (n < 8 \<and> [q 0 0, q 0 1, q 0 2, q 0 3, q 1 0, q 1 1, q 1 2, q 1 3] ! n)"
    "bit (USBD_HID_Digital_IO_CreateReport s ! 2) n =
             (n < 8 \<and> [q 2 0, q 2 1, q 2 2, q 2 3, q 3 0, q 3 1, q 3 2, q 3 3] ! n)"
    "bit (USBD_HID_Digital_IO_CreateReport s ! 3) n =
             (n < 8 \<and> [q 4 0, q 4 1, q 4 2, q 4 3, q 5 0, q 5 1, q 5 2, q 5 3] ! n)"
    by (simp_all only: e1 e2 e3 bits_of_byte)
  from assms(2) have "k = 0 \<or> k = 1 \<or> k = 2" by arith
  then show ?thesis
  proof (elim disjE)
    assume k: "k = 0"
    have "1 + k = 1" "2 * k = 0" "(0::nat) + 1 = 1" using k by simp_all
    then show ?thesis by (simp only: b q_def)
  next
    assume k: "k = 1"
    have "1 + k = 2" "2 * k = 2" "(2::nat) + 1 = 3" using k by simp_all
    then show ?thesis by (simp only: b q_def)
  next
    assume k: "k = 2"
    have "1 + k = 3" "2 * k = 4" "(4::nat) + 1 = 5" using k by simp_all
    then show ?thesis by (simp only: b q_def)
  qed
qed

text \<open>
  C3. For every live Digital State (modes Input or Output, pin values Low or High) the
  report has four bytes; bit \<open>i\<close> of byte 0 is set exactly when port \<open>i\<close> is in
  mode Output, for \<open>i\<close> below \<open>DIGITAL_MAX_PORT_NUM\<close>, and every higher bit of byte 0
  is clear; for \<open>k < 3\<close>, bit \<open>j\<close> of byte \<open>1 + k\<close> is pin \<open>j\<close> of port \<open>2k\<close> and
  bit \<open>4 + j\<close> is pin \<open>j\<close> of port \<open>2k + 1\<close>.
\<close>

theorem report_layout:
  assumes "valid_digital_io (digital_io s)"
  shows "length (USBD_HID_Digital_IO_CreateReport s) = 4 \<and>
         (\<forall>i<DIGITAL_MAX_PORT_NUM.
            bit (USBD_HID_Digital_IO_CreateReport s ! 0) i =
              (Mode (gpio_settings (ports (digital_io s) i)) = GPIO_MODE_OUTPUT_PP)) \<and>
         (\<forall>i. DIGITAL_MAX_PORT_NUM \<le> i \<longrightarrow> \<not> bit (USBD_HID_Digital_IO_CreateReport s ! 0) i) \<and>
         (\<forall>k<3. \<forall>j<DIGITAL_MAX_PIN_NUM.
            bit (USBD_HID_Digital_IO_CreateReport s ! (1 + k)) j =
              (pins (ports (digital_io s) (2 * k)) j = 1) \<and>
            bit (USBD_HID_Digital_IO_CreateReport s ! (1 + k)) (4 + j) =
              (pins (ports (digital_io s) (2 * k + 1)) j = 1))"
proof -
  have "bit (USBD_HID_Digital_IO_CreateReport s ! (1 + k)) j =
              (pins (ports (digital_io s) (2 * k)) j = 1) \<and>
        bit (USBD_HID_Digital_IO_CreateReport s ! (1 + k)) (4 + j) =
              (pins (ports (digital_io s) (2 * k + 1)) j = 1)"
    if "k < 3" "j < DIGITAL_MAX_PIN_NUM" for k j
  proof -
    from that(2) have "j < 4" by (simp add: DIGITAL_MAX_PIN_NUM_def)
    then have "j = 0 \<or> j = 1 \<or> j = 2 \<or> j = 3" by arith
    then show ?thesis
      unfolding report_pin_byte [OF assms that(1)] by auto
  qed
  moreover have "length (USBD_HID_Digital_IO_CreateReport s) = 4"
    by (simp add: CreateReport_closed_form)
  ultimately show ?thesis
    by (simp add: report_mode_byte [OF assms])
qed

lemma valid_digital_io_iff:
  "valid_digital_io d =
     (\<forall>i<DIGITAL_MAX_PORT_NUM.
        (Mode (gpio_settings (ports d i)) = GPIO_MODE_INPUT \<or>
         Mode (gpio_settings (ports d i)) = GPIO_MODE_OUTPUT_PP) \<and>
        (\<forall>j<DIGITAL_MAX_PIN_NUM. pins (ports d i) j = DIGITAL_PIN_LOW \<or> pins (ports d i) j = 1))"
  unfolding valid_digital_io_def list_all_iff by (simp add: Ball_def)

lemma valid_default_port:
  "Mode (gpio_settings (default_port tbl i p)) = GPIO_MODE_INPUT"
  "j < DIGITAL_MAX_PIN_NUM \<Longrightarrow> pins (default_port tbl i p) j = DIGITAL_PIN_LOW"
  using lt4_cases [of j] by (auto simp: default_port_fields DIGITAL_MAX_PIN_NUM_def)

lemma valid_power_on: "valid_digital_io (digital_io power_on)"
  by (simp add: valid_digital_io_iff power_on_fields valid_default_port)

lemma Set_Changes_valid:
  assumes "valid_digital_io (digital_io_new_state s)"
    and "USBD_HID_Digital_IO_Set_Changes tbl buf s = Inr s'"
  shows "valid_digital_io (digital_io_new_state s')"
  unfolding valid_digital_io_iff
proof (intro allI impI)
  fix i assume i: "i < DIGITAL_MAX_PORT_NUM"
  from Set_Changes_port_of [OF assms(2) i] obtain b b' where
    r: "Set_Changes_port tbl (buf i) i (ports (digital_io s) i) (ports (digital_io_new_state s) i) b
         = Inr (ports (digital_io_new_state s') i, b')" by blast
  from assms(1) i have old: "\<And>j. j < DIGITAL_MAX_PIN_NUM \<Longrightarrow>
      pins (ports (digital_io_new_state s) i) j = DIGITAL_PIN_LOW \<or> pins (ports (digital_io_new_state s) i) j = 1"
    by (simp add: valid_digital_io_iff)
  show "(Mode (gpio_settings (ports (digital_io_new_state s') i)) = GPIO_MODE_INPUT \<or>
         Mode (gpio_settings (ports (digital_io_new_state s') i)) = GPIO_MODE_OUTPUT_PP) \<and>
        (\<forall>j<DIGITAL_MAX_PIN_NUM. pins (ports (digital_io_new_state s') i) j = DIGITAL_PIN_LOW \<or>
                                 pins (ports (digital_io_new_state s') i) j = 1)"
  proof (cases "bit (buf i) 0")
    case False
    with r have "ports (digital_io_new_state s') i = default_port tbl i (ports (digital_io_new_state s) i)"
      by (simp add: Set_Changes_port_inactive)
    then show ?thesis
      by (simp add: valid_default_port)
  next
    case True
    note a = Set_Changes_port_active [OF True r]
    have "pins (ports (digital_io_new_state s') i) j = DIGITAL_PIN_LOW \<or>
          pins (ports (digital_io_new_state s') i) j = 1" if "j < DIGITAL_MAX_PIN_NUM" for j
      using old [OF that] by (auto simp: a(7) DIGITAL_PIN_LOW_def)
    then show ?thesis
      by (simp add: a(1))
  qed
qed

lemma decode_and_commit_valid:
  assumes "valid_digital_io (digital_io_new_state s)"
    and "decode_and_commit tbl buf s = Inr s'"
  shows "valid_digital_io (digital_io s')" and "valid_digital_io (digital_io_new_state s')"
proof -
  from assms(2) obtain s1 where
    r: "USBD_HID_Digital_IO_Set_Changes tbl buf s = Inr s1"
    and c: "USBD_HID_Digital_IO_SwitchPorts s1 = Inr s'"
    by (auto simp: decode_and_commit_Inr)
  note v = Set_Changes_valid [OF assms(1) r]
  from v show "valid_digital_io (digital_io_new_state s')"
    by (simp add: SwitchPorts_Inr(3) [OF c])
  from v show "valid_digital_io (digital_io s')"
    by (simp add: valid_digital_io_iff SwitchPorts_Inr(4) [OF c])
qed

theorem report_layout_witness:
  "\<exists>s'. decode_and_commit example_pin_table
           (received [0xA3, 0x00, 0x00, 0x00, 0x00, 0x00] (\<lambda>_. 0)) power_on = Inr s' \<and>
         valid_digital_io (digital_io s') \<and>
         length (USBD_HID_Digital_IO_CreateReport s') = 4 \<and>
         bit (USBD_HID_Digital_IO_CreateReport s' ! 0) 0 \<and>
         \<not> bit (USBD_HID_Digital_IO_CreateReport s' ! 0) 1 \<and>
         \<not> bit (USBD_HID_Digital_IO_CreateReport s' ! 0) 6 \<and>
         \<not> bit (USBD_HID_Digital_IO_CreateReport s' ! 1) 0 \<and>
         bit (USBD_HID_Digital_IO_CreateReport s' ! 1) 1 \<and>
         \<not> bit (USBD_HID_Digital_IO_CreateReport s' ! 1) 2 \<and>
         bit (USBD_HID_Digital_IO_CreateReport s' ! 1) 3 \<and>
         \<not> bit (USBD_HID_Digital_IO_CreateReport s' ! 1) 4"
proof -
  let ?b = "received [0xA3, 0x00, 0x00, 0x00, 0x00, 0x00] (\<lambda>_. 0) :: nat \<Rightarrow> u8"
  have z: "(0::nat) < DIGITAL_MAX_PORT_NUM" "(1::nat) < DIGITAL_MAX_PORT_NUM"
    by (simp_all add: DIGITAL_MAX_PORT_NUM_def)
  have b0: "?b 0 = 0xA3" and b1: "\<not> bit (?b 1) 0" by (simp_all add: received_def)
  from decode_and_commit_from_empty [OF power_on_fields(1), of example_pin_table ?b]
  obtain s1 s2 where
    r1: "USBD_HID_Digital_IO_Set_Changes example_pin_table ?b power_on = Inr s1"
    and c: "decode_and_commit example_pin_table ?b power_on = Inr s2"
    and l2: "\<forall>i. ports (digital_io s2) i =
                 (if i < DIGITAL_MAX_PORT_NUM
                  then (ports (digital_io_new_state s1) i)\<lparr>changePIN := UNCHANGED, changeIO := UNCHANGED\<rparr>
                  else ports (digital_io_new_state s1) i)"
    by blast
  have v: "valid_digital_io (digital_io s2)"
    using decode_and_commit_valid(1) [OF _ c] valid_power_on by (simp add: power_on_fields)
  from Set_Changes_port_of [OF r1 z(1)] obtain b b' where
    "Set_Changes_port example_pin_table (?b 0) 0 (ports (digital_io power_on) 0)
       (ports (digital_io_new_state power_on) 0) b = Inr (ports (digital_io_new_state s1) 0, b')"
    by blast
  then have p1: "Set_Changes_port example_pin_table 0xA3 0 (ports (digital_io power_on) 0)
       (ports (digital_io_new_state power_on) 0) b = Inr (ports (digital_io_new_state s1) 0, b')"
    by (simp only: b0)
  have a1: "bit (0xA3::u8) 0" "bit (0xA3::u8) 1" "\<not> bit (0xA3::u8) 4" "bit (0xA3::u8) 5"
    "\<not> bit (0xA3::u8) 6" "bit (0xA3::u8) 7"
    by (simp_all add: bit_0)
  note f1 = Set_Changes_port_active [OF a1(1) p1]
  have m0: "Mode (gpio_settings (ports (digital_io s2) 0)) = GPIO_MODE_OUTPUT_PP"
    and q0: "pins (ports (digital_io s2) 0) 0 = 0" "pins (ports (digital_io s2) 0) 1 = 1"
      "pins (ports (digital_io s2) 0) 2 = 0" "pins (ports (digital_io s2) 0) 3 = 1"
    using f1(1,7) a1 l2 z by simp_all
  have "ports (digital_io_new_state s1) 1 = default_port example_pin_table 1 (ports (digital_io_new_state power_on) 1)"
    by (rule Set_Changes_inactive_port [OF r1 z(2) b1])
  then have m1: "Mode (gpio_settings (ports (digital_io s2) 1)) = GPIO_MODE_INPUT"
    and q1: "pins (ports (digital_io s2) 1) 0 = 0"
    using l2 z by (simp_all add: default_port_fields DIGITAL_PIN_LOW_def)
  have k: "(0::nat) < 3" "(0::nat) < DIGITAL_MAX_PIN_NUM" "(1::nat) < DIGITAL_MAX_PIN_NUM"
    "(2::nat) < DIGITAL_MAX_PIN_NUM" "(3::nat) < DIGITAL_MAX_PIN_NUM" "DIGITAL_MAX_PORT_NUM \<le> (6::nat)"
    by (simp_all add: DIGITAL_MAX_PIN_NUM_def DIGITAL_MAX_PORT_NUM_def)
  note L = report_layout [OF v]
  from L have A: "\<And>i. i < DIGITAL_MAX_PORT_NUM \<Longrightarrow>
            bit (USBD_HID_Digital_IO_CreateReport s2 ! 0) i =
              (Mode (gpio_settings (ports (digital_io s2) i)) = GPIO_MODE_OUTPUT_PP)"
    and B: "\<And>i. DIGITAL_MAX_PORT_NUM \<le> i \<Longrightarrow> \<not> bit (USBD_HID_Digital_IO_CreateReport s2 ! 0) i"
    and C: "\<And>k j. k < 3 \<Longrightarrow> j < DIGITAL_MAX_PIN_NUM \<Longrightarrow>
            bit (USBD_HID_Digital_IO_CreateReport s2 ! (1 + k)) j =
              (pins (ports (digital_io s2) (2 * k)) j = 1) \<and>
            bit (USBD_HID_Digital_IO_CreateReport s2 ! (1 + k)) (4 + j) =
              (pins (ports (digital_io s2) (2 * k + 1)) j = 1)"
    and D: "length (USBD_HID_Digital_IO_CreateReport s2) = 4"
    by blast+
  have "bit (USBD_HID_Digital_IO_CreateReport s2 ! 0) 0"
    and "\<not> bit (USBD_HID_Digital_IO_CreateReport s2 ! 0) 1"
    using A [OF z(1)] A [OF z(2)] m0 m1 by (simp_all add: modes_distinct)
  moreover have "\<not> bit (USBD_HID_Digital_IO_CreateReport s2 ! 0) 6"
    by (rule B [OF k(6)])
  moreover have "\<not> bit (USBD_HID_Digital_IO_CreateReport s2 ! 1) 0"
    and "\<not> bit (USBD_HID_Digital_IO_CreateReport s2 ! 1) 4"
    using C [OF k(1) k(2)] q0 q1 by simp_all
  moreover have "bit (USBD_HID_Digital_IO_CreateReport s2 ! 1) 1"
    using C [OF k(1) k(3)] q0 by simp
  moreover have "\<not> bit (USBD_HID_Digital_IO_CreateReport s2 ! 1) 2"
    using C [OF k(1) k(4)] q0 by simp
  moreover have "bit (USBD_HID_Digital_IO_CreateReport s2 ! 1) 3"
    using C [OF k(1) k(5)] q0 by simp
  moreover note D
  ultimately show ?thesis using c v by blast
qed

lemma empty_ranges_imp_empty:
  assumes "head_ports b = []" and "tail_ports b = []"
    and "unat (tail_idx b + 1) \<le> DIGITAL_MAX_PORT_NUM"
  shows "switch_buffer_empty b"
proof -
  from assms(1) have "unat (head_idx b) = 0"
    by (simp add: head_ports_def)
  then have h: "head_idx b = 0"
    by (simp add: unat_eq_0)
  from assms(2,3) have "unat (tail_idx b + 1) = unat (6::u8)"
    by (simp add: tail_ports_def DIGITAL_MAX_PORT_NUM_def)
  then have "tail_idx b + 1 = 6"
    by (simp only: word_unat_eq_iff)
  then have "tail_idx b = of_nat (DIGITAL_MAX_PORT_NUM - 1)"
    by (simp add: DIGITAL_MAX_PORT_NUM_def add_eq_0_iff eq_diff_eq [symmetric])
  with h show ?thesis
    by (simp add: switch_buffer_empty_def)
qed

lemma repeated_command_flags:
  assumes r1: "USBD_HID_Digital_IO_Set_Changes tbl buf s = Inr s1"
    and live: "ports (digital_io s2) i = (ports (digital_io_new_state s1) i)\<lparr>changePIN := UNCHANGED, changeIO := UNCHANGED\<rparr>"
    and cand: "digital_io_new_state s2 = digital_io_new_state s1"
    and r3: "USBD_HID_Digital_IO_Set_Changes tbl buf s2 = Inr s3"
    and i: "i < DIGITAL_MAX_PORT_NUM"
  shows "changeIO (ports (digital_io_new_state s3) i) = UNCHANGED"
    and "changePIN (ports (digital_io_new_state s3) i) = UNCHANGED"
proof -
  from Set_Changes_port_of [OF r1 i] obtain b b' where
    p1: "Set_Changes_port tbl (buf i) i (ports (digital_io s) i) (ports (digital_io_new_state s) i) b
          = Inr (ports (digital_io_new_state s1) i, b')" by blast
  from Set_Changes_port_of [OF r3 i] obtain c c' where
    p3: "Set_Changes_port tbl (buf i) i (ports (digital_io s2) i) (ports (digital_io_new_state s2) i) c
          = Inr (ports (digital_io_new_state s3) i, c')" by blast
  have "changeIO (ports (digital_io_new_state s3) i) = UNCHANGED \<and>
        changePIN (ports (digital_io_new_state s3) i) = UNCHANGED"
  proof (cases "bit (buf i) 0")
    case False
    from Set_Changes_inactive_port [OF r3 i False] show ?thesis
      by (simp add: default_port_fields)
  next
    case True
    note a1 = Set_Changes_port_active [OF True p1]
    note a3 = Set_Changes_port_active [OF True p3]
    have m: "Mode (gpio_settings (ports (digital_io_new_state s3) i)) = Mode (gpio_settings (ports (digital_io s2) i))"
      and u: "Pull (gpio_settings (ports (digital_io_new_state s3) i)) = Pull (gpio_settings (ports (digital_io s2) i))"
      by (simp_all add: a3(1,2) live a1(1,2))
    have io: "changeIO (ports (digital_io_new_state s3) i) = UNCHANGED"
      using a3(5) by (simp add: m u)
    have "bit (buf i) 1 \<Longrightarrow> pins (ports (digital_io_new_state s3) i) 3 = pins (ports (digital_io s2) i) 3"
      by (simp add: a3(7) live a1(7))
    then have "changePIN (ports (digital_io_new_state s3) i) = UNCHANGED"
      using a3(6) by (auto simp: io flags_distinct)
    with io show ?thesis by simp
  qed
  then show "changeIO (ports (digital_io_new_state s3) i) = UNCHANGED"
    and "changePIN (ports (digital_io_new_state s3) i) = UNCHANGED"
    by simp_all
qed

text \<open>
  C6. Started on an empty switch buffer, a command buffer is decoded and committed; decoding
  the same buffer again right after leaves \<^verbatim>\<open>_changeIO\<close> and \<^verbatim>\<open>_changePIN\<close>
  unchanged (false) on every port and the switch buffer empty, and the second commit makes
  no call to the GPIO layer at all.
\<close>

theorem same_command_twice_is_silent:
  assumes "switch_buffer_empty (digital_io_switch_buffer s)"
  shows "\<exists>s2 s3 s4. decode_and_commit tbl output_buff s = Inr s2 \<and>
           USBD_HID_Digital_IO_Set_Changes tbl output_buff s2 = Inr s3 \<and>
           (\<forall>port_idx<DIGITAL_MAX_PORT_NUM.
              changeIO (ports (digital_io_new_state s3) port_idx) = UNCHANGED \<and>
              changePIN (ports (digital_io_new_state s3) port_idx) = UNCHANGED) \<and>
           switch_buffer_empty (digital_io_switch_buffer s3) \<and>
           USBD_HID_Digital_IO_SwitchPorts s3 = Inr s4 \<and>
           hw s4 = hw s2"
proof -
  from decode_and_commit_from_empty [OF assms, of tbl output_buff] obtain s1 s2 where
    r1: "USBD_HID_Digital_IO_Set_Changes tbl output_buff s = Inr s1"
    and c: "decode_and_commit tbl output_buff s = Inr s2"
    and e2: "switch_buffer_empty (digital_io_switch_buffer s2)"
    and n2: "digital_io_new_state s2 = digital_io_new_state s1"
    and l2: "\<forall>i. ports (digital_io s2) i =
                 (if i < DIGITAL_MAX_PORT_NUM
                  then (ports (digital_io_new_state s1) i)\<lparr>changePIN := UNCHANGED, changeIO := UNCHANGED\<rparr>
                  else ports (digital_io_new_state s1) i)"
    by blast
  from cycle_from_empty [OF e2, of tbl output_buff] obtain s3 s4 where
    r3: "USBD_HID_Digital_IO_Set_Changes tbl output_buff s2 = Inr s3"
    and c3: "USBD_HID_Digital_IO_SwitchPorts s3 = Inr s4"
    and h: "head_ports (digital_io_switch_buffer s3) =
             filter (\<lambda>i. changeIO (ports (digital_io_new_state s3) i) = CHANGED \<and>
                          Mode (gpio_settings (ports (digital_io_new_state s3) i)) = GPIO_MODE_INPUT)
               [0..<DIGITAL_MAX_PORT_NUM]"
    and t: "tail_ports (digital_io_switch_buffer s3) =
             rev (filter (\<lambda>i. changeIO (ports (digital_io_new_state s3) i) = CHANGED \<and>
                               Mode (gpio_settings (ports (digital_io_new_state s3) i)) = GPIO_MODE_OUTPUT_PP)
               [0..<DIGITAL_MAX_PORT_NUM])"
    and w: "hw s4 = hw s2 @ map (setup_call (digital_io_new_state s3)) (rev (head_ports (digital_io_switch_buffer s3)))
                        @ map (setup_call (digital_io_new_state s3)) (tail_ports (digital_io_switch_buffer s3))
                        @ concat (map (\<lambda>i. if changePIN (ports (digital_io_new_state s3) i) = CHANGED
                                     then map (\<lambda>pin_idx. GPIO_Write_DIGITAL_IO i pin_idx (pins (ports (digital_io_new_state s3) i) pin_idx))
                                            [0..<DIGITAL_MAX_PIN_NUM]
                                     else []) [0..<DIGITAL_MAX_PORT_NUM])"
    by blast
  have f: "changeIO (ports (digital_io_new_state s3) i) = UNCHANGED \<and>
           changePIN (ports (digital_io_new_state s3) i) = UNCHANGED" if "i < DIGITAL_MAX_PORT_NUM" for i
    using repeated_command_flags [OF r1 _ n2 r3 that] l2 that by simp
  have hp: "head_ports (digital_io_switch_buffer s3) = []"
    unfolding h using f by (simp add: filter_empty_conv flags_distinct)
  have tp: "tail_ports (digital_io_switch_buffer s3) = []"
    unfolding t using f by (simp add: filter_empty_conv flags_distinct)
  have e3: "switch_buffer_empty (digital_io_switch_buffer s3)"
    using Set_Changes_in_range [OF e2 r3]
    by (intro empty_ranges_imp_empty hp tp) (simp add: switch_buffer_in_range_def)
  have "concat (map (\<lambda>i. if changePIN (ports (digital_io_new_state s3) i) = CHANGED
                                     then map (\<lambda>pin_idx. GPIO_Write_DIGITAL_IO i pin_idx (pins (ports (digital_io_new_state s3) i) pin_idx))
                                            [0..<DIGITAL_MAX_PIN_NUM]
                                     else []) [0..<DIGITAL_MAX_PORT_NUM]) = []"
    using f by (simp add: flags_distinct)
  then have "hw s4 = hw s2"
    unfolding w hp tp by simp
  with c r3 f e3 c3 show ?thesis by blast
qed

theorem same_command_twice_is_silent_witness:
  "\<exists>s2 s3 s4. decode_and_commit example_pin_table
                (received [0x13, 0x05, 0x00, 0x00, 0x00, 0x00] (\<lambda>_. 0)) power_on = Inr s2 \<and>
           USBD_HID_Digital_IO_Set_Changes example_pin_table
                (received [0x13, 0x05, 0x00, 0x00, 0x00, 0x00] (\<lambda>_. 0)) s2 = Inr s3 \<and>
           changeIO (ports (digital_io_new_state s3) 0) = UNCHANGED \<and>
           changePIN (ports (digital_io_new_state s3) 0) = UNCHANGED \<and>
           changeIO (ports (digital_io_new_state s3) 1) = UNCHANGED \<and>
           changePIN (ports (digital_io_new_state s3) 1) = UNCHANGED \<and>
           switch_buffer_empty (digital_io_switch_buffer s3) \<and>
           USBD_HID_Digital_IO_SwitchPorts s3 = Inr s4 \<and>
           hw s4 = hw s2"
proof -
  have "(0::nat) < DIGITAL_MAX_PORT_NUM" "(1::nat) < DIGITAL_MAX_PORT_NUM"
    by (simp_all add: DIGITAL_MAX_PORT_NUM_def)
  with same_command_twice_is_silent [OF power_on_fields(1), of example_pin_table
         "received [0x13, 0x05, 0x00, 0x00, 0x00, 0x00] (\<lambda>_. 0)"]
  show ?thesis by blast
qed

lemma decode_and_commit_port:
  assumes "decode_and_commit tbl buf s = Inr s'" and "i < DIGITAL_MAX_PORT_NUM"
  shows "Mode (gpio_settings (ports (digital_io s') i)) =
           (if bit (buf i) 0 \<and> bit (buf i) 1 then GPIO_MODE_OUTPUT_PP else GPIO_MODE_INPUT)"
    and "j < DIGITAL_MAX_PIN_NUM \<Longrightarrow>
         pins (ports (digital_io s') i) j =
           (if \<not> bit (buf i) 0 then DIGITAL_PIN_LOW
            else if bit (buf i) 1 then of_bool (bit (buf i) (4 + j))
            else pins (ports (digital_io_new_state s) i) j)"
proof -
  from assms(1) obtain s1 where
    r: "USBD_HID_Digital_IO_Set_Changes tbl buf s = Inr s1"
    and c: "USBD_HID_Digital_IO_SwitchPorts s1 = Inr s'"
    by (auto simp: decode_and_commit_Inr)
  have l: "ports (digital_io s') i = (ports (digital_io_new_state s1) i)\<lparr>changePIN := UNCHANGED, changeIO := UNCHANGED\<rparr>"
    using SwitchPorts_Inr(4) [OF c, of i] assms(2) by simp
  from Set_Changes_port_of [OF r assms(2)] obtain b b' where
    p: "Set_Changes_port tbl (buf i) i (ports (digital_io s) i) (ports (digital_io_new_state s) i) b
          = Inr (ports (digital_io_new_state s1) i, b')" by blast
  show "Mode (gpio_settings (ports (digital_io s') i)) =
           (if bit (buf i) 0 \<and> bit (buf i) 1 then GPIO_MODE_OUTPUT_PP else GPIO_MODE_INPUT)"
  proof (cases "bit (buf i) 0")
    case True
    from Set_Changes_port_active(1) [OF True p] True show ?thesis by (simp add: l)
  next
    case False
    from Set_Changes_inactive_port [OF r assms(2) False] False show ?thesis
      by (simp add: l default_port_fields)
  qed
  show "pins (ports (digital_io s') i) j =
           (if \<not> bit (buf i) 0 then DIGITAL_PIN_LOW
            else if bit (buf i) 1 then of_bool (bit (buf i) (4 + j))
            else pins (ports (digital_io_new_state s) i) j)" if "j < DIGITAL_MAX_PIN_NUM"
  proof (cases "bit (buf i) 0")
    case True
    from that have "j = 0 \<or> j = 1 \<or> j = 2 \<or> j = 3"
      by (simp add: DIGITAL_MAX_PIN_NUM_def) arith
    with Set_Changes_port_active(7) [OF True p] True show ?thesis
      by (auto simp: l)
  next
    case False
    from Set_Changes_inactive_port [OF r assms(2) False] False valid_default_port(2) [OF that] show ?thesis
      by (simp add: l)
  qed
qed

lemma CreateReport_cong:
  assumes "\<And>i. i < DIGITAL_MAX_PORT_NUM \<Longrightarrow>
             Mode (gpio_settings (ports (digital_io s) i)) = Mode (gpio_settings (ports (digital_io t) i))"
    and "\<And>i j. i < DIGITAL_MAX_PORT_NUM \<Longrightarrow> j < DIGITAL_MAX_PIN_NUM \<Longrightarrow>
             pins (ports (digital_io s) i) j = pins (ports (digital_io t) i) j"
  shows "USBD_HID_Digital_IO_CreateReport s = USBD_HID_Digital_IO_CreateReport t"
proof -
  have m: "Mode (gpio_settings (ports (digital_io s) i)) = Mode (gpio_settings (ports (digital_io t) i))"
    if "i < 6" for i
    using assms(1) [of i] that by (simp add: DIGITAL_MAX_PORT_NUM_def)
  have p: "pins (ports (digital_io s) i) j = pins (ports (digital_io t) i) j" if "i < 6" "j < 4" for i j
    using assms(2) [of i j] that by (simp add: DIGITAL_MAX_PORT_NUM_def DIGITAL_MAX_PIN_NUM_def)
  show ?thesis
    unfolding CreateReport_closed_form
    by (simp only: m [of 0] m [of 1] m [of 2] m [of 3] m [of 4] m [of 5]
          p [of 0 0] p [of 0 1] p [of 0 2] p [of 0 3] p [of 1 0] p [of 1 1] p [of 1 2] p [of 1 3]
          p [of 2 0] p [of 2 1] p [of 2 2] p [of 2 3] p [of 3 0] p [of 3 1] p [of 3 2] p [of 3 3]
          p [of 4 0] p [of 4 1] p [of 4 2] p [of 4 3] p [of 5 0] p [of 5 1] p [of 5 2] p [of 5 3])
qed

lemma stale_candidate_fields:
  "digital_io stale_candidate = digital_io power_on"
  "switch_buffer_empty (digital_io_switch_buffer stale_candidate)"
  "pins (ports (digital_io_new_state stale_candidate) 0) 0 = 1"
  "valid_digital_io (digital_io_new_state stale_candidate)"
proof -
  show "digital_io stale_candidate = digital_io power_on"
    and "switch_buffer_empty (digital_io_switch_buffer stale_candidate)"
    and "pins (ports (digital_io_new_state stale_candidate) 0) 0 = 1"
    by (simp_all add: stale_candidate_def power_on_fields)
  have "valid_digital_io (digital_io power_on)" by (rule valid_power_on)
  then show "valid_digital_io (digital_io_new_state stale_candidate)"
    by (auto simp: valid_digital_io_iff stale_candidate_def power_on_fields(3))
qed

theorem inactive_port_gets_default_witness:
  "pins (ports (digital_io_new_state stale_candidate) 0) 0 = 1 \<and>
   (\<exists>s'. USBD_HID_Digital_IO_Set_Changes example_pin_table
           (received [0x00, 0x03, 0x00, 0x00, 0x00, 0x00] (\<lambda>_. 0)) stale_candidate = Inr s' \<and>
         Mode (gpio_settings (ports (digital_io_new_state s') 0)) = GPIO_MODE_INPUT \<and>
         Pull (gpio_settings (ports (digital_io_new_state s') 0)) = GPIO_PULLDOWN \<and>
         pins (ports (digital_io_new_state s') 0) 0 = DIGITAL_PIN_LOW \<and>
         pins (ports (digital_io_new_state s') 0) 3 = DIGITAL_PIN_LOW \<and>
         Pin (gpio_settings (ports (digital_io_new_state s') 0)) = 0x0F \<and>
         changeIO (ports (digital_io_new_state s') 0) = UNCHANGED \<and>
         changePIN (ports (digital_io_new_state s') 0) = UNCHANGED \<and>
         0 \<notin> set (head_ports (digital_io_switch_buffer s')) \<and>
         0 \<notin> set (tail_ports (digital_io_switch_buffer s')))"
proof -
  have "(0::nat) < DIGITAL_MAX_PORT_NUM"
    and "\<not> bit (received [0x00, 0x03, 0x00, 0x00, 0x00, 0x00] (\<lambda>_. 0) 0 :: u8) 0"
    by (simp_all add: DIGITAL_MAX_PORT_NUM_def received_def)
  from inactive_port_gets_default
         [where s = stale_candidate and port_idx = 0 and tbl = example_pin_table
            and output_buff = "received [0x00, 0x03, 0x00, 0x00, 0x00, 0x00] (\<lambda>_. 0)",
          OF stale_candidate_fields(2) this]
  show ?thesis
    using stale_candidate_fields(3)
    by (auto simp: DIGITAL_MAX_PIN_NUM_def example_pin_table_def)
qed

text \<open>
  C5 does not hold of the code as the specification states it. Two runs start from equal live states and receive the same command
  (port 0 active, Input, PullDown: exactly what the live state holds); they differ only in
  pin 0 of candidate port 0. Both cycles return, and the reports differ: the Input branch
  leaves the candidate pins as they were and the commit copies them into the live state.
\<close>

theorem report_depends_on_candidate_pins:
  "digital_io stale_candidate = digital_io power_on \<and>
   \<not> isl (decode_and_commit example_pin_table (received [0x05, 0x00, 0x00, 0x00, 0x00, 0x00] (\<lambda>_. 0)) power_on) \<and>
   \<not> isl (decode_and_commit example_pin_table (received [0x05, 0x00, 0x00, 0x00, 0x00, 0x00] (\<lambda>_. 0)) stale_candidate) \<and>
   USBD_HID_Digital_IO_CreateReport
     (projr (decode_and_commit example_pin_table (received [0x05, 0x00, 0x00, 0x00, 0x00, 0x00] (\<lambda>_. 0)) power_on)) \<noteq>
   USBD_HID_Digital_IO_CreateReport
     (projr (decode_and_commit example_pin_table (received [0x05, 0x00, 0x00, 0x00, 0x00, 0x00] (\<lambda>_. 0)) stale_candidate))"
proof -
  let ?b = "received [0x05, 0x00, 0x00, 0x00, 0x00, 0x00] (\<lambda>_. 0) :: nat \<Rightarrow> u8"
  have z: "(0::nat) < DIGITAL_MAX_PORT_NUM" "(0::nat) < DIGITAL_MAX_PIN_NUM" "(0::nat) < 3"
    by (simp_all add: DIGITAL_MAX_PORT_NUM_def DIGITAL_MAX_PIN_NUM_def)
  have b0: "bit (?b 0) 0" "\<not> bit (?b 0) 1"
    by (simp_all add: received_def bit_0)
  from decode_and_commit_from_empty [OF power_on_fields(1), of example_pin_table ?b]
  obtain s' where s: "decode_and_commit example_pin_table ?b power_on = Inr s'" by blast
  from decode_and_commit_from_empty [OF stale_candidate_fields(2), of example_pin_table ?b]
  obtain t' where t: "decode_and_commit example_pin_table ?b stale_candidate = Inr t'" by blast
  have vs: "valid_digital_io (digital_io s')"
    using decode_and_commit_valid(1) [OF _ s] valid_power_on by (simp add: power_on_fields(3))
  have vt: "valid_digital_io (digital_io t')"
    by (rule decode_and_commit_valid(1) [OF stale_candidate_fields(4) t])
  have ps: "pins (ports (digital_io s') 0) 0 = 0"
    using decode_and_commit_port(2) [OF s z(1,2)] b0 power_on_port(4) [OF z(1)]
    by (simp add: power_on_fields(3))
  have pt: "pins (ports (digital_io t') 0) 0 = 1"
    using decode_and_commit_port(2) [OF t z(1,2)] b0
    by (simp add: stale_candidate_fields(3))
  have "\<not> bit (USBD_HID_Digital_IO_CreateReport s' ! (1 + 0)) 0"
    unfolding report_pin_byte [OF vs z(3)] by (simp add: ps)
  moreover have "bit (USBD_HID_Digital_IO_CreateReport t' ! (1 + 0)) 0"
    unfolding report_pin_byte [OF vt z(3)] by (simp add: pt)
  ultimately have "USBD_HID_Digital_IO_CreateReport s' \<noteq> USBD_HID_Digital_IO_CreateReport t'"
    by auto
  then show ?thesis
    by (simp add: s t stale_candidate_fields(1))
qed

text \<open>
  C5, amended. The report after decode-and-commit is a function of the command buffer and of
  the pin values the candidate state held before the cycle on the ports the command marks
  active with mode Input. Two runs that receive the same buffer and agree on those candidate
  pins give equal reports whenever both cycles return, whatever else the two states held
  (live states, flags, other candidate contents, switch buffers); and a cycle returns
  whenever the switch buffer is empty when it starts.
\<close>

theorem report_determined_by_command_and_input_pins:
  assumes "\<forall>port_idx<DIGITAL_MAX_PORT_NUM.
           bit (output_buff port_idx) 0 \<and> \<not> bit (output_buff port_idx) 1 \<longrightarrow>
           (\<forall>pin_idx<DIGITAL_MAX_PIN_NUM.
              pins (ports (digital_io_new_state s) port_idx) pin_idx =
              pins (ports (digital_io_new_state t) port_idx) pin_idx)"
  shows "(switch_buffer_empty (digital_io_switch_buffer s) \<longrightarrow>
            (\<exists>s'. decode_and_commit tbl output_buff s = Inr s')) \<and>
         (switch_buffer_empty (digital_io_switch_buffer t) \<longrightarrow>
            (\<exists>t'. decode_and_commit tbl output_buff t = Inr t')) \<and>
         (\<forall>s' t'. decode_and_commit tbl output_buff s = Inr s' \<and>
                  decode_and_commit tbl output_buff t = Inr t' \<longrightarrow>
                  USBD_HID_Digital_IO_CreateReport s' = USBD_HID_Digital_IO_CreateReport t')"
proof (intro conjI allI impI)
  assume "switch_buffer_empty (digital_io_switch_buffer s)"
  from decode_and_commit_from_empty [OF this, of tbl output_buff]
  show "\<exists>s'. decode_and_commit tbl output_buff s = Inr s'" by blast
next
  assume "switch_buffer_empty (digital_io_switch_buffer t)"
  from decode_and_commit_from_empty [OF this, of tbl output_buff]
  show "\<exists>t'. decode_and_commit tbl output_buff t = Inr t'" by blast
next
  fix s' t'
  assume "decode_and_commit tbl output_buff s = Inr s' \<and> decode_and_commit tbl output_buff t = Inr t'"
  then have s: "decode_and_commit tbl output_buff s = Inr s'"
    and t: "decode_and_commit tbl output_buff t = Inr t'"
    by simp_all
  show "USBD_HID_Digital_IO_CreateReport s' = USBD_HID_Digital_IO_CreateReport t'"
  proof (rule CreateReport_cong)
    fix i assume i: "i < DIGITAL_MAX_PORT_NUM"
    show "Mode (gpio_settings (ports (digital_io s') i)) = Mode (gpio_settings (ports (digital_io t') i))"
      by (simp only: decode_and_commit_port(1) [OF s i] decode_and_commit_port(1) [OF t i])
    fix j assume j: "j < DIGITAL_MAX_PIN_NUM"
    show "pins (ports (digital_io s') i) j = pins (ports (digital_io t') i) j"
      using assms i j
      by (simp add: decode_and_commit_port(2) [OF s i j] decode_and_commit_port(2) [OF t i j])
  qed
qed

theorem report_determined_by_command_and_input_pins_witness:
  "bit (received [0x13, 0x05, 0x00, 0x00, 0x00, 0x00] (\<lambda>_. 0) 1 :: u8) 0 \<and>
   \<not> bit (received [0x13, 0x05, 0x00, 0x00, 0x00, 0x00] (\<lambda>_. 0) 1 :: u8) 1 \<and>
   pins (ports (digital_io_new_state power_on) 1) 0 = pins (ports (digital_io_new_state stale_candidate) 1) 0 \<and>
   pins (ports (digital_io_new_state power_on) 0) 0 \<noteq> pins (ports (digital_io_new_state stale_candidate) 0) 0 \<and>
   (\<exists>s' t'. decode_and_commit example_pin_table
              (received [0x13, 0x05, 0x00, 0x00, 0x00, 0x00] (\<lambda>_. 0)) power_on = Inr s' \<and>
           decode_and_commit example_pin_table
              (received [0x13, 0x05, 0x00, 0x00, 0x00, 0x00] (\<lambda>_. 0)) stale_candidate = Inr t' \<and>
           USBD_HID_Digital_IO_CreateReport s' = USBD_HID_Digital_IO_CreateReport t')"
proof -
  let ?b = "received [0x13, 0x05, 0x00, 0x00, 0x00, 0x00] (\<lambda>_. 0) :: nat \<Rightarrow> u8"
  have z: "(0::nat) < DIGITAL_MAX_PORT_NUM" "(1::nat) < DIGITAL_MAX_PORT_NUM"
    by (simp_all add: DIGITAL_MAX_PORT_NUM_def)
  have b1: "bit (?b 1) 0" "\<not> bit (?b 1) 1"
    by (simp_all add: received_def bit_0)
  have p0: "pins (ports (digital_io_new_state power_on) 0) 0 \<noteq>
            pins (ports (digital_io_new_state stale_candidate) 0) 0"
    using power_on_port(4) [OF z(1)] by (simp add: stale_candidate_fields(3) power_on_fields(3))
  have agree: "\<forall>port_idx<DIGITAL_MAX_PORT_NUM.
           bit (?b port_idx) 0 \<and> \<not> bit (?b port_idx) 1 \<longrightarrow>
           (\<forall>pin_idx<DIGITAL_MAX_PIN_NUM.
              pins (ports (digital_io_new_state power_on) port_idx) pin_idx =
              pins (ports (digital_io_new_state stale_candidate) port_idx) pin_idx)"
  proof (intro allI impI)
    fix port_idx pin_idx
    assume "port_idx < DIGITAL_MAX_PORT_NUM" and a: "bit (?b port_idx) 0 \<and> \<not> bit (?b port_idx) 1"
    have "port_idx \<noteq> 0"
    proof
      assume "port_idx = 0"
      with a have "\<not> bit (?b 0) 1" by simp
      then show False by (simp add: received_def)
    qed
    then show "pins (ports (digital_io_new_state power_on) port_idx) pin_idx =
               pins (ports (digital_io_new_state stale_candidate) port_idx) pin_idx"
      by (simp add: stale_candidate_def)
  qed
  have p1: "pins (ports (digital_io_new_state power_on) 1) 0 =
            pins (ports (digital_io_new_state stale_candidate) 1) 0"
    by (simp add: stale_candidate_def)
  note d = report_determined_by_command_and_input_pins
             [where s = power_on and t = stale_candidate and tbl = example_pin_table, OF agree]
  from d power_on_fields(1) obtain s' where
    s: "decode_and_commit example_pin_table ?b power_on = Inr s'" by blast
  from d stale_candidate_fields(2) obtain t' where
    t: "decode_and_commit example_pin_table ?b stale_candidate = Inr t'" by blast
  from d s t have "USBD_HID_Digital_IO_CreateReport s' = USBD_HID_Digital_IO_CreateReport t'"
    by blast
  with s t b1 p0 p1 show ?thesis by blast
qed

lemma for_each_cong:
  assumes "\<And>i s. i \<in> set is \<Longrightarrow> f i s = g i s"
  shows "for_each f is s = for_each g is s"
  using assms by (induction "is" arbitrary: s) (auto split: sum.splits)

lemma Set_Changes_reads_port_bytes:
  assumes "\<And>i. i < DIGITAL_MAX_PORT_NUM \<Longrightarrow> buf i = buf' i"
  shows "USBD_HID_Digital_IO_Set_Changes tbl buf s = USBD_HID_Digital_IO_Set_Changes tbl buf' s"
  unfolding USBD_HID_Digital_IO_Set_Changes_def
  by (rule for_each_cong) (simp add: Set_Changes_body_def assms)





lemma inputs_before_outputs_append:
  "inputs_before_outputs (xs @ ys) =
     (inputs_before_outputs xs \<and> inputs_before_outputs ys \<and>
      (list_ex (setup_with_mode GPIO_MODE_OUTPUT_PP) xs \<longrightarrow> \<not> list_ex (setup_with_mode GPIO_MODE_INPUT) ys))"
  by (induction xs) (auto simp: list_ex_iff)

lemma no_output_setup: "\<not> list_ex (setup_with_mode GPIO_MODE_OUTPUT_PP) xs \<Longrightarrow> inputs_before_outputs xs"
  by (induction xs) auto

lemma no_input_setup: "\<not> list_ex (setup_with_mode GPIO_MODE_INPUT) xs \<Longrightarrow> inputs_before_outputs xs"
  by (induction xs) (auto simp: list_ex_iff)

lemma setup_calls_mode:
  "list_ex (setup_with_mode m) (map (setup_call d) ps) = (\<exists>p\<in>set ps. Mode (gpio_settings (ports d p)) = m)"
  by (simp add: list_ex_iff setup_call_def)

lemma pin_writes_only:
  "\<forall>e\<in>set (concat (map (\<lambda>i. if changePIN (ports d i) = CHANGED
                                then map (\<lambda>pin_idx. GPIO_Write_DIGITAL_IO i pin_idx (pins (ports d i) pin_idx))
                                       [0..<DIGITAL_MAX_PIN_NUM]
                                else []) is)).
     \<exists>p k v. e = GPIO_Write_DIGITAL_IO p k v"
  by auto

text \<open>
  C1. In every cycle started on an empty switch buffer, the transition computation queues a
  port in the head range exactly when its \<^verbatim>\<open>_changeIO\<close> flag is set and its candidate
  mode is Input, and in the tail range exactly when the flag is set and the candidate mode
  is Output. The commit then calls \<^verbatim>\<open>HAL_GPIO_Init\<close> for the whole head range (last
  queued first), after that for the whole tail range, after that come the pin writes only.
  So in the calls of the cycle no set-up with mode Input follows a set-up with mode Output.
\<close>

theorem inputs_are_set_up_before_outputs:
  assumes "switch_buffer_empty (digital_io_switch_buffer s)"
  shows "\<exists>s1 s2 writes.
           USBD_HID_Digital_IO_Set_Changes tbl output_buff s = Inr s1 \<and>
           USBD_HID_Digital_IO_SwitchPorts s1 = Inr s2 \<and>
           (\<forall>p<DIGITAL_MAX_PORT_NUM.
              (p \<in> set (head_ports (digital_io_switch_buffer s1))) =
                (changeIO (ports (digital_io_new_state s1) p) = CHANGED \<and>
                 Mode (gpio_settings (ports (digital_io_new_state s1) p)) = GPIO_MODE_INPUT) \<and>
              (p \<in> set (tail_ports (digital_io_switch_buffer s1))) =
                (changeIO (ports (digital_io_new_state s1) p) = CHANGED \<and>
                 Mode (gpio_settings (ports (digital_io_new_state s1) p)) = GPIO_MODE_OUTPUT_PP)) \<and>
           hw s2 = hw s @ map (setup_call (digital_io_new_state s1)) (rev (head_ports (digital_io_switch_buffer s1)))
                        @ map (setup_call (digital_io_new_state s1)) (tail_ports (digital_io_switch_buffer s1))
                        @ writes \<and>
           (\<forall>e\<in>set writes. \<exists>p k v. e = GPIO_Write_DIGITAL_IO p k v) \<and>
           inputs_before_outputs (drop (length (hw s)) (hw s2))"
proof -
  from cycle_from_empty [OF assms, of tbl output_buff] obtain s1 s2 where
    r: "USBD_HID_Digital_IO_Set_Changes tbl output_buff s = Inr s1"
    and c: "USBD_HID_Digital_IO_SwitchPorts s1 = Inr s2"
    and h: "head_ports (digital_io_switch_buffer s1) =
             filter (\<lambda>i. changeIO (ports (digital_io_new_state s1) i) = CHANGED \<and>
                          Mode (gpio_settings (ports (digital_io_new_state s1) i)) = GPIO_MODE_INPUT)
               [0..<DIGITAL_MAX_PORT_NUM]"
    and t: "tail_ports (digital_io_switch_buffer s1) =
             rev (filter (\<lambda>i. changeIO (ports (digital_io_new_state s1) i) = CHANGED \<and>
                               Mode (gpio_settings (ports (digital_io_new_state s1) i)) = GPIO_MODE_OUTPUT_PP)
               [0..<DIGITAL_MAX_PORT_NUM])"
    and w: "hw s2 = hw s @ map (setup_call (digital_io_new_state s1)) (rev (head_ports (digital_io_switch_buffer s1)))
                        @ map (setup_call (digital_io_new_state s1)) (tail_ports (digital_io_switch_buffer s1))
                        @ concat (map (\<lambda>i. if changePIN (ports (digital_io_new_state s1) i) = CHANGED
                                     then map (\<lambda>pin_idx. GPIO_Write_DIGITAL_IO i pin_idx (pins (ports (digital_io_new_state s1) i) pin_idx))
                                            [0..<DIGITAL_MAX_PIN_NUM]
                                     else []) [0..<DIGITAL_MAX_PORT_NUM])"
    by blast
  define writes where "writes = concat (map (\<lambda>i. if changePIN (ports (digital_io_new_state s1) i) = CHANGED
                                     then map (\<lambda>pin_idx. GPIO_Write_DIGITAL_IO i pin_idx (pins (ports (digital_io_new_state s1) i) pin_idx))
                                            [0..<DIGITAL_MAX_PIN_NUM]
                                     else []) [0..<DIGITAL_MAX_PORT_NUM])"
  let ?H = "map (setup_call (digital_io_new_state s1)) (rev (head_ports (digital_io_switch_buffer s1)))"
  let ?T = "map (setup_call (digital_io_new_state s1)) (tail_ports (digital_io_switch_buffer s1))"
  have ws: "\<forall>e\<in>set writes. \<exists>p k v. e = GPIO_Write_DIGITAL_IO p k v"
    unfolding writes_def by (rule pin_writes_only)
  have cls: "(p \<in> set (head_ports (digital_io_switch_buffer s1))) =
                (changeIO (ports (digital_io_new_state s1) p) = CHANGED \<and>
                 Mode (gpio_settings (ports (digital_io_new_state s1) p)) = GPIO_MODE_INPUT) \<and>
              (p \<in> set (tail_ports (digital_io_switch_buffer s1))) =
                (changeIO (ports (digital_io_new_state s1) p) = CHANGED \<and>
                 Mode (gpio_settings (ports (digital_io_new_state s1) p)) = GPIO_MODE_OUTPUT_PP)"
    if "p < DIGITAL_MAX_PORT_NUM" for p
    using that by (simp add: h t)
  have noH: "\<not> list_ex (setup_with_mode GPIO_MODE_OUTPUT_PP) ?H"
    by (simp add: setup_calls_mode h modes_distinct)
  have noT: "\<not> list_ex (setup_with_mode GPIO_MODE_INPUT) ?T"
    by (simp add: setup_calls_mode t modes_distinct)
  have noW: "\<not> list_ex (setup_with_mode GPIO_MODE_INPUT) writes"
    using ws by (auto simp: list_ex_iff)
  have "inputs_before_outputs (?H @ ?T @ writes)"
    using noH noT noW
    by (simp add: inputs_before_outputs_append no_output_setup no_input_setup)
  then have "inputs_before_outputs (drop (length (hw s)) (hw s2))"
    by (simp add: w writes_def)
  with r c cls w ws show ?thesis
    unfolding writes_def [symmetric] by blast
qed

lemma after_first_cycle:
  "\<exists>s2. decode_and_commit example_pin_table
           (received [0x03, 0x00, 0x00, 0x00, 0x00, 0x00] (\<lambda>_. 0)) power_on = Inr s2 \<and>
        switch_buffer_empty (digital_io_switch_buffer s2) \<and>
        gpio_settings (ports (digital_io s2) 0) = \<lparr>Pin = 0x0F, Mode = GPIO_MODE_OUTPUT_PP, Pull = GPIO_NOPULL\<rparr> \<and>
        gpio_settings (ports (digital_io s2) 1) = \<lparr>Pin = 0x0F, Mode = GPIO_MODE_INPUT, Pull = GPIO_PULLDOWN\<rparr> \<and>
        Pin (gpio_settings (ports (digital_io_new_state s2) 0)) = 0x0F \<and>
        Pin (gpio_settings (ports (digital_io_new_state s2) 1)) = 0x0F"
proof -
  let ?b1 = "received [0x03, 0x00, 0x00, 0x00, 0x00, 0x00] (\<lambda>_. 0) :: nat \<Rightarrow> u8"
  have z: "(0::nat) < DIGITAL_MAX_PORT_NUM" "(1::nat) < DIGITAL_MAX_PORT_NUM"
    by (simp_all add: DIGITAL_MAX_PORT_NUM_def)
  from first_command obtain s1 where
    r1: "USBD_HID_Digital_IO_Set_Changes example_pin_table ?b1 power_on = Inr s1"
    and g0: "gpio_settings (ports (digital_io_new_state s1) 0) =
           \<lparr>Pin = 0x0F, Mode = GPIO_MODE_OUTPUT_PP, Pull = GPIO_NOPULL\<rparr>"
    by blast
  from decode_and_commit_from_empty [OF power_on_fields(1), of example_pin_table ?b1] r1
  obtain s2 where
    c: "decode_and_commit example_pin_table ?b1 power_on = Inr s2"
    and e2: "switch_buffer_empty (digital_io_switch_buffer s2)"
    and n2: "digital_io_new_state s2 = digital_io_new_state s1"
    and l2: "\<forall>i. ports (digital_io s2) i =
                 (if i < DIGITAL_MAX_PORT_NUM
                  then (ports (digital_io_new_state s1) i)\<lparr>changePIN := UNCHANGED, changeIO := UNCHANGED\<rparr>
                  else ports (digital_io_new_state s1) i)"
    by auto
  have "\<not> bit (?b1 1) 0" by (simp add: received_def)
  from Set_Changes_inactive_port [OF r1 z(2) this]
  have g1: "gpio_settings (ports (digital_io_new_state s1) 1) =
           \<lparr>Pin = 0x0F, Mode = GPIO_MODE_INPUT, Pull = GPIO_PULLDOWN\<rparr>"
    by (simp add: default_port_fields example_pin_table_def)
  from c e2 g0 g1 l2 z show ?thesis
    by (intro exI [of _ s2]) (simp add: n2)
qed

theorem inputs_are_set_up_before_outputs_witness:
  "\<exists>s2 s3 s4 writes.
     decode_and_commit example_pin_table
       (received [0x03, 0x00, 0x00, 0x00, 0x00, 0x00] (\<lambda>_. 0)) power_on = Inr s2 \<and>
     Mode (gpio_settings (ports (digital_io s2) 0)) = GPIO_MODE_OUTPUT_PP \<and>
     Mode (gpio_settings (ports (digital_io s2) 1)) = GPIO_MODE_INPUT \<and>
     USBD_HID_Digital_IO_Set_Changes example_pin_table
       (received [0x01, 0x03, 0x00, 0x00, 0x00, 0x00] (\<lambda>_. 0)) s2 = Inr s3 \<and>
     head_ports (digital_io_switch_buffer s3) = [0] \<and>
     tail_ports (digital_io_switch_buffer s3) = [1] \<and>
     USBD_HID_Digital_IO_SwitchPorts s3 = Inr s4 \<and>
     hw s4 = hw s2 @ [HAL_GPIO_Init 0 \<lparr>Pin = 0x0F, Mode = GPIO_MODE_INPUT, Pull = GPIO_NOPULL\<rparr>,
                      HAL_GPIO_Init 1 \<lparr>Pin = 0x0F, Mode = GPIO_MODE_OUTPUT_PP, Pull = GPIO_NOPULL\<rparr>] @ writes \<and>
     inputs_before_outputs (drop (length (hw s2)) (hw s4))"
proof -
  let ?b2 = "received [0x01, 0x03, 0x00, 0x00, 0x00, 0x00] (\<lambda>_. 0) :: nat \<Rightarrow> u8"
  have z: "(0::nat) < DIGITAL_MAX_PORT_NUM" "(1::nat) < DIGITAL_MAX_PORT_NUM"
    by (simp_all add: DIGITAL_MAX_PORT_NUM_def)
  from after_first_cycle obtain s2 where
    c: "decode_and_commit example_pin_table
           (received [0x03, 0x00, 0x00, 0x00, 0x00, 0x00] (\<lambda>_. 0)) power_on = Inr s2"
    and e2: "switch_buffer_empty (digital_io_switch_buffer s2)"
    and l0: "gpio_settings (ports (digital_io s2) 0) = \<lparr>Pin = 0x0F, Mode = GPIO_MODE_OUTPUT_PP, Pull = GPIO_NOPULL\<rparr>"
    and l1: "gpio_settings (ports (digital_io s2) 1) = \<lparr>Pin = 0x0F, Mode = GPIO_MODE_INPUT, Pull = GPIO_PULLDOWN\<rparr>"
    and n0: "Pin (gpio_settings (ports (digital_io_new_state s2) 0)) = 0x0F"
    and n1: "Pin (gpio_settings (ports (digital_io_new_state s2) 1)) = 0x0F"
    by blast
  from inputs_are_set_up_before_outputs [OF e2, of example_pin_table ?b2]
  obtain s3 s4 writes where
    r3: "USBD_HID_Digital_IO_Set_Changes example_pin_table ?b2 s2 = Inr s3"
    and c3: "USBD_HID_Digital_IO_SwitchPorts s3 = Inr s4"
    and w: "hw s4 = hw s2 @ map (setup_call (digital_io_new_state s3)) (rev (head_ports (digital_io_switch_buffer s3)))
                        @ map (setup_call (digital_io_new_state s3)) (tail_ports (digital_io_switch_buffer s3))
                        @ writes"
    and o: "inputs_before_outputs (drop (length (hw s2)) (hw s4))"
    by blast
  from Set_Changes_from_empty [OF e2, of example_pin_table ?b2] r3
  have h: "head_ports (digital_io_switch_buffer s3) =
             filter (\<lambda>i. changeIO (ports (digital_io_new_state s3) i) = CHANGED \<and>
                          Mode (gpio_settings (ports (digital_io_new_state s3) i)) = GPIO_MODE_INPUT)
               [0..<DIGITAL_MAX_PORT_NUM]"
    and t: "tail_ports (digital_io_switch_buffer s3) =
             rev (filter (\<lambda>i. changeIO (ports (digital_io_new_state s3) i) = CHANGED \<and>
                               Mode (gpio_settings (ports (digital_io_new_state s3) i)) = GPIO_MODE_OUTPUT_PP)
               [0..<DIGITAL_MAX_PORT_NUM])"
    by auto
  have b: "?b2 0 = 0x01" "?b2 1 = 0x03" by (simp_all add: received_def)
  have a0: "bit (0x01::u8) 0" "\<not> bit (0x01::u8) 1" "decode_pull (0x01 AND 0x0C) = GPIO_NOPULL"
    and a1: "bit (0x03::u8) 0" "bit (0x03::u8) 1" "decode_pull (0x03 AND 0x0C) = GPIO_NOPULL"
    by (simp_all add: bit_0 decode_pull_def NOPULL_def)
  from Set_Changes_port_of [OF r3 z(1)] obtain x x' where
    "Set_Changes_port example_pin_table (?b2 0) 0 (ports (digital_io s2) 0)
       (ports (digital_io_new_state s2) 0) x = Inr (ports (digital_io_new_state s3) 0, x')"
    by blast
  then have p0: "Set_Changes_port example_pin_table 0x01 0 (ports (digital_io s2) 0)
       (ports (digital_io_new_state s2) 0) x = Inr (ports (digital_io_new_state s3) 0, x')"
    by (simp only: b)
  note f0 = Set_Changes_port_active [OF a0(1) p0]
  have g0: "gpio_settings (ports (digital_io_new_state s3) 0) =
              \<lparr>Pin = 0x0F, Mode = GPIO_MODE_INPUT, Pull = GPIO_NOPULL\<rparr>"
    using f0(1,2,3) a0 by (intro GPIO_InitTypeDef.equality) (simp_all add: n0)
  have io0: "changeIO (ports (digital_io_new_state s3) 0) = CHANGED"
    using f0(5) by (simp add: g0 l0 modes_distinct)
  from Set_Changes_port_of [OF r3 z(2)] obtain y y' where
    "Set_Changes_port example_pin_table (?b2 1) 1 (ports (digital_io s2) 1)
       (ports (digital_io_new_state s2) 1) y = Inr (ports (digital_io_new_state s3) 1, y')"
    by blast
  then have p1: "Set_Changes_port example_pin_table 0x03 1 (ports (digital_io s2) 1)
       (ports (digital_io_new_state s2) 1) y = Inr (ports (digital_io_new_state s3) 1, y')"
    by (simp only: b)
  note f1 = Set_Changes_port_active [OF a1(1) p1]
  have g1: "gpio_settings (ports (digital_io_new_state s3) 1) =
              \<lparr>Pin = 0x0F, Mode = GPIO_MODE_OUTPUT_PP, Pull = GPIO_NOPULL\<rparr>"
    using f1(1,2,3) a1 n1 by (intro GPIO_InitTypeDef.equality) simp_all
  have io1: "changeIO (ports (digital_io_new_state s3) 1) = CHANGED"
    using f1(5) g1 l1 by (simp add: modes_distinct)
  have rest: "changeIO (ports (digital_io_new_state s3) i) = UNCHANGED"
    if "i \<in> {2, 3, 4, 5}" for i
  proof -
    from that have "i < DIGITAL_MAX_PORT_NUM" "\<not> bit (?b2 i) 0"
      by (auto simp: DIGITAL_MAX_PORT_NUM_def received_def)
    from Set_Changes_inactive_port [OF r3 this] show ?thesis
      by (simp add: default_port_fields)
  qed
  have hp: "head_ports (digital_io_switch_buffer s3) = [0]"
    unfolding h upt_ports using rest g0 g1 io0 io1 by (simp add: modes_distinct flags_distinct)
  have tp: "tail_ports (digital_io_switch_buffer s3) = [1]"
    unfolding t upt_ports using rest g0 g1 io0 io1 by (simp add: modes_distinct flags_distinct)
  have "hw s4 = hw s2 @ [HAL_GPIO_Init 0 \<lparr>Pin = 0x0F, Mode = GPIO_MODE_INPUT, Pull = GPIO_NOPULL\<rparr>,
                      HAL_GPIO_Init 1 \<lparr>Pin = 0x0F, Mode = GPIO_MODE_OUTPUT_PP, Pull = GPIO_NOPULL\<rparr>] @ writes"
    unfolding w hp tp using g0 g1 by (simp add: setup_call_def)
  with c r3 c3 hp tp o l0 l1 show ?thesis
    by (intro exI [of _ s2] exI [of _ s3] exI [of _ s4] exI [of _ writes]) simp
qed

end
